(* ===== verification/Prelude.thy ===== *)
theory Prelude
  imports Main "HOL-Library.Char_ord" "HOL-Library.List_Lexorder"
begin

text \<open>
  What every component shares: the result type of fallible Rust functions
  (\<open>Result<T, E>\<close> as the sum \<open>'e + 'a\<close>, with the \<open>?\<close> operator as \<open>try_bind\<close>),
  saturating 32-bit arithmetic, collections of facts, and generic lemmas on lists and
  association lists. A Rust string is a \<open>string\<close> holding its UTF-8 bytes; its order
  (byte-wise, as Rust compares) is the lexicographic order of the library.
\<close>

named_theorems result_simps "evaluation of the ? operator"
named_theorems str_simps "evaluation of the string operations"
named_theorems wf_intros "introduction rules for well-formedness"

type_synonym str = string
type_synonym ('e, 'a) result = "'e + 'a"

definition try_bind :: "('e, 'a) result \<Rightarrow> ('a \<Rightarrow> ('e, 'b) result) \<Rightarrow> ('e, 'b) result" where
  "try_bind r f = (case r of Inl e \<Rightarrow> Inl e | Inr x \<Rightarrow> f x)"

lemma try_bind_simps [simp, result_simps]:
  "try_bind (Inl e) f = Inl e"
  "try_bind (Inr x) f = f x"
  by (simp_all add: try_bind_def)

lemma try_bind_Inr_iff:
  "try_bind r f = Inr y \<longleftrightarrow> (\<exists>x. r = Inr x \<and> f x = Inr y)"
  by (cases r) auto

lemma try_bind_split:
  "P (try_bind r f) \<longleftrightarrow> (\<forall>e. r = Inl e \<longrightarrow> P (Inl e)) \<and> (\<forall>x. r = Inr x \<longrightarrow> P (f x))"
  by (cases r) auto

definition ok_or :: "'a option \<Rightarrow> 'e \<Rightarrow> ('e, 'a) result" where
  "ok_or x e = (case x of None \<Rightarrow> Inl e | Some v \<Rightarrow> Inr v)"

lemma ok_or_simps [simp, result_simps]: "ok_or None e = Inl e" "ok_or (Some v) e = Inr v"
  by (simp_all add: ok_or_def)

lemma ok_or_Inr_iff: "ok_or x e = Inr v \<longleftrightarrow> x = Some v"
  by (cases x) auto

text \<open>Rust's \<open>unwrap_or\<close>.\<close>

definition unwrap_or :: "'a option \<Rightarrow> 'a \<Rightarrow> 'a" where
  "unwrap_or x d = (case x of None \<Rightarrow> d | Some v \<Rightarrow> v)"

lemma unwrap_or_simps [simp]: "unwrap_or None d = d" "unwrap_or (Some v) d = v"
  by (simp_all add: unwrap_or_def)

subsection \<open>Signed machine integers\<close>

text \<open>
  \<open>i32\<close> and \<open>i64\<close> values are integers within their range; the operations that can leave
  the range are written with the saturation or the wrap-around the source asks for.
\<close>

abbreviation i32_max :: int where "i32_max \<equiv> 2147483647"
abbreviation i32_min :: int where "i32_min \<equiv> - 2147483648"
abbreviation i64_max :: int where "i64_max \<equiv> 9223372036854775807"
abbreviation i64_min :: int where "i64_min \<equiv> - 9223372036854775808"

definition in_i32 :: "int \<Rightarrow> bool" where "in_i32 n \<longleftrightarrow> i32_min \<le> n \<and> n \<le> i32_max"
definition in_i64 :: "int \<Rightarrow> bool" where "in_i64 n \<longleftrightarrow> i64_min \<le> n \<and> n \<le> i64_max"

definition sat_add_i32 :: "int \<Rightarrow> int \<Rightarrow> int" where
  "sat_add_i32 a b = max i32_min (min i32_max (a + b))"

lemma sat_add_i32_exact: "in_i32 (a + b) \<Longrightarrow> sat_add_i32 a b = a + b"
  by (simp add: sat_add_i32_def in_i32_def)

lemma sat_add_i32_in: "in_i32 (sat_add_i32 a b)"
  by (simp add: sat_add_i32_def in_i32_def)

lemma sat_add_i32_mono: "0 \<le> b \<Longrightarrow> in_i32 a \<Longrightarrow> a \<le> sat_add_i32 a b"
  by (auto simp: sat_add_i32_def in_i32_def)

subsection \<open>Lists and association lists\<close>

lemma filter_map_iff:
  "y \<in> set (List.map_filter f xs) \<longleftrightarrow> (\<exists>x \<in> set xs. f x = Some y)"
  by (induction xs) (auto simp: List.map_filter_simps split: option.splits)

lemma list_all_filter: "list_all P xs \<Longrightarrow> list_all P (filter Q xs)"
  by (induction xs) auto

lemma list_all_map_keep:
  "list_all P xs \<Longrightarrow> (\<And>x. P x \<Longrightarrow> P (f x)) \<Longrightarrow> list_all P (map f xs)"
  by (induction xs) auto

lemma distinct_map_update:
  "(\<And>x. f (g x) = f x) \<Longrightarrow> map f (map g xs) = map f xs"
  by simp

text \<open>Keyed insertion that keeps a \<open>BTreeMap\<close>'s key order and replaces an existing entry.\<close>

fun bt_insert :: "'k::linorder \<Rightarrow> 'v \<Rightarrow> ('k \<times> 'v) list \<Rightarrow> ('k \<times> 'v) list" where
  "bt_insert k v [] = [(k, v)]"
| "bt_insert k v ((k', v') # xs) =
     (if k < k' then (k, v) # (k', v') # xs
      else if k = k' then (k, v) # xs
      else (k', v') # bt_insert k v xs)"

definition bt_sorted :: "('k::linorder \<times> 'v) list \<Rightarrow> bool" where
  "bt_sorted xs \<longleftrightarrow> sorted_wrt (<) (map fst xs)"

lemma bt_sorted_Nil [simp]: "bt_sorted []"
  by (simp add: bt_sorted_def)

lemma bt_insert_keys: "fst ` set (bt_insert k v xs) = insert k (fst ` set xs)"
  by (induction k v xs rule: bt_insert.induct) auto

lemma bt_insert_sorted: "bt_sorted xs \<Longrightarrow> bt_sorted (bt_insert k v xs)"
  unfolding bt_sorted_def
proof (induction k v xs rule: bt_insert.induct)
  case (2 k v k' v' xs)
  show ?case
  proof (cases "k' < k")
    case True
    have "\<forall>x \<in> fst ` set (bt_insert k v xs). k' < x"
      using 2 True by (auto simp: bt_insert_keys)
    then show ?thesis using 2 True by auto
  next
    case False
    then show ?thesis using 2 by force
  qed
qed simp

lemma map_of_bt_insert:
  "bt_sorted xs \<Longrightarrow> map_of (bt_insert k v xs) = (map_of xs)(k \<mapsto> v)"
  unfolding bt_sorted_def
proof (induction k v xs rule: bt_insert.induct)
  case (2 k v k' v' xs)
  have "map_of xs k = None" if "k < k'"
    using 2(2) that by (force simp: map_of_eq_None_iff)
  then show ?case using 2 by (auto simp: fun_eq_iff)
qed simp

lemma bt_insert_ne_Nil [simp]: "bt_insert k v xs \<noteq> []"
  by (cases "(k, v, xs)" rule: bt_insert.cases) auto

end
