(* ===== verification/RustStr.thy ===== *)
theory RustStr
  imports Prelude "HOL-Library.Sublist"
begin

text \<open>
  The part of Rust's \<open>str\<close> and integer formatting the source uses, on UTF-8 byte strings:
  trimming of Unicode white space, character counts, splitting, prefixes, substring search,
  \<open>i64\<close> parsing and printing.
\<close>

subsection \<open>Characters and white space\<close>

definition is_cont_byte :: "char \<Rightarrow> bool" where
  "is_cont_byte c \<longleftrightarrow> 128 \<le> (of_char c :: nat) \<and> (of_char c :: nat) < 192"

text \<open>\<open>s.chars().count()\<close>: the bytes that start a character.\<close>

definition chars_count :: "str \<Rightarrow> nat" where
  "chars_count s = length (filter (\<lambda>c. \<not> is_cont_byte c) s)"

definition is_ascii_digit :: "char \<Rightarrow> bool" where
  "is_ascii_digit c \<longleftrightarrow> 48 \<le> (of_char c :: nat) \<and> (of_char c :: nat) \<le> 57"

definition is_ascii_upper :: "char \<Rightarrow> bool" where
  "is_ascii_upper c \<longleftrightarrow> 65 \<le> (of_char c :: nat) \<and> (of_char c :: nat) \<le> 90"

definition is_ascii_lower :: "char \<Rightarrow> bool" where
  "is_ascii_lower c \<longleftrightarrow> 97 \<le> (of_char c :: nat) \<and> (of_char c :: nat) \<le> 122"

definition is_ascii_alnum :: "char \<Rightarrow> bool" where
  "is_ascii_alnum c \<longleftrightarrow> is_ascii_digit c \<or> is_ascii_upper c \<or> is_ascii_lower c"

definition ascii_lower_char :: "char \<Rightarrow> char" where
  "ascii_lower_char c = (if is_ascii_upper c then char_of ((of_char c :: nat) + 32) else c)"

definition to_ascii_lowercase :: "str \<Rightarrow> str" where
  "to_ascii_lowercase s = map ascii_lower_char s"

definition ascii_ws :: "char \<Rightarrow> bool" where
  "ascii_ws c \<longleftrightarrow> c = CHR '' '' \<or> (9 \<le> (of_char c :: nat) \<and> (of_char c :: nat) \<le> 13)"

text \<open>
  One leading white-space character (the Unicode property \<open>White_Space\<close> that \<open>str::trim\<close>
  uses), removed; \<open>None\<close> when the string does not start with one. The multi-byte cases are
  U+0085, U+00A0, U+1680, U+2000..U+200A, U+2028, U+2029, U+202F, U+205F and U+3000.
\<close>

fun strip_ws :: "str \<Rightarrow> str option" where
  "strip_ws (a # s) =
     (if ascii_ws a then Some s
      else if a = CHR 0xC2 then
        (case s of b # s' \<Rightarrow> if b = CHR 0x85 \<or> b = CHR 0xA0 then Some s' else None | [] \<Rightarrow> None)
      else if a = CHR 0xE1 then
        (case s of b # c # s' \<Rightarrow> if b = CHR 0x9A \<and> c = CHR 0x80 then Some s' else None | _ \<Rightarrow> None)
      else if a = CHR 0xE2 then
        (case s of b # c # s' \<Rightarrow>
           if b = CHR 0x80 \<and> ((128 \<le> (of_char c :: nat) \<and> (of_char c :: nat) \<le> 138)
                \<or> c = CHR 0xA8 \<or> c = CHR 0xA9 \<or> c = CHR 0xAF)
              \<or> b = CHR 0x81 \<and> c = CHR 0x9F then Some s' else None
         | _ \<Rightarrow> None)
      else if a = CHR 0xE3 then
        (case s of b # c # s' \<Rightarrow> if b = CHR 0x80 \<and> c = CHR 0x80 then Some s' else None | _ \<Rightarrow> None)
      else None)"
| "strip_ws [] = None"

lemma strip_ws_length: "strip_ws s = Some r \<Longrightarrow> length r < length s"
  by (cases s) (auto split: if_splits list.splits)

lemma strip_ws_append: "strip_ws s = Some r \<Longrightarrow> strip_ws (s @ t) = Some (r @ t)"
  by (cases s) (auto split: if_splits list.splits)

text \<open>The same at the end of the string, on the reversed bytes.\<close>

fun strip_ws_rev :: "str \<Rightarrow> str option" where
  "strip_ws_rev s =
     (case s of
        [] \<Rightarrow> None
      | a # s1 \<Rightarrow>
          (if strip_ws [a] = Some [] then Some s1
           else (case s1 of
               [] \<Rightarrow> None
             | b # s2 \<Rightarrow>
                 (if strip_ws [b, a] = Some [] then Some s2
                  else (case s2 of
                      [] \<Rightarrow> None
                    | c # s3 \<Rightarrow> (if strip_ws [c, b, a] = Some [] then Some s3 else None))))))"

lemma strip_ws_rev_length: "strip_ws_rev s = Some r \<Longrightarrow> length r < length s"
  by (auto split: if_splits list.splits)

lemma strip_ws_rev_suffix: "strip_ws_rev s = Some r \<Longrightarrow> suffix r s"
  by (auto simp: suffix_def split: if_splits list.splits)

declare strip_ws_rev.simps [simp del]

function trim_start :: "str \<Rightarrow> str" where
  "trim_start s = (case strip_ws s of Some r \<Rightarrow> trim_start r | None \<Rightarrow> s)"
  by pat_completeness auto
termination by (relation "measure length") (auto dest: strip_ws_length)

function trim_end_rev :: "str \<Rightarrow> str" where
  "trim_end_rev s = (case strip_ws_rev s of Some r \<Rightarrow> trim_end_rev r | None \<Rightarrow> s)"
  by pat_completeness auto
termination by (relation "measure length") (auto dest: strip_ws_rev_length)

declare trim_start.simps [simp del] trim_end_rev.simps [simp del]

text \<open>\<open>str::trim\<close>.\<close>

definition str_trim :: "str \<Rightarrow> str" where
  "str_trim s = rev (trim_end_rev (rev (trim_start s)))"

lemma trim_start_stable: "strip_ws (trim_start s) = None"
proof (induction s rule: trim_start.induct)
  case (1 s)
  then show ?case by (subst trim_start.simps) (auto split: option.splits)
qed

lemma trim_end_rev_stable: "strip_ws_rev (trim_end_rev s) = None"
proof (induction s rule: trim_end_rev.induct)
  case (1 s)
  then show ?case by (subst trim_end_rev.simps) (auto split: option.splits)
qed

lemma trim_start_id: "strip_ws s = None \<Longrightarrow> trim_start s = s"
  by (subst trim_start.simps) simp

lemma trim_end_rev_id: "strip_ws_rev s = None \<Longrightarrow> trim_end_rev s = s"
  by (subst trim_end_rev.simps) simp

lemma trim_end_rev_suffix: "suffix (trim_end_rev s) s"
proof (induction s rule: trim_end_rev.induct)
  case (1 s)
  show ?case
    by (subst trim_end_rev.simps)
      (auto split: option.splits dest: 1 strip_ws_rev_suffix suffix_order.trans)
qed

lemma strip_ws_prefix_None:
  assumes "strip_ws s = None" and "prefix p s"
  shows "strip_ws p = None"
proof (rule ccontr)
  assume "strip_ws p \<noteq> None"
  then obtain r where "strip_ws p = Some r" by blast
  moreover obtain t where "s = p @ t" using assms(2) by (auto simp: prefix_def)
  ultimately show False using assms(1) strip_ws_append by fastforce
qed

lemma str_trim_trim [simp]: "str_trim (str_trim s) = str_trim s"
proof -
  let ?t = "rev (trim_end_rev (rev (trim_start s)))"
  have "prefix ?t (trim_start s)"
    using trim_end_rev_suffix [of "rev (trim_start s)"] by (simp add: suffix_to_prefix)
  then have "trim_start ?t = ?t"
    using strip_ws_prefix_None trim_start_stable trim_start_id by blast
  then show ?thesis
    by (simp add: str_trim_def trim_end_rev_id trim_end_rev_stable)
qed

lemma trim_start_suffix: "suffix (trim_start s) s"
proof (induction s rule: trim_start.induct)
  case (1 s)
  have "suffix r s" if "strip_ws s = Some r" for r
    using that by (cases s) (auto simp: suffix_def split: if_splits list.splits)
  then show ?case
    by (subst trim_start.simps) (auto split: option.splits dest: 1 suffix_order.trans)
qed

lemma str_trim_set: "set (str_trim s) \<subseteq> set s"
  using set_mono_suffix [OF trim_end_rev_suffix [of "rev (trim_start s)"]]
    set_mono_suffix [OF trim_start_suffix [of s]]
  by (auto simp: str_trim_def)

lemma str_trim_Nil [simp]: "str_trim [] = []"
  by (simp add: str_trim_def trim_start.simps trim_end_rev.simps strip_ws_rev.simps)

text \<open>A string whose ends are not white space is its own trim.\<close>

lemma strip_ws_plain:
  "\<not> ascii_ws c \<Longrightarrow> (of_char c :: nat) < 128 \<Longrightarrow> strip_ws (c # s) = None"
  by auto

lemma strip_ws_rev_plain:
  assumes "\<not> ascii_ws c" and "(of_char c :: nat) < 128"
  shows "strip_ws_rev (c # s) = None"
proof -
  have "c \<noteq> CHR 0x85" "c \<noteq> CHR 0xA0" "c \<noteq> CHR 0x80" "c \<noteq> CHR 0xA8" "c \<noteq> CHR 0xA9"
    "c \<noteq> CHR 0xAF" "c \<noteq> CHR 0x9F" "\<not> 128 \<le> (of_char c :: nat)"
    using assms(2) by auto
  then show ?thesis
    using assms by (auto simp: strip_ws_rev.simps split: list.splits if_splits)
qed

subsection \<open>Prefixes, substrings, splitting, joining\<close>

fun strip_prefix :: "str \<Rightarrow> str \<Rightarrow> str option" where
  "strip_prefix [] s = Some s"
| "strip_prefix (a # p) (b # s) = (if a = b then strip_prefix p s else None)"
| "strip_prefix (a # p) [] = None"

lemma strip_prefix_append [simp]: "strip_prefix p (p @ s) = Some s"
  by (induction p) auto

lemma strip_prefix_Some_iff: "strip_prefix p s = Some r \<longleftrightarrow> s = p @ r"
  by (induction p s rule: strip_prefix.induct) auto

definition starts_with :: "str \<Rightarrow> str \<Rightarrow> bool" where
  "starts_with p s \<longleftrightarrow> strip_prefix p s \<noteq> None"

definition ends_with :: "str \<Rightarrow> str \<Rightarrow> bool" where
  "ends_with p s \<longleftrightarrow> starts_with (rev p) (rev s)"

lemma starts_with_iff: "starts_with p s \<longleftrightarrow> (\<exists>r. s = p @ r)"
  by (auto simp: starts_with_def strip_prefix_Some_iff)

text \<open>\<open>s.contains(needle)\<close>.\<close>

fun str_contains :: "str \<Rightarrow> str \<Rightarrow> bool" where
  "str_contains needle [] = (needle = [])"
| "str_contains needle (c # s) = (starts_with needle (c # s) \<or> str_contains needle s)"

lemma str_contains_iff: "str_contains needle s \<longleftrightarrow> (\<exists>a b. s = a @ needle @ b)"
proof (induction s)
  case (Cons c s)
  have "(\<exists>a b. c # s = a @ needle @ b) \<longleftrightarrow> (\<exists>b. c # s = needle @ b) \<or> (\<exists>a b. s = a @ needle @ b)"
    by (metis append_Cons append_Nil list.exhaust list.inject)
  then show ?case using Cons by (simp add: starts_with_iff)
qed simp

fun split_once :: "char \<Rightarrow> str \<Rightarrow> (str \<times> str) option" where
  "split_once c [] = None"
| "split_once c (x # s) =
     (if x = c then Some ([], s) else map_option (\<lambda>(a, b). (x # a, b)) (split_once c s))"

fun splitn :: "nat \<Rightarrow> char \<Rightarrow> str \<Rightarrow> str list" where
  "splitn 0 c s = []"
| "splitn (Suc 0) c s = [s]"
| "splitn (Suc (Suc n)) c s =
     (case split_once c s of None \<Rightarrow> [s] | Some (a, b) \<Rightarrow> a # splitn (Suc n) c b)"

fun split_on :: "char \<Rightarrow> str \<Rightarrow> str list" where
  "split_on c [] = [[]]"
| "split_on c (x # s) =
     (if x = c then [] # split_on c s
      else (case split_on c s of [] \<Rightarrow> [[x]] | p # ps \<Rightarrow> (x # p) # ps))"

fun str_join :: "str \<Rightarrow> str list \<Rightarrow> str" where
  "str_join sep [] = []"
| "str_join sep [x] = x"
| "str_join sep (x # y # xs) = x @ sep @ str_join sep (y # xs)"

definition trim_end_matches :: "char \<Rightarrow> str \<Rightarrow> str" where
  "trim_end_matches c s = rev (dropWhile (\<lambda>x. x = c) (rev s))"

definition replace_char :: "char \<Rightarrow> str \<Rightarrow> str \<Rightarrow> str" where
  "replace_char c by s = concat (map (\<lambda>x. if x = c then by else [x]) s)"

lemma split_once_append [simp]: "c \<notin> set a \<Longrightarrow> split_once c (a @ c # b) = Some (a, b)"
  by (induction a) auto

lemma split_once_None_iff: "split_once c s = None \<longleftrightarrow> c \<notin> set s"
  by (induction s) auto

lemma split_once_Some_iff: "split_once c s = Some (a, b) \<longleftrightarrow> s = a @ c # b \<and> c \<notin> set a"
proof (induction s arbitrary: a)
  case (Cons x s)
  then show ?case by (cases a) auto
qed simp

lemma split_on_ne_Nil [simp]: "split_on c s \<noteq> []"
  by (cases s) (auto split: list.splits)

lemma splitn_le: "length (splitn n c s) \<le> n"
  by (induction n c s rule: splitn.induct) (auto split: option.splits)

text \<open>Splitting a delimited text whose first fields are free of the delimiter gives the fields.\<close>

lemma splitn_fields [simp]: "c \<notin> set a \<Longrightarrow> splitn (Suc (Suc n)) c (a @ c # b) = a # splitn (Suc n) c b"
  by simp

lemma splitn_Cons_D:
  "splitn (Suc (Suc n)) c s = a # b # ps \<Longrightarrow>
     \<exists>r. s = a @ c # r \<and> c \<notin> set a \<and> splitn (Suc n) c r = b # ps"
  by (auto simp: split_once_Some_iff split: option.splits)

subsection \<open>Integers as text\<close>

definition digit_char :: "nat \<Rightarrow> char" where "digit_char d = char_of (48 + d)"
definition digit_val :: "char \<Rightarrow> nat" where "digit_val c = of_char c - 48"

fun show_nat :: "nat \<Rightarrow> str" where
  "show_nat n = (if n < 10 then [digit_char n] else show_nat (n div 10) @ [digit_char (n mod 10)])"

declare show_nat.simps [simp del]

definition show_int :: "int \<Rightarrow> str" where
  "show_int n = (if n < 0 then CHR ''-'' # show_nat (nat (- n)) else show_nat (nat n))"

definition digits_value :: "str \<Rightarrow> nat" where
  "digits_value s = foldl (\<lambda>a c. 10 * a + digit_val c) 0 s"

definition parse_nat :: "str \<Rightarrow> nat option" where
  "parse_nat s = (if s \<noteq> [] \<and> list_all is_ascii_digit s then Some (digits_value s) else None)"

definition parse_sign :: "str \<Rightarrow> bool \<times> str" where
  "parse_sign s = (case s of c # r \<Rightarrow> if c = CHR ''-'' then (True, r)
                     else if c = CHR ''+'' then (False, r) else (False, s) | [] \<Rightarrow> (False, s))"

text \<open>\<open>s.parse::<i64>()\<close>, \<open>s.parse::<u64>()\<close> and \<open>s.parse::<usize>()\<close> (64-bit).\<close>

definition parse_i64 :: "str \<Rightarrow> int option" where
  "parse_i64 s = (case parse_sign s of (neg, ds) \<Rightarrow>
     (case parse_nat ds of
        None \<Rightarrow> None
      | Some n \<Rightarrow> (let v = (if neg then - int n else int n) in if in_i64 v then Some v else None)))"

definition parse_u64 :: "str \<Rightarrow> nat option" where
  "parse_u64 s = (let ds = (case s of c # r \<Rightarrow> if c = CHR ''+'' then r else s | [] \<Rightarrow> s) in
     (case parse_nat ds of None \<Rightarrow> None | Some n \<Rightarrow> if n < 2 ^ 64 then Some n else None))"

lemma of_char_digit_char [simp]: "d < 10 \<Longrightarrow> (of_char (digit_char d) :: nat) = 48 + d"
  by (simp add: digit_char_def)

lemma digit_val_char [simp]: "d < 10 \<Longrightarrow> digit_val (digit_char d) = d"
  by (simp add: digit_val_def)

lemma digit_char_is_digit [simp]: "d < 10 \<Longrightarrow> is_ascii_digit (digit_char d)"
  by (simp add: is_ascii_digit_def)

lemma show_nat_ne_Nil [simp]: "show_nat n \<noteq> []"
  by (subst show_nat.simps) simp

lemma show_nat_digits: "list_all is_ascii_digit (show_nat n)"
proof (induction n rule: show_nat.induct)
  case (1 n)
  then show ?case by (subst show_nat.simps) auto
qed

lemma digits_value_show_nat [simp]: "digits_value (show_nat n) = n"
proof (induction n rule: show_nat.induct)
  case (1 n)
  then show ?case
    by (subst show_nat.simps) (auto simp: digits_value_def)
qed

lemma parse_nat_show_nat [simp]: "parse_nat (show_nat n) = Some n"
  by (simp add: parse_nat_def show_nat_digits)

lemma not_digit_signs [simp]:
  "\<not> is_ascii_digit CHR ''-''" "\<not> is_ascii_digit CHR ''+''" "\<not> is_ascii_digit CHR '':''"
  "\<not> is_ascii_digit CHR ''.''" "\<not> is_ascii_digit CHR ''e''" "\<not> is_ascii_digit CHR ''E''"
  by (simp_all add: is_ascii_digit_def)

lemma parse_sign_show_nat [simp]: "parse_sign (show_nat n) = (False, show_nat n)"
proof (cases "show_nat n")
  case (Cons c r)
  then have "is_ascii_digit c" using show_nat_digits [of n] by simp
  then have "c \<noteq> CHR ''-''" "c \<noteq> CHR ''+''" by auto
  then show ?thesis using Cons by (simp add: parse_sign_def)
qed simp

lemma parse_i64_show_int [simp]: "in_i64 n \<Longrightarrow> parse_i64 (show_int n) = Some n"
  by (simp add: parse_i64_def show_int_def parse_sign_def [of "CHR ''-'' # _"] in_i64_def)

lemma show_nat_notin: "\<not> is_ascii_digit c \<Longrightarrow> c \<notin> set (show_nat n)"
  using show_nat_digits [of n] by (auto simp: list_all_iff)

lemma show_int_no_colon [simp]: "CHR '':'' \<notin> set (show_int n)"
  by (simp add: show_int_def show_nat_notin)

lemma parse_i64_in: "parse_i64 s = Some n \<Longrightarrow> in_i64 n"
  by (auto simp: parse_i64_def Let_def split: prod.splits option.splits if_splits)

text \<open>Printed integers carry no white space at the ends.\<close>

lemma digit_not_ws: "is_ascii_digit c \<Longrightarrow> \<not> ascii_ws c \<and> (of_char c :: nat) < 128"
  by (auto simp: is_ascii_digit_def ascii_ws_def)

lemma str_trim_plain:
  assumes "s \<noteq> []"
    and "\<not> ascii_ws (hd s)" "(of_char (hd s) :: nat) < 128"
    and "\<not> ascii_ws (last s)" "(of_char (last s) :: nat) < 128"
  shows "str_trim s = s"
proof -
  have "strip_ws s = None"
    using assms strip_ws_plain by (cases s) (auto simp del: strip_ws.simps)
  moreover have "strip_ws_rev (rev s) = None"
    using assms strip_ws_rev_plain by (cases "rev s") (auto simp: last_rev hd_rev)
  ultimately show ?thesis
    by (simp add: str_trim_def trim_start_id trim_end_rev_id)
qed

lemma str_trim_show_nat [simp]: "str_trim (show_nat n) = show_nat n"
  using show_nat_digits [of n] digit_not_ws
  by (intro str_trim_plain) (auto simp: list_all_iff)

lemma str_trim_show_int [simp]: "str_trim (show_int n) = show_int n"
proof (cases "n < 0")
  case True
  have "is_ascii_digit (last (show_nat (nat (- n))))"
    using show_nat_digits [of "nat (- n)"] by (simp add: list_all_iff)
  then show ?thesis
    using True digit_not_ws
    by (intro str_trim_plain) (auto simp: show_int_def ascii_ws_def)
qed (simp add: show_int_def)

end
