(* ===== verification/RustF64.thy ===== *)
theory RustF64
  imports RustStr Complex_Main
begin

text \<open>
  Rust's \<open>f64\<close> as the source uses it: comparison, parsing (round to nearest, ties to even),
  the shortest decimal text of \<open>Display\<close>, the integrality test, the saturating cast to \<open>i64\<close>,
  and subtraction. A finite value is the exact rational it stands for; negative zero is kept
  apart because its text differs.
\<close>

datatype f64 = F64NaN | F64Inf bool | F64NegZero | F64Fin rat

subsection \<open>Rounding\<close>

definition pow_rat :: "nat \<Rightarrow> int \<Rightarrow> rat" where
  "pow_rat b k = (if 0 \<le> k then of_nat (b ^ nat k) else 1 / of_nat (b ^ nat (- k)))"

fun bit_len :: "nat \<Rightarrow> nat" where
  "bit_len n = (if n = 0 then 0 else Suc (bit_len (n div 2)))"

declare bit_len.simps [simp del]

text \<open>The exponent \<open>e\<close> with \<open>2 ^ e \<le> r < 2 ^ (e + 1)\<close>, for positive \<open>r\<close>.\<close>

definition rat_log2 :: "rat \<Rightarrow> int" where
  "rat_log2 r = (case quotient_of r of (p, q) \<Rightarrow>
     (let k = int (bit_len (nat p)) - int (bit_len (nat q)) in
      if pow_rat 2 k \<le> r then k else k - 1))"

definition round_half_even :: "rat \<Rightarrow> int" where
  "round_half_even r =
     (let f = \<lfloor>r\<rfloor>; d = r - of_int f in
      if d < 1 / 2 then f else if d > 1 / 2 then f + 1 else if even f then f else f + 1)"

definition round_mag :: "rat \<Rightarrow> rat" where
  "round_mag a = (let q = max (rat_log2 a - 52) (- 1074) in
     of_int (round_half_even (a / pow_rat 2 q)) * pow_rat 2 q)"

definition round64 :: "rat \<Rightarrow> f64" where
  "round64 r =
     (if r = 0 then F64Fin 0
      else (let v = round_mag \<bar>r\<bar> in
        if pow_rat 2 1024 \<le> v then F64Inf (r < 0)
        else if v = 0 then (if r < 0 then F64NegZero else F64Fin 0)
        else F64Fin (if r < 0 then - v else v)))"

subsection \<open>Comparison, casts, subtraction\<close>

fun f64_lt :: "f64 \<Rightarrow> f64 \<Rightarrow> bool" where
  "f64_lt F64NaN _ = False"
| "f64_lt _ F64NaN = False"
| "f64_lt (F64Inf True) y = (y \<noteq> F64Inf True)"
| "f64_lt (F64Inf False) _ = False"
| "f64_lt _ (F64Inf neg) = (\<not> neg)"
| "f64_lt F64NegZero F64NegZero = False"
| "f64_lt F64NegZero (F64Fin y) = (0 < y)"
| "f64_lt (F64Fin x) F64NegZero = (x < 0)"
| "f64_lt (F64Fin x) (F64Fin y) = (x < y)"

definition f64_is_nan :: "f64 \<Rightarrow> bool" where "f64_is_nan x \<longleftrightarrow> x = F64NaN"
definition f64_gt :: "f64 \<Rightarrow> f64 \<Rightarrow> bool" where "f64_gt x y = f64_lt y x"

text \<open>\<open>x <= y\<close> is false when either side is NaN, so it is not the negation of \<open>y < x\<close>.\<close>

definition f64_le :: "f64 \<Rightarrow> f64 \<Rightarrow> bool" where
  "f64_le x y \<longleftrightarrow> \<not> f64_is_nan x \<and> \<not> f64_is_nan y \<and> \<not> f64_lt y x"

definition f64_ge :: "f64 \<Rightarrow> f64 \<Rightarrow> bool" where "f64_ge x y = f64_le y x"

definition f64_is_finite :: "f64 \<Rightarrow> bool" where
  "f64_is_finite x = (case x of F64Fin _ \<Rightarrow> True | F64NegZero \<Rightarrow> True | _ \<Rightarrow> False)"

text \<open>\<open>n.fract() == 0.0\<close>; the fraction of a NaN or an infinity is NaN.\<close>

definition f64_fract_is_zero :: "f64 \<Rightarrow> bool" where
  "f64_fract_is_zero x = (case x of F64Fin r \<Rightarrow> of_int \<lfloor>r\<rfloor> = r | F64NegZero \<Rightarrow> True | _ \<Rightarrow> False)"

text \<open>\<open>n as i64\<close>: truncation towards zero, saturating, NaN to 0.\<close>

definition trunc_rat :: "rat \<Rightarrow> int" where
  "trunc_rat r = (if 0 \<le> r then \<lfloor>r\<rfloor> else - \<lfloor>- r\<rfloor>)"

definition f64_as_i64 :: "f64 \<Rightarrow> int" where
  "f64_as_i64 x = (case x of
       F64NaN \<Rightarrow> 0
     | F64Inf neg \<Rightarrow> if neg then i64_min else i64_max
     | F64NegZero \<Rightarrow> 0
     | F64Fin r \<Rightarrow> max i64_min (min i64_max (trunc_rat r)))"

definition f64_neg :: "f64 \<Rightarrow> f64" where
  "f64_neg x = (case x of F64NaN \<Rightarrow> F64NaN | F64Inf neg \<Rightarrow> F64Inf (\<not> neg)
     | F64NegZero \<Rightarrow> F64Fin 0 | F64Fin r \<Rightarrow> if r = 0 then F64NegZero else F64Fin (- r))"

fun f64_sub :: "f64 \<Rightarrow> f64 \<Rightarrow> f64" where
  "f64_sub F64NaN _ = F64NaN"
| "f64_sub _ F64NaN = F64NaN"
| "f64_sub (F64Inf a) (F64Inf b) = (if a = b then F64NaN else F64Inf a)"
| "f64_sub (F64Inf a) _ = F64Inf a"
| "f64_sub _ (F64Inf b) = F64Inf (\<not> b)"
| "f64_sub F64NegZero F64NegZero = F64Fin 0"
| "f64_sub F64NegZero (F64Fin y) = f64_neg (F64Fin y)"
| "f64_sub (F64Fin x) F64NegZero = F64Fin x"
| "f64_sub (F64Fin x) (F64Fin y) = round64 (x - y)"

definition f64_abs :: "f64 \<Rightarrow> f64" where
  "f64_abs x = (case x of F64NaN \<Rightarrow> F64NaN | F64Inf _ \<Rightarrow> F64Inf False
     | F64NegZero \<Rightarrow> F64Fin 0 | F64Fin r \<Rightarrow> F64Fin \<bar>r\<bar>)"

subsection \<open>Text to number\<close>

definition f64_from_dec :: "bool \<Rightarrow> nat \<Rightarrow> int \<Rightarrow> f64" where
  "f64_from_dec neg m e =
     (if m = 0 then (if neg then F64NegZero else F64Fin 0)
      else round64 ((if neg then - 1 else 1) * of_nat m * pow_rat 10 e))"

text \<open>The optional exponent part, \<open>[eE][+-]?[0-9]+\<close>, up to the end of the text.\<close>

definition parse_exp10 :: "str \<Rightarrow> int option" where
  "parse_exp10 s = (case s of
       [] \<Rightarrow> Some 0
     | c # r \<Rightarrow>
         if c = CHR ''e'' \<or> c = CHR ''E'' then
           (case parse_sign r of (neg, ds) \<Rightarrow>
              map_option (\<lambda>n. if neg then - int n else int n) (parse_nat ds))
         else None)"

definition parse_decimal :: "bool \<Rightarrow> str \<Rightarrow> f64 option" where
  "parse_decimal neg s =
     (let ip = takeWhile is_ascii_digit s; r1 = dropWhile is_ascii_digit s;
          fp = (case r1 of c # r \<Rightarrow> if c = CHR ''.'' then takeWhile is_ascii_digit r else [] | [] \<Rightarrow> []);
          r2 = (case r1 of c # r \<Rightarrow> if c = CHR ''.'' then dropWhile is_ascii_digit r else r1 | [] \<Rightarrow> [])
      in if ip = [] \<and> fp = [] then None
         else map_option (\<lambda>e. f64_from_dec neg (digits_value (ip @ fp)) (e - int (length fp)))
                (parse_exp10 r2))"

text \<open>\<open>s.parse::<f64>()\<close>: a decimal number, or \<open>inf\<close>, \<open>infinity\<close>, \<open>nan\<close> in any case.\<close>

definition parse_f64 :: "str \<Rightarrow> f64 option" where
  "parse_f64 s = (case parse_sign s of (neg, body) \<Rightarrow>
     (case parse_decimal neg body of
        Some x \<Rightarrow> Some x
      | None \<Rightarrow> (let l = to_ascii_lowercase body in
          if l = ''inf'' \<or> l = ''infinity'' then Some (F64Inf neg)
          else if l = ''nan'' then Some F64NaN else None)))"

definition f64_of_int :: "int \<Rightarrow> f64" where
  "f64_of_int n = round64 (of_int n)"

subsection \<open>Number to text\<close>

definition dec_candidate :: "int \<Rightarrow> rat \<Rightarrow> nat option" where
  "dec_candidate k r =
     (let x = r / pow_rat 10 k; lo = nat \<lfloor>x\<rfloor>;
          ok = (\<lambda>d. round64 (of_nat d * pow_rat 10 k) = F64Fin r)
      in if ok lo \<and> (\<not> ok (Suc lo) \<or> x - of_nat lo < 1 / 2) then Some lo
         else if ok (Suc lo) then Some (Suc lo) else None)"

text \<open>
  The shortest digits that read back as \<open>r\<close>: the exponent \<open>k\<close> of the last digit falls until
  some candidate reads back. At \<open>k = - 1074\<close> every \<open>f64\<close> is an integer multiple of \<open>10 ^ k\<close>,
  so the search ends there at the latest.
\<close>

fun shortest_dec :: "nat \<Rightarrow> int \<Rightarrow> rat \<Rightarrow> nat \<times> int" where
  "shortest_dec 0 k r = (nat \<lfloor>r / pow_rat 10 k\<rfloor>, k)"
| "shortest_dec (Suc n) k r =
     (case dec_candidate k r of Some d \<Rightarrow> (d, k) | None \<Rightarrow> shortest_dec n (k - 1) r)"

fun dec_top :: "nat \<Rightarrow> int \<Rightarrow> rat \<Rightarrow> int" where
  "dec_top 0 k r = k"
| "dec_top (Suc n) k r = (if r < pow_rat 10 k then dec_top n (k - 1) r else k)"

text \<open>Fixed notation, as \<open>Display\<close> prints it (never with an exponent).\<close>

definition dec_text :: "nat \<Rightarrow> int \<Rightarrow> str" where
  "dec_text d k =
     (let s = show_nat d in
      if 0 \<le> k then s @ replicate (nat k) (CHR ''0'')
      else (let f = nat (- k) in
        if f < length s then take (length s - f) s @ ''.'' @ drop (length s - f) s
        else ''0.'' @ replicate (f - length s) (CHR ''0'') @ s))"

definition f64_display :: "f64 \<Rightarrow> str" where
  "f64_display x = (case x of
       F64NaN \<Rightarrow> ''NaN''
     | F64Inf neg \<Rightarrow> if neg then ''-inf'' else ''inf''
     | F64NegZero \<Rightarrow> ''-0''
     | F64Fin r \<Rightarrow>
         if r = 0 then ''0''
         else (let a = \<bar>r\<bar>; top = dec_top 1400 310 a + 1;
                   dk = shortest_dec (nat (top + 1074)) top a;
                   t = dec_text (fst dk) (snd dk)
               in if r < 0 then CHR ''-'' # t else t))"

end
