(* ===== verification/Json.thy ===== *)
theory Json
  imports RustF64
begin

text \<open>
  \<open>serde_json::Value\<close>: numbers keep serde's three representations, an object is the key-sorted
  association list of its \<open>BTreeMap\<close>. The accessors are the ones the source calls. The record
  \<open>crates\<close> collects the third-party functions the model takes as parameters.
\<close>

datatype jnum = PosInt nat | NegInt int | JFloat f64

datatype json =
    JNull
  | JBool bool
  | JNum jnum
  | JStr str
  | JArr "json list"
  | JObj "(str \<times> json) list"

text \<open>
  Third-party functions: \<open>ryu\<close> prints a JSON float; \<open>regex\<close> compiles a pattern under the size
  limits and gives its matcher, \<open>None\<close> when it does not compile; \<open>rfc3339\<close> and \<open>ymd\<close> are
  chrono's parsers (nanoseconds since the epoch; the date at midnight UTC); \<open>lowercase\<close> is the
  Unicode table behind \<open>str::to_lowercase\<close>; \<open>json_text\<close> is serde's serialiser.
\<close>

record crates =
  ryu :: "f64 \<Rightarrow> str"
  regex :: "str \<Rightarrow> (str \<Rightarrow> bool) option"
  rfc3339 :: "str \<Rightarrow> int option"
  ymd :: "str \<Rightarrow> int option"
  lowercase :: "str \<Rightarrow> str"
  json_text :: "json \<Rightarrow> str"

subsection \<open>Accessors\<close>

definition as_str :: "json \<Rightarrow> str option" where
  "as_str v = (case v of JStr s \<Rightarrow> Some s | _ \<Rightarrow> None)"

definition as_array :: "json \<Rightarrow> json list option" where
  "as_array v = (case v of JArr a \<Rightarrow> Some a | _ \<Rightarrow> None)"

definition as_object :: "json \<Rightarrow> (str \<times> json) list option" where
  "as_object v = (case v of JObj m \<Rightarrow> Some m | _ \<Rightarrow> None)"

definition as_bool :: "json \<Rightarrow> bool option" where
  "as_bool v = (case v of JBool b \<Rightarrow> Some b | _ \<Rightarrow> None)"

text \<open>\<open>v.get(key)\<close>: the member of an object, nothing for any other value.\<close>

definition jget :: "json \<Rightarrow> str \<Rightarrow> json option" where
  "jget v k = (case v of JObj m \<Rightarrow> map_of m k | _ \<Rightarrow> None)"

text \<open>\<open>v["key"]\<close>: as \<open>get\<close>, with null for a missing member.\<close>

definition jindex :: "json \<Rightarrow> str \<Rightarrow> json" where
  "jindex v k = unwrap_or (jget v k) JNull"

fun num_as_f64 :: "jnum \<Rightarrow> f64" where
  "num_as_f64 (PosInt n) = f64_of_int (int n)"
| "num_as_f64 (NegInt n) = f64_of_int n"
| "num_as_f64 (JFloat x) = x"

fun num_as_i64 :: "jnum \<Rightarrow> int option" where
  "num_as_i64 (PosInt n) = (if int n \<le> i64_max then Some (int n) else None)"
| "num_as_i64 (NegInt n) = Some n"
| "num_as_i64 (JFloat x) = None"

fun num_as_u64 :: "jnum \<Rightarrow> nat option" where
  "num_as_u64 (PosInt n) = Some n"
| "num_as_u64 _ = None"

definition as_i64 :: "json \<Rightarrow> int option" where
  "as_i64 v = (case v of JNum n \<Rightarrow> num_as_i64 n | _ \<Rightarrow> None)"

definition as_u64 :: "json \<Rightarrow> nat option" where
  "as_u64 v = (case v of JNum n \<Rightarrow> num_as_u64 n | _ \<Rightarrow> None)"

fun num_to_string :: "crates \<Rightarrow> jnum \<Rightarrow> str" where
  "num_to_string E (PosInt n) = show_nat n"
| "num_to_string E (NegInt n) = show_int n"
| "num_to_string E (JFloat x) = ryu E x"

definition bool_to_string :: "bool \<Rightarrow> str" where
  "bool_to_string b = (if b then ''true'' else ''false'')"

text \<open>\<open>Value::from(n: i64)\<close>.\<close>

definition json_of_i64 :: "int \<Rightarrow> json" where
  "json_of_i64 n = JNum (if n < 0 then NegInt n else PosInt (nat n))"

lemmas json_access_defs = as_str_def as_array_def as_object_def as_bool_def jget_def

lemma as_str_simps [simp]:
  "as_str (JStr s) = Some s" "as_str JNull = None" "as_str (JBool b) = None"
  "as_str (JNum n) = None" "as_str (JArr a) = None" "as_str (JObj m) = None"
  by (simp_all add: as_str_def)

lemma as_array_simps [simp]:
  "as_array (JArr a) = Some a" "as_array JNull = None" "as_array (JBool b) = None"
  "as_array (JNum n) = None" "as_array (JStr s) = None" "as_array (JObj m) = None"
  by (simp_all add: as_array_def)

lemma as_object_simps [simp]:
  "as_object (JObj m) = Some m" "as_object JNull = None" "as_object (JBool b) = None"
  "as_object (JNum n) = None" "as_object (JStr s) = None" "as_object (JArr a) = None"
  by (simp_all add: as_object_def)

lemma as_str_Some_iff: "as_str v = Some s \<longleftrightarrow> v = JStr s"
  by (cases v) auto

lemma as_array_Some_iff: "as_array v = Some a \<longleftrightarrow> v = JArr a"
  by (cases v) auto

lemma as_object_Some_iff: "as_object v = Some m \<longleftrightarrow> v = JObj m"
  by (cases v) auto

lemma jget_JObj [simp]: "jget (JObj m) k = map_of m k"
  by (simp add: jget_def)

text \<open>The string members of an array, as \<open>arr.iter().filter_map(|v| v.as_str())\<close>.\<close>

definition str_items :: "json list \<Rightarrow> str list" where
  "str_items a = List.map_filter as_str a"

lemma str_items_simps [simp]:
  "str_items [] = []"
  "str_items (JStr s # a) = s # str_items a"
  "str_items (JNull # a) = str_items a"
  "str_items (JNum n # a) = str_items a"
  "str_items (JBool b # a) = str_items a"
  "str_items (JArr x # a) = str_items a"
  "str_items (JObj m # a) = str_items a"
  by (simp_all add: str_items_def List.map_filter_simps)

lemma str_items_map_JStr [simp]: "str_items (map JStr xs) = xs"
  by (induction xs) auto

lemma set_str_items: "s \<in> set (str_items a) \<longleftrightarrow> JStr s \<in> set a"
  by (auto simp: str_items_def filter_map_iff as_str_Some_iff)

text \<open>A concrete instance of the parameters, for examples.\<close>

definition sample_crates :: crates where
  "sample_crates = \<lparr>ryu = (\<lambda>_. ''0.5''), regex = (\<lambda>p. Some (str_contains p)), rfc3339 = (\<lambda>_. None),
     ymd = (\<lambda>s. if s = ''2024-01-01'' then Some 1704067200000000000 else None),
     lowercase = to_ascii_lowercase, json_text = (\<lambda>_. ''null'')\<rparr>"

end
