(* ===== verification/Serde.thy ===== *)
theory Serde
  imports Json
begin

text \<open>
  The serde derives over a JSON value. A struct is read from an object, or from an array in
  declaration order; a member with a default may be absent, an \<open>Option\<close> member is absent or null
  for \<open>None\<close>, and anything else of the wrong type is an error. Unknown members are ignored. A unit
  variant is its name, an internally tagged one carries its tag as a member or as the first element.
\<close>

subsection \<open>Structs\<close>

text \<open>The members a struct with these field names is read from.\<close>

definition struct_members :: "str list \<Rightarrow> json \<Rightarrow> (str \<times> json) list option" where
  "struct_members names v = (case v of
       JObj m \<Rightarrow> Some m
     | JArr a \<Rightarrow> if length a \<le> length names then Some (zip names a) else None
     | _ \<Rightarrow> None)"

text \<open>A required member, a member with a default, and an optional one.\<close>

definition need :: "(json \<Rightarrow> 'a option) \<Rightarrow> (str \<times> json) list \<Rightarrow> str \<Rightarrow> 'a option" where
  "need rd m k = (case map_of m k of None \<Rightarrow> None | Some v \<Rightarrow> rd v)"

definition dflt :: "'a \<Rightarrow> (json \<Rightarrow> 'a option) \<Rightarrow> (str \<times> json) list \<Rightarrow> str \<Rightarrow> 'a option" where
  "dflt d rd m k = (case map_of m k of None \<Rightarrow> Some d | Some v \<Rightarrow> rd v)"

definition opt :: "(json \<Rightarrow> 'a option) \<Rightarrow> (str \<times> json) list \<Rightarrow> str \<Rightarrow> 'a option option" where
  "opt rd m k = (case map_of m k of
       None \<Rightarrow> Some None
     | Some v \<Rightarrow> if v = JNull then Some None else map_option Some (rd v))"

fun read_all :: "(json \<Rightarrow> 'a option) \<Rightarrow> json list \<Rightarrow> 'a list option" where
  "read_all rd [] = Some []"
| "read_all rd (v # vs) =
     (case rd v of None \<Rightarrow> None | Some x \<Rightarrow> map_option ((#) x) (read_all rd vs))"

definition read_vec :: "(json \<Rightarrow> 'a option) \<Rightarrow> json \<Rightarrow> 'a list option" where
  "read_vec rd v = (case v of JArr a \<Rightarrow> read_all rd a | _ \<Rightarrow> None)"

definition read_i32 :: "json \<Rightarrow> int option" where
  "read_i32 v = (case as_i64 v of Some n \<Rightarrow> if in_i32 n then Some n else None | None \<Rightarrow> None)"

definition read_f64 :: "json \<Rightarrow> f64 option" where
  "read_f64 v = (case v of JNum n \<Rightarrow> Some (num_as_f64 n) | _ \<Rightarrow> None)"

subsection \<open>Enums\<close>

text \<open>The name of a unit variant: a string, or an object with the name as its only key and null.\<close>

definition variant_name :: "json \<Rightarrow> str option" where
  "variant_name v = (case v of
       JStr k \<Rightarrow> Some k
     | JObj [(k, x)] \<Rightarrow> if x = JNull then Some k else None
     | _ \<Rightarrow> None)"

text \<open>The tag of an internally tagged variant with what is left for its members, and the members of a
  unit variant: there are none to read.\<close>

definition tagged_variant :: "str \<Rightarrow> json \<Rightarrow> (str \<times> json) option" where
  "tagged_variant tag v = (case v of
       JObj m \<Rightarrow> map_option (\<lambda>k. (k, v)) (need as_str m tag)
     | JArr (t # a) \<Rightarrow> map_option (\<lambda>k. (k, JArr a)) (as_str t)
     | _ \<Rightarrow> None)"

definition unit_members :: "json \<Rightarrow> unit option" where
  "unit_members v = (if v = JArr [] \<or> as_object v \<noteq> None then Some () else None)"

subsection \<open>Laws\<close>

lemma struct_members_JObj [simp]: "struct_members names (JObj m) = Some m"
  by (simp add: struct_members_def)

lemma variant_name_JStr [simp]: "variant_name (JStr k) = Some k"
  by (simp add: variant_name_def)

lemma tagged_variant_JObj [simp]: "tagged_variant tag (JObj m) = map_option (\<lambda>k. (k, JObj m)) (need as_str m tag)"
  by (simp add: tagged_variant_def)

lemma need_Some_iff: "need rd m k = Some x \<longleftrightarrow> (\<exists>v. map_of m k = Some v \<and> rd v = Some x)"
  by (auto simp: need_def split: option.split)

lemma read_vec_Some_iff: "read_vec rd v = Some xs \<longleftrightarrow> (\<exists>a. v = JArr a \<and> read_all rd a = Some xs)"
  by (cases v) (simp_all add: read_vec_def)

lemma unit_members_JObj [simp]: "unit_members (JObj m) = Some ()"
  by (simp add: unit_members_def)

lemma read_all_map [simp]: "(\<And>x. x \<in> set xs \<Longrightarrow> rd (wr x) = Some x) \<Longrightarrow> read_all rd (map wr xs) = Some xs"
  by (induction xs) auto

end
