(* ===== verification/Models.thy ===== *)
theory Models
  imports Serde
begin

text \<open>
  \<open>models/form.rs\<close> and \<open>models/condition.rs\<close>: the typed view of a form definition and of the
  conditions of a role link, with the enumerations' key tables. A stored role link keeps its
  conditions as JSON; \<open>condition_to_json\<close> and \<open>condition_from_json\<close> are the serde derive's
  encoding and decoding of a condition.
\<close>

subsection \<open>Condition operators\<close>

datatype condition_operator =
    OpEq | OpNeq | OpContains | OpRegex | OpIn | OpContainsAll | OpContainsAny | OpNotContains
  | OpGt | OpGte | OpLt | OpLte | OpBetween | OpBefore | OpAfter

text \<open>All of them, in the order of the source, for the library's finite quantifiers.\<close>

definition all_operators :: "condition_operator list" where
  "all_operators =
     [OpEq, OpNeq, OpContains, OpRegex, OpIn, OpContainsAll, OpContainsAny, OpNotContains, OpGt,
      OpGte, OpLt, OpLte, OpBetween, OpBefore, OpAfter]"

lemma all_operators_UNIV: "set all_operators = UNIV"
proof (rule UNIV_eq_I [symmetric])
  fix x :: condition_operator
  show "x \<in> set all_operators" by (cases x) (simp_all add: all_operators_def)
qed

instantiation condition_operator :: enum
begin

definition enum_condition_operator :: "condition_operator list" where
  "enum_condition_operator = all_operators"

definition enum_all_condition_operator :: "(condition_operator \<Rightarrow> bool) \<Rightarrow> bool" where
  "enum_all_condition_operator P \<longleftrightarrow> list_all P all_operators"

definition enum_ex_condition_operator :: "(condition_operator \<Rightarrow> bool) \<Rightarrow> bool" where
  "enum_ex_condition_operator P \<longleftrightarrow> list_ex P all_operators"

instance
proof
  show "(UNIV :: condition_operator set) = set enum_class.enum" by (simp add: enum_condition_operator_def all_operators_UNIV)
  show "distinct (enum_class.enum :: condition_operator list)" by (simp add: enum_condition_operator_def all_operators_def)
  show "enum_class.enum_all P \<longleftrightarrow> Ball UNIV P" for P :: "condition_operator \<Rightarrow> bool"
    by (simp add: enum_all_condition_operator_def list_all_iff all_operators_UNIV)
  show "enum_class.enum_ex P \<longleftrightarrow> Bex UNIV P" for P :: "condition_operator \<Rightarrow> bool"
    by (simp add: enum_ex_condition_operator_def list_ex_iff all_operators_UNIV)
qed

end

fun operator_as_str :: "condition_operator \<Rightarrow> str" where
  "operator_as_str OpEq = ''eq''"
| "operator_as_str OpNeq = ''neq''"
| "operator_as_str OpContains = ''contains''"
| "operator_as_str OpRegex = ''regex''"
| "operator_as_str OpIn = ''in''"
| "operator_as_str OpContainsAll = ''contains_all''"
| "operator_as_str OpContainsAny = ''contains_any''"
| "operator_as_str OpNotContains = ''not_contains''"
| "operator_as_str OpGt = ''gt''"
| "operator_as_str OpGte = ''gte''"
| "operator_as_str OpLt = ''lt''"
| "operator_as_str OpLte = ''lte''"
| "operator_as_str OpBetween = ''between''"
| "operator_as_str OpBefore = ''before''"
| "operator_as_str OpAfter = ''after''"

definition operator_from_key :: "str \<Rightarrow> condition_operator option" where
  "operator_from_key k =
     (if k = ''eq'' then Some OpEq
      else if k = ''neq'' then Some OpNeq
      else if k = ''contains'' then Some OpContains
      else if k = ''regex'' then Some OpRegex
      else if k = ''in'' then Some OpIn
      else if k = ''contains_all'' then Some OpContainsAll
      else if k = ''contains_any'' then Some OpContainsAny
      else if k = ''not_contains'' then Some OpNotContains
      else if k = ''gt'' then Some OpGt
      else if k = ''gte'' then Some OpGte
      else if k = ''lt'' then Some OpLt
      else if k = ''lte'' then Some OpLte
      else if k = ''between'' then Some OpBetween
      else if k = ''before'' then Some OpBefore
      else if k = ''after'' then Some OpAfter
      else None)"

lemma operator_from_key_as_str [simp]: "operator_from_key (operator_as_str op) = Some op"
  by (cases op) (simp_all add: operator_from_key_def)

lemma operator_from_key_Some: "operator_from_key k = Some op \<Longrightarrow> k = operator_as_str op"
  by (auto simp: operator_from_key_def split: if_splits)

datatype condition_target = TQuestion str | TQuizTotalScore

record condition =
  c_target :: condition_target
  c_operator :: condition_operator
  c_value :: json
  c_value_end :: "json option"

subsection \<open>Conditions as stored JSON\<close>

text \<open>
  The derived encoding: the target carries its tag \<open>kind\<close>, and \<open>value_end\<close> is left out when
  absent. Object keys stand in key order.
\<close>

definition target_to_json :: "condition_target \<Rightarrow> json" where
  "target_to_json t = (case t of
       TQuestion q \<Rightarrow> JObj [(''kind'', JStr ''question''), (''question_id'', JStr q)]
     | TQuizTotalScore \<Rightarrow> JObj [(''kind'', JStr ''quiz_total_score'')])"

definition condition_to_json :: "condition \<Rightarrow> json" where
  "condition_to_json c = JObj
     ([(''operator'', JStr (operator_as_str (c_operator c))), (''target'', target_to_json (c_target c)),
       (''value'', c_value c)]
      @ (case c_value_end c of None \<Rightarrow> [] | Some v \<Rightarrow> [(''value_end'', v)]))"

definition target_from_json :: "json \<Rightarrow> condition_target option" where
  "target_from_json v =
     Option.bind (tagged_variant ''kind'' v) (\<lambda>(k, rest).
     if k = ''question'' then
       Option.bind (struct_members [''question_id''] rest) (\<lambda>m. map_option TQuestion (need as_str m ''question_id''))
     else if k = ''quiz_total_score'' then map_option (\<lambda>_. TQuizTotalScore) (unit_members rest)
     else None)"

text \<open>An absent or null \<open>value_end\<close> reads as \<open>None\<close>; \<open>value\<close> has no default.\<close>

definition condition_from_json :: "json \<Rightarrow> condition option" where
  "condition_from_json v =
     Option.bind (struct_members [''target'', ''operator'', ''value'', ''value_end''] v) (\<lambda>m.
     Option.bind (need target_from_json m ''target'') (\<lambda>tg.
     Option.bind (need (\<lambda>x. Option.bind (variant_name x) operator_from_key) m ''operator'') (\<lambda>o'.
     Option.bind (need Some m ''value'') (\<lambda>x.
     Option.bind (opt Some m ''value_end'') (\<lambda>y.
     Some \<lparr>c_target = tg, c_operator = o', c_value = x, c_value_end = y\<rparr>)))))"

lemma target_from_to_json [simp]: "target_from_json (target_to_json t) = Some t"
  by (cases t) (simp_all add: target_from_json_def target_to_json_def need_def)

lemma condition_from_to_json:
  "c_value_end c \<noteq> Some JNull \<Longrightarrow> condition_from_json (condition_to_json c) = Some c"
  by (cases c) (auto simp: condition_from_json_def condition_to_json_def need_def opt_def split: option.splits)

subsection \<open>Forms\<close>

datatype question_kind =
    ShortText | LongText | QNumber | SingleChoice | MultiChoice | Dropdown | Scale | QDate
  | Email | Agreement | Info | Image | Video

fun kind_as_str :: "question_kind \<Rightarrow> str" where
  "kind_as_str ShortText = ''short_text''"
| "kind_as_str LongText = ''long_text''"
| "kind_as_str QNumber = ''number''"
| "kind_as_str SingleChoice = ''single_choice''"
| "kind_as_str MultiChoice = ''multi_choice''"
| "kind_as_str Dropdown = ''dropdown''"
| "kind_as_str Scale = ''scale''"
| "kind_as_str QDate = ''date''"
| "kind_as_str Email = ''email''"
| "kind_as_str Agreement = ''agreement''"
| "kind_as_str Info = ''info''"
| "kind_as_str Image = ''image''"
| "kind_as_str Video = ''video''"

definition is_answerable :: "question_kind \<Rightarrow> bool" where
  "is_answerable k \<longleftrightarrow> \<not> (k = Info \<or> k = Image \<or> k = Video)"

definition is_conditionable :: "question_kind \<Rightarrow> bool" where
  "is_conditionable k = is_answerable k"

definition is_array_valued :: "question_kind \<Rightarrow> bool" where
  "is_array_valued k \<longleftrightarrow> k = MultiChoice"

record question_option =
  o_id :: str
  o_label :: str

record question =
  q_id :: str
  q_kind :: question_kind
  q_title :: str
  q_description :: str
  q_required :: bool
  q_max_length :: "int option"
  q_min :: "f64 option"
  q_max :: "f64 option"
  q_options :: "question_option list option"
  q_correct :: "json option"
  q_points :: "int option"
  q_placeholder :: "str option"
  q_help_text :: "str option"
  q_image_url :: "str option"
  q_alt_text :: "str option"

record page =
  p_id :: str
  p_title :: str
  p_description :: str
  p_questions :: "question list"

record form_settings =
  fs_submit_label :: str
  fs_show_progress_bar :: bool
  fs_shuffle_questions :: bool

definition default_form_settings :: form_settings where
  "default_form_settings =
     \<lparr>fs_submit_label = ''Submit'', fs_show_progress_bar = True, fs_shuffle_questions = False\<rparr>"

record form_schema =
  s_title :: str
  s_description :: str
  s_settings :: form_settings
  s_pages :: "page list"

text \<open>All answerable questions in declaration order.\<close>

definition iter_questions :: "form_schema \<Rightarrow> question list" where
  "iter_questions s = filter (\<lambda>q. is_answerable (q_kind q)) (concat (map p_questions (s_pages s)))"

definition find_question :: "form_schema \<Rightarrow> str \<Rightarrow> question option" where
  "find_question s qid = find (\<lambda>q. q_id q = qid) (iter_questions s)"

lemma iter_questions_answerable: "q \<in> set (iter_questions s) \<Longrightarrow> is_answerable (q_kind q)"
  by (simp add: iter_questions_def)

lemma find_question_Some:
  "find_question s qid = Some q \<Longrightarrow> q \<in> set (iter_questions s) \<and> q_id q = qid"
  by (auto simp: find_question_def find_Some_iff in_set_conv_nth)

lemma find_question_None:
  "find_question s qid = None \<longleftrightarrow> qid \<notin> q_id ` set (iter_questions s)"
  by (auto simp: find_question_def find_None_iff)

end
