(* ===== verification/AppErr.thy ===== *)
theory AppErr
  imports Models
begin

text \<open>
  \<open>error.rs\<close>: the application error, its text, and the HTTP response it becomes. A database
  error is either one the server reports (SQLSTATE code and constraint) or any other driver
  error. Status codes are their numbers; a response keeps its status, the extra headers and the
  JSON body. The members of a JSON body stand in key order.
\<close>

record field_error =
  fe_question_id :: str
  fe_message :: str

datatype db_error =
    DbReported "str option" "str option" str  \<comment> \<open>code, constraint, message\<close>
  | DbDriver str

datatype app_error =
    EDatabase db_error
  | ERoleLogic str
  | ERoleLinkNotFound
  | ERoleLinkDisabled
  | ERemovalHeld
  | EUserLimitReached nat
  | EBadRequest str
  | EUnauthorized
  | EUnauthorizedWith str
  | EForbidden str
  | ENotFound str
  | EFormNotFound str
  | EFormClosed
  | ESubmissionRateLimited
  | EValidationFailed "field_error list"
  | EDuplicateSubmission
  | EAttemptsExhausted int
  | ERetryCooldown int
  | EAlreadyPassed
  | EStaleVersion
  | EInternal str

type_synonym 'a app_result = "(app_error, 'a) result"

definition db_error_text :: "db_error \<Rightarrow> str" where
  "db_error_text e = (case e of DbReported _ _ m \<Rightarrow> m | DbDriver m \<Rightarrow> m)"

text \<open>The \<open>Display\<close> texts of the error attributes.\<close>

fun app_error_text :: "app_error \<Rightarrow> str" where
  "app_error_text (EDatabase e) = ''Database error: '' @ db_error_text e"
| "app_error_text (ERoleLogic m) = ''RoleLogic API error: '' @ m"
| "app_error_text ERoleLinkNotFound = ''Role link not found on RoleLogic''"
| "app_error_text ERoleLinkDisabled = ''Role link is disabled or paused on RoleLogic''"
| "app_error_text ERemovalHeld =
     ''Role link removals are held for owner confirmation on RoleLogic''"
| "app_error_text (EUserLimitReached l) = ''Role link user limit reached ('' @ show_nat l @ '')''"
| "app_error_text (EBadRequest m) = ''Invalid request: '' @ m"
| "app_error_text EUnauthorized = ''Unauthorized''"
| "app_error_text (EUnauthorizedWith m) = ''Unauthorized: '' @ m"
| "app_error_text (EForbidden m) = ''Forbidden: '' @ m"
| "app_error_text (ENotFound m) = ''Not found: '' @ m"
| "app_error_text (EFormNotFound m) = ''Form not found: '' @ m"
| "app_error_text EFormClosed = ''Form is not currently accepting submissions''"
| "app_error_text ESubmissionRateLimited = ''Submission rate limited''"
| "app_error_text (EValidationFailed _) = ''Validation failed''"
| "app_error_text EDuplicateSubmission = ''Duplicate submission''"
| "app_error_text (EAttemptsExhausted _) = ''No attempts remaining''"
| "app_error_text (ERetryCooldown _) = ''Retry cooldown active''"
| "app_error_text EAlreadyPassed = ''Already passed; no further attempts''"
| "app_error_text EStaleVersion = ''Form was edited; reload and try again''"
| "app_error_text (EInternal m) = ''Internal error: '' @ m"

record response =
  r_status :: nat
  r_headers :: "(str \<times> str) list"
  r_body :: json

definition json_response :: "nat \<Rightarrow> (str \<times> json) list \<Rightarrow> response" where
  "json_response st ms = \<lparr>r_status = st, r_headers = [], r_body = JObj ms\<rparr>"

definition error_response :: "nat \<Rightarrow> str \<Rightarrow> response" where
  "error_response st m = json_response st [(''error'', JStr m)]"

text \<open>\<open>classify_db_error\<close>: constraint violations are the client's, everything else is a 500.\<close>

definition classify_db_error :: "db_error \<Rightarrow> response" where
  "classify_db_error e =
     (case e of
        DbReported code con _ \<Rightarrow>
          (let cs = unwrap_or code []; con' = unwrap_or con [] in
           if cs = ''23505'' then
             json_response 409 [(''code'', JStr ''UNIQUE_VIOLATION''), (''constraint'', JStr con'),
               (''error'', JStr ''A record with that value already exists.'')]
           else if cs = ''23503'' then
             json_response 409 [(''code'', JStr ''FOREIGN_KEY_VIOLATION''), (''constraint'', JStr con'),
               (''error'', JStr ''Operation would violate a referential constraint.'')]
           else if cs = ''23514'' then
             json_response 400 [(''code'', JStr ''CHECK_VIOLATION''), (''constraint'', JStr con'),
               (''error'', JStr ''One or more fields failed a database check.'')]
           else if cs = ''23502'' then
             json_response 400 [(''code'', JStr ''NOT_NULL_VIOLATION''),
               (''error'', JStr ''A required field was missing.'')]
           else error_response 500 ''Internal server error'')
      | DbDriver _ \<Rightarrow> error_response 500 ''Internal server error'')"

definition field_error_json :: "field_error \<Rightarrow> json" where
  "field_error_json f =
     JObj [(''message'', JStr (fe_message f)), (''question_id'', JStr (fe_question_id f))]"

definition em_dash :: str where "em_dash = [CHR 0xE2, CHR 0x80, CHR 0x94]"

text \<open>\<open>IntoResponse for AppError\<close>.\<close>

fun into_response :: "app_error \<Rightarrow> response" where
  "into_response (EDatabase e) = classify_db_error e"
| "into_response (ERoleLogic _) = error_response 502 ''Failed to sync roles''"
| "into_response ERoleLinkNotFound = error_response 404 ''Role link not found''"
| "into_response ERoleLinkDisabled = error_response 403 ''Role link is disabled''"
| "into_response ERemovalHeld = error_response 409
     ''Removals are waiting for confirmation in the RoleLogic dashboard''"
| "into_response (EUserLimitReached _) = error_response 403 ''Role link user limit reached''"
| "into_response (EBadRequest m) = error_response 400 m"
| "into_response EUnauthorized = error_response 401 ''Invalid or missing authorization''"
| "into_response (EUnauthorizedWith m) = error_response 401 m"
| "into_response (EForbidden m) = error_response 403 m"
| "into_response (ENotFound m) = error_response 404 m"
| "into_response (EFormNotFound s) = error_response 404 (''Form not found: '' @ s)"
| "into_response EFormClosed =
     error_response 403 ''This form is not currently accepting submissions.''"
| "into_response ESubmissionRateLimited =
     error_response 429 ''Too many submissions. Please slow down.''"
| "into_response (EValidationFailed fs) =
     json_response 422 [(''error'', JStr ''Validation failed''),
       (''field_errors'', JArr (map field_error_json fs))]"
| "into_response EDuplicateSubmission =
     json_response 409 [(''code'', JStr ''DUPLICATE_SUBMISSION''),
       (''error'', JStr ''You've already submitted this form.'')]"
| "into_response (EAttemptsExhausted mx) =
     json_response 409 [(''code'', JStr ''ATTEMPTS_EXHAUSTED''),
       (''error'', JStr (''You've used all '' @ show_int mx @ '' of your attempts for this form.'')),
       (''max_attempts'', json_of_i64 mx)]"
| "into_response (ERetryCooldown n) =
     \<lparr>r_status = 429, r_headers = [(''retry-after'', show_int n)],
      r_body = JObj [(''code'', JStr ''RETRY_COOLDOWN''),
        (''error'', JStr ''Please wait before trying again.''),
        (''retry_after_seconds'', json_of_i64 n)]\<rparr>"
| "into_response EAlreadyPassed =
     json_response 409 [(''code'', JStr ''ALREADY_PASSED''),
       (''error'', JStr (''You've already passed '' @ em_dash @ '' no further attempts are needed.''))]"
| "into_response EStaleVersion =
     json_response 409 [(''code'', JStr ''STALE_VERSION''),
       (''error'', JStr ''The form was edited while you were filling it out. Please reload.'')]"
| "into_response (EInternal _) = error_response 500 ''Internal server error''"

lemmas response_defs = error_response_def json_response_def

lemma classify_db_error_status: "r_status (classify_db_error e) \<in> {400, 409, 500}"
  by (cases e) (auto simp: classify_db_error_def response_defs Let_def)

lemma into_response_status: "400 \<le> r_status (into_response e) \<and> r_status (into_response e) < 600"
proof (cases e)
  case (EDatabase d)
  then show ?thesis using classify_db_error_status [of d] by auto
qed (auto simp: response_defs)

text \<open>The body of a 5xx answer is one of two fixed texts, whatever the error carried.\<close>

lemma into_response_500_body:
  assumes "500 \<le> r_status (into_response e)"
  shows "r_body (into_response e) =
    JObj [(''error'', JStr (if r_status (into_response e) = 502 then ''Failed to sync roles''
                             else ''Internal server error''))]"
proof (cases e)
  case (EDatabase d)
  then show ?thesis using assms
    by (cases d) (auto simp: classify_db_error_def response_defs Let_def)
qed (use assms in \<open>auto simp: response_defs\<close>)

subsection \<open>Properties\<close>

text \<open>Every error becomes a response with a status between 400 and 599, and the body of a
  server error is one of two fixed texts: no database message, upstream text or internal detail
  reaches the client.\<close>

lemma server_errors_do_not_leak:
  "400 \<le> r_status (into_response e) \<and> r_status (into_response e) < 600
   \<and> (500 \<le> r_status (into_response e) \<longrightarrow>
       r_body (into_response e) \<in> {JObj [(''error'', JStr ''Failed to sync roles'')],
                                    JObj [(''error'', JStr ''Internal server error'')]})"
  using into_response_status [of e] into_response_500_body [of e] by auto

end
