(* ===== verification/ConditionEval.thy ===== *)
theory ConditionEval
  imports Models
begin

text \<open>
  \<open>services/condition_eval.rs\<close>: the one authority on whether a response qualifies for a role
  link. \<open>evaluate\<close> is the conjunction of the conditions with the two overrides of its header;
  \<open>evaluate_single\<close> works on the projection \<open>selections\<close> of an answer.
\<close>

record response_eval_data =
  red_answers :: json
  red_total_score :: "int option"

subsection \<open>Projections of an answer\<close>

definition string_value :: "crates \<Rightarrow> json \<Rightarrow> str option" where
  "string_value E v = (case v of
       JStr s \<Rightarrow> Some s
     | JNum n \<Rightarrow> Some (num_to_string E n)
     | JBool b \<Rightarrow> Some (bool_to_string b)
     | _ \<Rightarrow> None)"

definition selections :: "crates \<Rightarrow> json \<Rightarrow> str list" where
  "selections E v = (case v of
       JArr arr \<Rightarrow> str_items arr
     | other \<Rightarrow> (case string_value E other of None \<Rightarrow> [] | Some s \<Rightarrow> [s]))"

definition eq_matches :: "crates \<Rightarrow> json \<Rightarrow> json \<Rightarrow> bool option" where
  "eq_matches E actual expected =
     (case string_value E expected of
        None \<Rightarrow> None
      | Some ex \<Rightarrow> Some (case selections E actual of [only] \<Rightarrow> only = ex | _ \<Rightarrow> False))"

definition numeric_value :: "json \<Rightarrow> f64 option" where
  "numeric_value v = (case v of
       JNum n \<Rightarrow> Some (num_as_f64 n)
     | JStr s \<Rightarrow> parse_f64 s
     | _ \<Rightarrow> None)"

definition parse_datetime_str :: "crates \<Rightarrow> str \<Rightarrow> int option" where
  "parse_datetime_str E s = (case rfc3339 E s of Some t \<Rightarrow> Some t | None \<Rightarrow> ymd E s)"

definition parse_datetime :: "crates \<Rightarrow> json \<Rightarrow> int option" where
  "parse_datetime E v = (case as_str v of None \<Rightarrow> None | Some s \<Rightarrow> parse_datetime_str E s)"

subsection \<open>One condition\<close>

definition actual_value :: "condition_target \<Rightarrow> response_eval_data \<Rightarrow> json" where
  "actual_value t d = (case t of
       TQuestion q \<Rightarrow> unwrap_or (jget (red_answers d) q) JNull
     | TQuizTotalScore \<Rightarrow> (case red_total_score d of Some n \<Rightarrow> json_of_i64 n | None \<Rightarrow> JNull))"

definition list_any :: "crates \<Rightarrow> json \<Rightarrow> json list \<Rightarrow> bool" where
  "list_any E actual arr = list_ex (\<lambda>need. need \<in> set (selections E actual)) (str_items arr)"

definition numeric_matches :: "condition_operator \<Rightarrow> f64 \<Rightarrow> f64 \<Rightarrow> json option \<Rightarrow> bool" where
  "numeric_matches op a ex vend = (case op of
       OpGt \<Rightarrow> f64_gt a ex
     | OpGte \<Rightarrow> f64_ge a ex
     | OpLt \<Rightarrow> f64_lt a ex
     | OpLte \<Rightarrow> f64_le a ex
     | _ \<Rightarrow> (let end_n = unwrap_or (case vend of None \<Rightarrow> None | Some v \<Rightarrow> numeric_value v) ex
             in f64_ge a ex \<and> f64_le a end_n))"

definition evaluate_single :: "crates \<Rightarrow> condition \<Rightarrow> response_eval_data \<Rightarrow> bool" where
  "evaluate_single E c d =
     (let actual = actual_value (c_target c) d; op = c_operator c; value = c_value c in
      if actual = JNull \<and> \<not> (op = OpNeq \<or> op = OpNotContains) then False
      else (case op of
         OpEq \<Rightarrow> unwrap_or (eq_matches E actual value) False
       | OpNeq \<Rightarrow>
           (if actual = JNull then unwrap_or (as_str value) [] \<noteq> []
            else (case eq_matches E actual value of Some m \<Rightarrow> \<not> m | None \<Rightarrow> False))
       | OpContains \<Rightarrow>
           (case string_value E value of
              None \<Rightarrow> False
            | Some needle \<Rightarrow> list_ex (str_contains needle) (selections E actual))
       | OpRegex \<Rightarrow>
           (case as_str value of
              None \<Rightarrow> False
            | Some pattern \<Rightarrow>
                (case regex E pattern of None \<Rightarrow> False
                 | Some is_match \<Rightarrow> list_ex is_match (selections E actual)))
       | OpIn \<Rightarrow>
           (case selections E actual of
              [only] \<Rightarrow> (case as_array value of None \<Rightarrow> False | Some arr \<Rightarrow> only \<in> set (str_items arr))
            | _ \<Rightarrow> False)
       | OpContainsAll \<Rightarrow>
           (case as_array value of None \<Rightarrow> False
            | Some arr \<Rightarrow> list_all (\<lambda>need. need \<in> set (selections E actual)) (str_items arr))
       | OpContainsAny \<Rightarrow>
           (case as_array value of None \<Rightarrow> False | Some arr \<Rightarrow> list_any E actual arr)
       | OpNotContains \<Rightarrow>
           (case as_array value of None \<Rightarrow> True | Some arr \<Rightarrow> \<not> list_any E actual arr)
       | OpBefore \<Rightarrow>
           (case (parse_datetime E actual, as_str value) of
              (Some a, Some s) \<Rightarrow> (case parse_datetime_str E s of Some x \<Rightarrow> a < x | None \<Rightarrow> False)
            | _ \<Rightarrow> False)
       | OpAfter \<Rightarrow>
           (case (parse_datetime E actual, as_str value) of
              (Some a, Some s) \<Rightarrow> (case parse_datetime_str E s of Some x \<Rightarrow> a > x | None \<Rightarrow> False)
            | _ \<Rightarrow> False)
       | _ \<Rightarrow>
           (case (numeric_value actual, numeric_value value) of
              (Some a, Some x) \<Rightarrow> numeric_matches op a x (c_value_end c)
            | _ \<Rightarrow> False)))"

subsection \<open>A role link's eligibility\<close>

definition evaluate :: "crates \<Rightarrow> bool \<Rightarrow> condition list \<Rightarrow> response_eval_data \<Rightarrow> bool" where
  "evaluate E grant_any conds d =
     (if grant_any then True
      else if conds = [] then False
      else list_all (\<lambda>c. evaluate_single E c d) conds)"

lemma evaluate_grant_any [simp]: "evaluate E True conds d"
  by (simp add: evaluate_def)

lemma evaluate_no_conditions [simp]: "\<not> evaluate E False [] d"
  by (simp add: evaluate_def)

lemma evaluate_all:
  "evaluate E False conds d \<longleftrightarrow> conds \<noteq> [] \<and> (\<forall>c \<in> set conds. evaluate_single E c d)"
  by (auto simp: evaluate_def list_all_iff)

text \<open>More conditions grant to fewer, down to the last one: the rule list is antitone.\<close>

lemma evaluate_antitone:
  "evaluate E False conds d \<Longrightarrow> conds' \<noteq> [] \<Longrightarrow> set conds' \<subseteq> set conds \<Longrightarrow> evaluate E False conds' d"
  by (auto simp: evaluate_all)

subsection \<open>Facts about the operators\<close>

lemma selections_simps [simp]:
  "selections E JNull = []"
  "selections E (JStr s) = [s]"
  "selections E (JArr a) = str_items a"
  "selections E (JObj m) = []"
  "selections E (JNum n) = [num_to_string E n]"
  "selections E (JBool b) = [bool_to_string b]"
  by (simp_all add: selections_def string_value_def)

lemma string_value_None_iff:
  "string_value E v = None \<longleftrightarrow> v = JNull \<or> (\<exists>a. v = JArr a) \<or> (\<exists>m. v = JObj m)"
  by (cases v) (auto simp: string_value_def)

lemma eq_matches_None_iff: "eq_matches E a x = None \<longleftrightarrow> string_value E x = None"
  by (auto simp: eq_matches_def split: option.splits)

lemma eq_matches_Some_iff:
  "eq_matches E a x = Some m \<longleftrightarrow>
     (\<exists>s. string_value E x = Some s \<and> m = (selections E a = [s]))"
  by (cases "selections E a" rule: remdups_adj.cases)
    (auto simp: eq_matches_def split: option.splits list.splits)

lemma evaluate_single_unanswered:
  assumes "actual_value (c_target c) d = JNull"
  shows "evaluate_single E c d \<longleftrightarrow>
    (c_operator c = OpNeq \<and> unwrap_or (as_str (c_value c)) [] \<noteq> []) \<or>
    c_operator c = OpNotContains"
  using assms
  by (auto simp: evaluate_single_def Let_def list_any_def list_ex_iff
      split: condition_operator.splits option.splits)

lemma numeric_value_i64: "numeric_value (json_of_i64 n) = Some (f64_of_int n)"
  by (simp add: numeric_value_def json_of_i64_def)

lemma numeric_value_JNull [simp]: "numeric_value JNull = None"
  by (simp add: numeric_value_def)

lemma evaluate_numeric:
  assumes "c_operator c \<in> {OpGt, OpGte, OpLt, OpLte, OpBetween}"
  shows "evaluate_single E c d \<longleftrightarrow>
    (case (numeric_value (actual_value (c_target c) d), numeric_value (c_value c)) of
       (Some a, Some x) \<Rightarrow> numeric_matches (c_operator c) a x (c_value_end c) | _ \<Rightarrow> False)"
proof (cases "actual_value (c_target c) d = JNull")
  case False
  then show ?thesis using assms
    by (elim insertE emptyE) (simp_all add: evaluate_single_def Let_def split: option.split)
next
  case True
  then show ?thesis using assms
    by (elim insertE emptyE) (simp_all add: evaluate_single_def Let_def)
qed

lemma f64_lt_NaN [simp]: "\<not> f64_lt F64NaN y" "\<not> f64_lt x F64NaN"
  by (cases x; simp)+

subsection \<open>Properties\<close>

text \<open>\<open>eq\<close> and \<open>neq\<close> are exact complements on an answered question whose expected value
  has a text; an incomparable expected value fails both, and an unanswered question satisfies
  \<open>neq\<close> exactly for a non-empty expected text.\<close>

lemma eq_neq_complement:
  "(evaluate_single E (c\<lparr>c_operator := OpEq\<rparr>) d \<longleftrightarrow>
      actual_value (c_target c) d \<noteq> JNull
      \<and> (case string_value E (c_value c) of None \<Rightarrow> False
         | Some s \<Rightarrow> selections E (actual_value (c_target c) d) = [s]))
   \<and> (evaluate_single E (c\<lparr>c_operator := OpNeq\<rparr>) d \<longleftrightarrow>
      (if actual_value (c_target c) d = JNull then unwrap_or (as_str (c_value c)) [] \<noteq> []
       else string_value E (c_value c) \<noteq> None \<and> \<not> evaluate_single E (c\<lparr>c_operator := OpEq\<rparr>) d))"
proof -
  have eq: "eq_matches E a x = map_option (\<lambda>s. selections E a = [s]) (string_value E x)" for a x
    by (cases "string_value E x"; cases "selections E a" rule: remdups_adj.cases)
      (auto simp: eq_matches_def)
  show ?thesis
    by (cases "actual_value (c_target c) d = JNull"; cases "string_value E (c_value c)")
      (simp_all add: evaluate_single_def Let_def eq)
qed

text \<open>\<open>not_contains\<close> is the exact complement of \<open>contains_any\<close>, on every answer, the
  missing one and the ill-typed ones included.\<close>

lemma not_contains_complement:
  "evaluate_single E (c\<lparr>c_operator := OpNotContains\<rparr>) d \<longleftrightarrow>
     \<not> evaluate_single E (c\<lparr>c_operator := OpContainsAny\<rparr>) d"
  by (cases "actual_value (c_target c) d = JNull")
    (auto simp: evaluate_single_def Let_def list_any_def list_ex_iff split: option.splits)

text \<open>The numeric operators on a numeric answer that is not NaN form a trichotomy, and
  \<open>between\<close> is the conjunction of \<open>gte\<close> its value and \<open>lte\<close> its end; a NaN answer (the validator
  lets one through) matches none of them.\<close>

lemma numeric_conditions_trichotomy:
  assumes "numeric_value (actual_value (c_target c) d) = Some a" and "numeric_value (c_value c) = Some x"
    and "x \<noteq> F64NaN" and "c_value_end c = Some w" and "numeric_value w = Some y"
  shows "(evaluate_single E (c\<lparr>c_operator := OpGt\<rparr>) d \<longleftrightarrow>
      a \<noteq> F64NaN \<and> \<not> evaluate_single E (c\<lparr>c_operator := OpLte\<rparr>) d)
    \<and> (evaluate_single E (c\<lparr>c_operator := OpLt\<rparr>) d \<longleftrightarrow>
      a \<noteq> F64NaN \<and> \<not> evaluate_single E (c\<lparr>c_operator := OpGte\<rparr>) d)
    \<and> (evaluate_single E (c\<lparr>c_operator := OpBetween\<rparr>) d \<longleftrightarrow>
      evaluate_single E (c\<lparr>c_operator := OpGte\<rparr>) d
      \<and> evaluate_single E (c\<lparr>c_operator := OpLte, c_value := w\<rparr>) d)"
  using assms
  by (auto simp: evaluate_numeric numeric_matches_def f64_gt_def f64_ge_def f64_le_def f64_is_nan_def)

definition sample_threshold :: condition where
  "sample_threshold = \<lparr>c_target = TQuizTotalScore, c_operator = OpEq, c_value = JNum (PosInt 0),
     c_value_end = Some (JNum (PosInt 0))\<rparr>"

end
