(* ===== verification/FormValidator.thy ===== *)
theory FormValidator
  imports AppErr ConditionEval
begin

text \<open>
  \<open>services/form_validator.rs\<close>: the submit-time validator that normalises an answer payload,
  the quiz grader, and the two save-time checks of a form definition. Rust's \<open>HashSet\<close>s are
  used for membership and equality only, so they are lists of the inserted elements here.
\<close>

definition MAX_QUESTIONS :: nat where "MAX_QUESTIONS = 50"
definition MAX_PAGES :: nat where "MAX_PAGES = 10"
definition MAX_OPTIONS_PER_QUESTION :: nat where "MAX_OPTIONS_PER_QUESTION = 50"
definition DEFAULT_MAX_TEXT_LEN :: nat where "DEFAULT_MAX_TEXT_LEN = 100"
definition DEFAULT_MAX_LONG_TEXT_LEN :: nat where "DEFAULT_MAX_LONG_TEXT_LEN = 4000"
definition MAX_QUESTION_POINTS :: int where "MAX_QUESTION_POINTS = 1000000"

type_synonym answer_result = "(str, json option) result"

subsection \<open>The per-kind validators\<close>

definition is_blank :: "json option \<Rightarrow> bool" where
  "is_blank v = (case v of
       None \<Rightarrow> True
     | Some JNull \<Rightarrow> True
     | Some (JStr s) \<Rightarrow> str_trim s = []
     | Some (JArr a) \<Rightarrow> a = []
     | _ \<Rightarrow> False)"

definition require :: "question \<Rightarrow> answer_result" where
  "require q = (if q_required q then Inl ''This question is required.'' else Inr None)"

text \<open>\<open>raw.and_then(|v| v.as_str())\<close>.\<close>

definition raw_str :: "json option \<Rightarrow> str option" where
  "raw_str raw = (case raw of None \<Rightarrow> None | Some v \<Rightarrow> as_str v)"

text \<open>\<open>n as usize\<close> wraps a negative limit to a huge one.\<close>

definition text_limit :: "question \<Rightarrow> nat" where
  "text_limit q = (case q_max_length q of
       Some n \<Rightarrow> nat (n mod 2 ^ 64)
     | None \<Rightarrow> if q_kind q = LongText then DEFAULT_MAX_LONG_TEXT_LEN else DEFAULT_MAX_TEXT_LEN)"

definition validate_text :: "question \<Rightarrow> json option \<Rightarrow> answer_result" where
  "validate_text q raw =
     (if is_blank raw then require q
      else try_bind (ok_or (raw_str raw) ''Answer must be text.'') (\<lambda>s0.
        let s = str_trim s0; max_len = text_limit q in
        if chars_count s > max_len
        then Inl (''Answer is too long (max '' @ show_nat max_len @ '' characters).'')
        else Inr (Some (JStr s))))"

definition raw_number :: "json option \<Rightarrow> f64 option" where
  "raw_number raw = (case raw of
       Some (JNum n) \<Rightarrow> Some (num_as_f64 n)
     | Some (JStr s) \<Rightarrow> parse_f64 (str_trim s)
     | _ \<Rightarrow> None)"

definition below_min :: "question \<Rightarrow> f64 \<Rightarrow> bool" where
  "below_min q n = (case q_min q of Some mn \<Rightarrow> f64_lt n mn | None \<Rightarrow> False)"

definition above_max :: "question \<Rightarrow> f64 \<Rightarrow> bool" where
  "above_max q n = (case q_max q of Some mx \<Rightarrow> f64_gt n mx | None \<Rightarrow> False)"

text \<open>The stored text of an accepted number.\<close>

definition number_text :: "f64 \<Rightarrow> str" where
  "number_text n = (if f64_fract_is_zero n \<and> f64_is_finite n then show_int (f64_as_i64 n)
                    else f64_display n)"

definition bound_text :: "f64 option \<Rightarrow> str" where
  "bound_text b = (case b of Some x \<Rightarrow> f64_display x | None \<Rightarrow> [])"

definition validate_number :: "question \<Rightarrow> json option \<Rightarrow> answer_result" where
  "validate_number q raw =
     (if is_blank raw then require q
      else try_bind (ok_or (raw_number raw) ''Answer must be a number.'') (\<lambda>n.
        if below_min q n then Inl (''Answer must be at least '' @ bound_text (q_min q) @ ''.'')
        else if above_max q n then Inl (''Answer must be at most '' @ bound_text (q_max q) @ ''.'')
        else Inr (Some (JStr (number_text n)))))"

definition validate_single_choice :: "question \<Rightarrow> json option \<Rightarrow> answer_result" where
  "validate_single_choice q raw =
     (if is_blank raw then require q
      else try_bind (ok_or (raw_str raw) ''Answer must be a single option id.'') (\<lambda>s.
        try_bind (ok_or (q_options q) ''Question is misconfigured (no options).'') (\<lambda>options.
          if \<not> list_ex (\<lambda>o'. o_id o' = s) options
          then Inl ''Selected option is not valid for this question.''
          else Inr (Some (JStr s)))))"

fun choose_options :: "question_option list \<Rightarrow> json list \<Rightarrow> (str, json list) result" where
  "choose_options options [] = Inr []"
| "choose_options options (v # vs) =
     try_bind (ok_or (as_str v) ''Each selection must be an option id string.'') (\<lambda>s.
       if \<not> list_ex (\<lambda>o'. o_id o' = s) options
       then Inl (''Option \"'' @ s @ ''\" is not valid for this question.'')
       else try_bind (choose_options options vs) (\<lambda>rest. Inr (JStr s # rest)))"

definition validate_multi_choice :: "question \<Rightarrow> json option \<Rightarrow> answer_result" where
  "validate_multi_choice q raw =
     (if is_blank raw then require q
      else try_bind (ok_or (case raw of None \<Rightarrow> None | Some v \<Rightarrow> as_array v)
                       ''Answer must be a list of option ids.'') (\<lambda>arr.
        try_bind (ok_or (q_options q) ''Question is misconfigured (no options).'') (\<lambda>options.
          try_bind (choose_options options arr) (\<lambda>chosen. Inr (Some (JArr chosen))))))"

definition validate_date :: "crates \<Rightarrow> question \<Rightarrow> json option \<Rightarrow> answer_result" where
  "validate_date E q raw =
     (if is_blank raw then require q
      else try_bind (ok_or (raw_str raw) ''Answer must be a date string.'') (\<lambda>s0.
        let s = str_trim s0 in
        if ymd E s = None \<and> rfc3339 E s = None then Inl ''Date must be in YYYY-MM-DD format.''
        else Inr (Some (JStr s))))"

definition looks_like_email :: "str \<Rightarrow> bool" where
  "looks_like_email s =
     (case split_on (CHR ''@'') s of
        [local, domain] \<Rightarrow>
          (if local = [] \<or> length domain < 3 then False
           else list_ex (\<lambda>c. c = CHR ''.'') domain \<and>
             list_all (\<lambda>c. is_ascii_alnum c \<or> c = CHR ''.'' \<or> c = CHR ''-'') domain)
      | _ \<Rightarrow> False)"

definition validate_email :: "question \<Rightarrow> json option \<Rightarrow> answer_result" where
  "validate_email q raw =
     (if is_blank raw then require q
      else try_bind (ok_or (raw_str raw) ''Email must be text.'') (\<lambda>s0.
        let s = str_trim s0 in
        if \<not> looks_like_email s then Inl ''That doesn't look like a valid email address.''
        else if length s > 320 then Inl ''Email is too long.''
        else Inr (Some (JStr s))))"

definition is_truthy :: "json option \<Rightarrow> bool" where
  "is_truthy raw = (case raw of
       Some (JBool b) \<Rightarrow> b
     | Some (JStr s) \<Rightarrow> s = ''true'' \<or> s = ''yes'' \<or> s = ''on'' \<or> s = ''1''
     | Some (JNum n) \<Rightarrow> (case num_as_i64 n of Some i \<Rightarrow> i \<noteq> 0 | None \<Rightarrow> False)
     | _ \<Rightarrow> False)"

definition validate_agreement :: "question \<Rightarrow> json option \<Rightarrow> answer_result" where
  "validate_agreement q raw =
     (if \<not> is_truthy raw then
        (if q_required q then Inl ''You must agree to continue.'' else Inr None)
      else Inr (Some (JStr ''true'')))"

definition validate_question :: "crates \<Rightarrow> question \<Rightarrow> json option \<Rightarrow> answer_result" where
  "validate_question E q raw =
     (case q_kind q of
        ShortText \<Rightarrow> validate_text q raw
      | LongText \<Rightarrow> validate_text q raw
      | QNumber \<Rightarrow> validate_number q raw
      | Scale \<Rightarrow> validate_number q raw
      | SingleChoice \<Rightarrow> validate_single_choice q raw
      | Dropdown \<Rightarrow> validate_single_choice q raw
      | MultiChoice \<Rightarrow> validate_multi_choice q raw
      | QDate \<Rightarrow> validate_date E q raw
      | Email \<Rightarrow> validate_email q raw
      | Agreement \<Rightarrow> validate_agreement q raw
      | _ \<Rightarrow> Inr None)"

subsection \<open>Validating a submission\<close>

type_synonym verified_answers = "(str \<times> json) list"

definition validate_step ::
  "crates \<Rightarrow> (str \<times> json) list \<Rightarrow> question \<Rightarrow> verified_answers \<times> field_error list
     \<Rightarrow> verified_answers \<times> field_error list" where
  "validate_step E obj q st = (case st of (out, errors) \<Rightarrow>
     (case validate_question E q (map_of obj (q_id q)) of
        Inr (Some v) \<Rightarrow> (bt_insert (q_id q) v out, errors)
      | Inr None \<Rightarrow> (out, errors)
      | Inl msg \<Rightarrow> (out, errors @ [\<lparr>fe_question_id = q_id q, fe_message = msg\<rparr>])))"

fun validate_loop ::
  "crates \<Rightarrow> (str \<times> json) list \<Rightarrow> question list \<Rightarrow> verified_answers \<times> field_error list
     \<Rightarrow> verified_answers \<times> field_error list" where
  "validate_loop E obj [] st = st"
| "validate_loop E obj (q # qs) st = validate_loop E obj qs (validate_step E obj q st)"

definition validate :: "crates \<Rightarrow> form_schema \<Rightarrow> json \<Rightarrow> (field_error list, verified_answers) result" where
  "validate E schema raw_answers =
     (case as_object raw_answers of
        None \<Rightarrow> Inl [\<lparr>fe_question_id = [], fe_message = ''Answers must be a JSON object.''\<rparr>]
      | Some obj \<Rightarrow>
          (case validate_loop E obj (iter_questions schema) ([], []) of (out, errors) \<Rightarrow>
             if errors = [] then Inr out else Inl errors))"

subsection \<open>The normal form of a stored answer\<close>

text \<open>
  What the header of the module promises for the stored shape: trimmed text within the limit, a
  number's canonical text, an option id of the question, a non-empty list of option ids, a date
  the evaluator reads, a mail address, and \<open>true\<close> for an agreement.
\<close>

definition has_option :: "question \<Rightarrow> str \<Rightarrow> bool" where
  "has_option q s \<longleftrightarrow> (case q_options q of Some os \<Rightarrow> s \<in> o_id ` set os | None \<Rightarrow> False)"

definition answer_ok :: "crates \<Rightarrow> question \<Rightarrow> json \<Rightarrow> bool" where
  "answer_ok E q v =
     (case q_kind q of
        ShortText \<Rightarrow> (\<exists>s. v = JStr s \<and> str_trim s = s \<and> s \<noteq> [] \<and> chars_count s \<le> text_limit q)
      | LongText \<Rightarrow> (\<exists>s. v = JStr s \<and> str_trim s = s \<and> s \<noteq> [] \<and> chars_count s \<le> text_limit q)
      | QNumber \<Rightarrow> (\<exists>n. v = JStr (number_text n) \<and> \<not> below_min q n \<and> \<not> above_max q n)
      | Scale \<Rightarrow> (\<exists>n. v = JStr (number_text n) \<and> \<not> below_min q n \<and> \<not> above_max q n)
      | SingleChoice \<Rightarrow> (\<exists>s. v = JStr s \<and> has_option q s)
      | Dropdown \<Rightarrow> (\<exists>s. v = JStr s \<and> has_option q s)
      | MultiChoice \<Rightarrow> (\<exists>ss. v = JArr (map JStr ss) \<and> ss \<noteq> [] \<and> (\<forall>s \<in> set ss. has_option q s))
      | QDate \<Rightarrow> (\<exists>s t. v = JStr s \<and> str_trim s = s \<and> parse_datetime_str E s = Some t)
      | Email \<Rightarrow> (\<exists>s. v = JStr s \<and> str_trim s = s \<and> looks_like_email s \<and> length s \<le> 320)
      | Agreement \<Rightarrow> v = JStr ''true''
      | _ \<Rightarrow> False)"

lemma require_Inr [simp]: "require q = Inr x \<longleftrightarrow> \<not> q_required q \<and> x = None"
  by (auto simp: require_def)

lemma raw_str_Some: "raw_str raw = Some s \<longleftrightarrow> raw = Some (JStr s)"
  by (auto simp: raw_str_def as_str_Some_iff split: option.splits)

lemma not_blank_JStr: "\<not> is_blank (Some (JStr s)) \<longleftrightarrow> str_trim s \<noteq> []"
  by (simp add: is_blank_def)

lemma validate_text_Some:
  assumes "validate_text q raw = Inr (Some v)"
  shows "\<exists>s. v = JStr s \<and> str_trim s = s \<and> s \<noteq> [] \<and> chars_count s \<le> text_limit q"
proof -
  obtain s0 where s0: "raw = Some (JStr s0)" and nb: "\<not> is_blank raw"
    using assms by (auto simp: validate_text_def try_bind_Inr_iff ok_or_Inr_iff raw_str_Some split: if_splits)
  then show ?thesis
    using assms by (auto simp: validate_text_def raw_str_def Let_def not_blank_JStr split: if_splits)
qed

text \<open>A NaN compares with nothing, so it passes every bound.\<close>

lemma nan_passes_bounds:
  assumes "\<not> is_blank raw" and "raw_number raw = Some F64NaN"
  shows "validate_number q raw = Inr (Some (JStr ''NaN''))"
  using assms by (simp add: validate_number_def below_min_def above_max_def f64_gt_def number_text_def
      f64_fract_is_zero_def f64_is_finite_def f64_display_def split: option.split)

lemma nan_is_a_number: "raw_number (Some (JStr ''NaN'')) = Some F64NaN" "\<not> is_blank (Some (JStr ''NaN''))"
  by code_simp+

lemma validate_number_Some:
  "validate_number q raw = Inr (Some v) \<Longrightarrow>
     \<exists>n. raw_number raw = Some n \<and> v = JStr (number_text n) \<and> \<not> below_min q n \<and> \<not> above_max q n"
  by (auto simp: validate_number_def try_bind_Inr_iff ok_or_Inr_iff split: if_splits)

lemma validate_single_choice_Some:
  "validate_single_choice q raw = Inr (Some v) \<Longrightarrow> \<exists>s. v = JStr s \<and> has_option q s"
  by (auto simp: validate_single_choice_def try_bind_Inr_iff ok_or_Inr_iff has_option_def list_ex_iff
      split: if_splits)

lemma choose_options_Inr:
  "choose_options os vs = Inr cs \<Longrightarrow> \<exists>ss. vs = map JStr ss \<and> cs = vs \<and> set ss \<subseteq> o_id ` set os"
proof (induction vs arbitrary: cs)
  case (Cons v vs)
  then obtain s rest where v: "v = JStr s" and "list_ex (\<lambda>o'. o_id o' = s) os"
    and "choose_options os vs = Inr rest" and "cs = JStr s # rest"
    by (auto simp: try_bind_Inr_iff ok_or_Inr_iff as_str_Some_iff split: if_splits)
  moreover obtain ss where "vs = map JStr ss" "rest = vs" "set ss \<subseteq> o_id ` set os"
    using Cons.IH [OF \<open>choose_options os vs = Inr rest\<close>] by blast
  ultimately show ?case
    by (intro exI [of _ "s # ss"]) (auto simp: list_ex_iff)
qed simp

lemma validate_multi_choice_Some:
  assumes "validate_multi_choice q raw = Inr (Some v)"
  shows "\<exists>ss. v = JArr (map JStr ss) \<and> ss \<noteq> [] \<and> (\<forall>s \<in> set ss. has_option q s)"
proof -
  obtain arr os chosen where raw: "raw = Some (JArr arr)" and nb: "\<not> is_blank raw"
    and os: "q_options q = Some os" and ch: "choose_options os arr = Inr chosen" and v: "v = JArr chosen"
    using assms
    by (auto simp: validate_multi_choice_def try_bind_Inr_iff ok_or_Inr_iff as_array_Some_iff
        split: if_splits option.splits)
  from choose_options_Inr [OF ch] obtain ss
    where "arr = map JStr ss" "chosen = arr" "set ss \<subseteq> o_id ` set os" by blast
  moreover have "arr \<noteq> []" using nb raw by (simp add: is_blank_def)
  ultimately show ?thesis using v os by (intro exI [of _ ss]) (auto simp: has_option_def)
qed

lemma validate_date_Some:
  "validate_date E q raw = Inr (Some v) \<Longrightarrow>
     \<exists>s t. v = JStr s \<and> str_trim s = s \<and> parse_datetime_str E s = Some t"
  by (auto simp: validate_date_def try_bind_Inr_iff ok_or_Inr_iff Let_def parse_datetime_str_def
      split: if_splits option.splits)

lemma validate_email_Some:
  "validate_email q raw = Inr (Some v) \<Longrightarrow>
     \<exists>s. v = JStr s \<and> str_trim s = s \<and> looks_like_email s \<and> length s \<le> 320"
  by (auto simp: validate_email_def try_bind_Inr_iff ok_or_Inr_iff Let_def split: if_splits)

lemmas validate_kind_Some =
  validate_text_Some validate_single_choice_Some validate_multi_choice_Some
  validate_date_Some validate_email_Some

lemma validate_question_ok:
  assumes "validate_question E q raw = Inr (Some v)"
  shows "answer_ok E q v"
proof (cases "q_kind q")
  case Agreement
  then show ?thesis using assms
    by (auto simp: validate_question_def validate_agreement_def answer_ok_def split: if_splits)
qed (use assms in \<open>auto simp: validate_question_def answer_ok_def
        dest!: validate_kind_Some dest: validate_number_Some\<close>)

lemma validate_question_required:
  assumes "q_required q" and "is_answerable (q_kind q)"
  shows "validate_question E q raw \<noteq> Inr None"
  using assms
  by (cases "q_kind q")
    (auto simp: validate_question_def validate_text_def validate_number_def validate_single_choice_def
      validate_multi_choice_def validate_date_def validate_email_def validate_agreement_def
      is_answerable_def try_bind_Inr_iff Let_def split: if_splits)

subsection \<open>The loop over the questions\<close>

text \<open>The entry of a key after the loop comes from a question with that id.\<close>

lemma snd_validate_step:
  "snd (validate_step E obj q st) = snd st @
     (case validate_question E q (map_of obj (q_id q)) of
        Inl m \<Rightarrow> [\<lparr>fe_question_id = q_id q, fe_message = m\<rparr>] | Inr _ \<Rightarrow> [])"
  by (cases st) (auto simp: validate_step_def split: sum.splits option.splits)

lemma fst_validate_step:
  "fst (validate_step E obj q st) =
     (case validate_question E q (map_of obj (q_id q)) of
        Inr (Some v) \<Rightarrow> bt_insert (q_id q) v (fst st) | _ \<Rightarrow> fst st)"
  by (cases st) (auto simp: validate_step_def split: sum.splits option.splits)

lemma validate_loop_sorted:
  "bt_sorted (fst st) \<Longrightarrow> bt_sorted (fst (validate_loop E obj qs st))"
  by (induction qs arbitrary: st)
    (auto simp: fst_validate_step bt_insert_sorted split: sum.splits option.splits)

lemma validate_loop_errors_mono:
  "snd (validate_loop E obj qs st) = [] \<Longrightarrow> snd st = []"
proof (induction qs arbitrary: st)
  case (Cons q qs)
  have "snd (validate_step E obj q st) = []"
    by (rule Cons.IH) (use Cons.prems in simp)
  then show ?case by (simp add: snd_validate_step)
qed simp

lemma validate_loop_no_errors:
  assumes "snd (validate_loop E obj qs st) = []" and "q \<in> set qs"
  shows "\<exists>x. validate_question E q (map_of obj (q_id q)) = Inr x"
  using assms
proof (induction qs arbitrary: st)
  case (Cons p qs)
  show ?case
  proof (cases "p = q")
    case True
    have "snd (validate_step E obj p st) = []"
      by (rule validate_loop_errors_mono [of E obj qs]) (use Cons.prems(1) in simp)
    then show ?thesis using True by (auto simp: snd_validate_step split: sum.splits)
  next
    case False
    then show ?thesis using Cons by auto
  qed
qed simp

lemma validate_loop_keys_mono:
  "fst ` set (fst st) \<subseteq> fst ` set (fst (validate_loop E obj qs st))"
proof (induction qs arbitrary: st)
  case (Cons p qs)
  have "fst ` set (fst st) \<subseteq> fst ` set (fst (validate_step E obj p st))"
    by (simp add: fst_validate_step bt_insert_keys subset_insertI split: sum.split option.split)
  then show ?case using Cons.IH [of "validate_step E obj p st"] by simp
qed simp

lemma validate_loop_present:
  assumes "q \<in> set qs" and "validate_question E q (map_of obj (q_id q)) = Inr (Some v)"
  shows "q_id q \<in> fst ` set (fst (validate_loop E obj qs st))"
  using assms(1)
proof (induction qs arbitrary: st)
  case (Cons p qs)
  show ?case
  proof (cases "p = q")
    case True
    then have "q_id q \<in> fst ` set (fst (validate_step E obj p st))"
      using assms(2) by (simp add: fst_validate_step bt_insert_keys)
    then show ?thesis
      using validate_loop_keys_mono [of "validate_step E obj p st" E obj qs] by auto
  next
    case False
    then show ?thesis using Cons by auto
  qed
qed simp

lemma set_bt_insert: "(k', v') \<in> set (bt_insert k v xs) \<Longrightarrow> (k', v') = (k, v) \<or> (k', v') \<in> set xs"
  by (induction k v xs rule: bt_insert.induct) (auto split: if_splits)

lemma validate_loop_entry:
  assumes "(k, v) \<in> set (fst (validate_loop E obj qs st))"
  shows "(k, v) \<in> set (fst st) \<or>
    (\<exists>q \<in> set qs. q_id q = k \<and> validate_question E q (map_of obj k) = Inr (Some v))"
  using assms
proof (induction qs arbitrary: st)
  case (Cons p qs)
  consider "(k, v) \<in> set (fst (validate_step E obj p st))"
    | "\<exists>q \<in> set qs. q_id q = k \<and> validate_question E q (map_of obj k) = Inr (Some v)"
    using Cons.IH [of "validate_step E obj p st"] Cons.prems by auto
  then show ?case
  proof cases
    case 1
    then show ?thesis
      by (auto simp: fst_validate_step dest!: set_bt_insert split: sum.splits option.splits)
  qed auto
qed simp

lemma validate_Inr_iff:
  "validate E s raw = Inr out \<longleftrightarrow>
     (\<exists>obj. raw = JObj obj \<and> validate_loop E obj (iter_questions s) ([], []) = (out, []))"
  by (auto simp: validate_def as_object_Some_iff split: option.splits prod.splits if_splits)

lemma validate_entry:
  assumes "validate E s raw = Inr out" and "(k, v) \<in> set out"
  obtains q where "q \<in> set (iter_questions s)" "q_id q = k"
    "validate_question E q (jget raw k) = Inr (Some v)"
proof -
  from assms(1) obtain obj where o: "raw = JObj obj"
    "validate_loop E obj (iter_questions s) ([], []) = (out, [])"
    by (auto simp: validate_Inr_iff)
  then show thesis using validate_loop_entry [of k v E obj "iter_questions s" "([], [])"] assms(2) that
    by auto
qed

lemma validate_sorted: "validate E s raw = Inr out \<Longrightarrow> bt_sorted out"
  using validate_loop_sorted [of "([], [])" E _ "iter_questions s"]
  by (simp add: validate_Inr_iff) (metis fst_conv)

lemma validate_answers_ok:
  assumes "validate E s raw = Inr out" and "(k, v) \<in> set out"
  shows "\<exists>q \<in> set (iter_questions s). q_id q = k \<and> answer_ok E q v"
  using assms by (elim validate_entry) (auto dest: validate_question_ok)

lemma validate_required_present:
  assumes "validate E s raw = Inr out" and "q \<in> set (iter_questions s)" and "q_required q"
  shows "q_id q \<in> fst ` set out"
proof -
  from assms(1) obtain obj where o: "validate_loop E obj (iter_questions s) ([], []) = (out, [])"
    by (auto simp: validate_Inr_iff)
  obtain x where x: "validate_question E q (map_of obj (q_id q)) = Inr x"
    using validate_loop_no_errors [of E obj "iter_questions s" "([], [])" q] o assms(2) by auto
  have "x \<noteq> None"
    using x validate_question_required [OF assms(3) iter_questions_answerable [OF assms(2)], of E] by (cases x) auto
  with x show ?thesis
    using validate_loop_present [of q "iter_questions s" E obj _ "([], [])"] o assms(2) by force
qed

text \<open>The error a question contributes.\<close>

definition field_errors_of :: "crates \<Rightarrow> (str \<times> json) list \<Rightarrow> question \<Rightarrow> field_error list" where
  "field_errors_of E obj q = (case validate_question E q (map_of obj (q_id q)) of
       Inl m \<Rightarrow> [\<lparr>fe_question_id = q_id q, fe_message = m\<rparr>] | Inr _ \<Rightarrow> [])"

lemma snd_validate_loop:
  "snd (validate_loop E obj qs st) = snd st @ concat (map (field_errors_of E obj) qs)"
  by (induction qs arbitrary: st) (auto simp: snd_validate_step field_errors_of_def split: sum.splits)

lemma validate_JObj:
  "validate E s (JObj obj) =
     (let es = concat (map (field_errors_of E obj) (iter_questions s)) in
      if es = [] then Inr (fst (validate_loop E obj (iter_questions s) ([], []))) else Inl es)"
  using snd_validate_loop [of E obj "iter_questions s" "([], [])"]
  by (simp add: validate_def split_beta Let_def)

text \<open>A form with one required text question and one checkbox question, for examples.\<close>

definition sample_text_question :: question where
  "sample_text_question = \<lparr>q_id = ''q1'', q_kind = ShortText, q_title = ''Name'', q_description = [],
     q_required = True, q_max_length = None, q_min = None, q_max = None, q_options = None,
     q_correct = Some (JStr ''ann''), q_points = Some 5, q_placeholder = None, q_help_text = None,
     q_image_url = None, q_alt_text = None\<rparr>"

definition sample_form :: form_schema where
  "sample_form = \<lparr>s_title = ''T'', s_description = [], s_settings = default_form_settings,
     s_pages = [\<lparr>p_id = ''p1'', p_title = [], p_description = [],
       p_questions = [sample_text_question,
         sample_text_question\<lparr>q_id := ''q2'', q_kind := MultiChoice, q_required := False, q_correct := None,
           q_options := Some [\<lparr>o_id = ''a'', o_label = ''A''\<rparr>, \<lparr>o_id = ''b'', o_label = ''B''\<rparr>]\<rparr>]\<rparr>]\<rparr>"

lemma sample_form_validates:
  "validate sample_crates sample_form (JObj [(''q1'', JStr '' Ann''), (''q2'', JArr [JStr ''b''])])
     = Inr [(''q1'', JStr ''Ann''), (''q2'', JArr [JStr ''b''])]"
  by code_simp

subsection \<open>Properties\<close>

text \<open>C22: an accepted submission is stored in normal form: its keys are ids of answerable
  questions in key order, every value is the normal form of an answer to a question with that id, and
  every required question is answered.\<close>

theorem validate_sound:
  assumes "validate E s raw = Inr out"
  shows "bt_sorted out
    \<and> (\<forall>(k, v) \<in> set out. \<exists>q \<in> set (iter_questions s). q_id q = k \<and> answer_ok E q v)
    \<and> (\<forall>q \<in> set (iter_questions s). q_required q \<longrightarrow> q_id q \<in> fst ` set out)"
  using validate_sorted [OF assms] validate_answers_ok [OF assms] validate_required_present [OF assms]
  by blast

theorem validate_sound_witness:
  "\<exists>q \<in> set (iter_questions sample_form). q_id q = ''q2'' \<and> answer_ok sample_crates q (JArr [JStr ''b''])"
  using validate_sound [OF sample_form_validates] by simp

text \<open>A rejected submission reports one error for each failing question, in the order of the
  form and none besides; it is accepted exactly when no question fails.\<close>

lemma validate_reports_every_error:
  "validate E s (JObj obj) =
     (let es = concat (map (field_errors_of E obj) (iter_questions s)) in
      if es = [] then Inr (fst (validate_loop E obj (iter_questions s) ([], []))) else Inl es)"
  by (rule validate_JObj)

end
