(* ===== verification/FormJson.thy ===== *)
theory FormJson
  imports FormValidator
begin

text \<open>
  The serde derives of \<open>models/form.rs\<close>: how a stored \<open>forms.schema\<close> value is read into the typed
  form, with the readers of \<open>Serde\<close>. \<open>form_schema_to_json\<close> writes a typed form as such a value; the
  program stores what the editor sent and never writes one itself, so it serves the examples and
  shows that the reader reaches every typed form that text can hold.
\<close>

subsection \<open>The structs\<close>

definition kind_from_str :: "str \<Rightarrow> question_kind option" where
  "kind_from_str k =
     (if k = ''short_text'' then Some ShortText
      else if k = ''long_text'' then Some LongText
      else if k = ''number'' then Some QNumber
      else if k = ''single_choice'' then Some SingleChoice
      else if k = ''multi_choice'' then Some MultiChoice
      else if k = ''dropdown'' then Some Dropdown
      else if k = ''scale'' then Some Scale
      else if k = ''date'' then Some QDate
      else if k = ''email'' then Some Email
      else if k = ''agreement'' then Some Agreement
      else if k = ''info'' then Some Info
      else if k = ''image'' then Some Image
      else if k = ''video'' then Some Video
      else None)"

definition kind_from_json :: "json \<Rightarrow> question_kind option" where
  "kind_from_json v = Option.bind (variant_name v) kind_from_str"

definition option_from_json :: "json \<Rightarrow> question_option option" where
  "option_from_json v =
     Option.bind (struct_members [''id'', ''label''] v) (\<lambda>m.
     Option.bind (need as_str m ''id'') (\<lambda>i.
     Option.bind (need as_str m ''label'') (\<lambda>l.
     Some \<lparr>o_id = i, o_label = l\<rparr>)))"

definition question_fields :: "str list" where
  "question_fields = [''id'', ''kind'', ''title'', ''description'', ''required'', ''max_length'', ''min'', ''max'',
     ''options'', ''correct'', ''points'', ''placeholder'', ''help_text'', ''image_url'', ''alt_text'']"

definition question_from_json :: "json \<Rightarrow> question option" where
  "question_from_json v =
     Option.bind (struct_members question_fields v) (\<lambda>m.
     Option.bind (need as_str m ''id'') (\<lambda>i.
     Option.bind (need kind_from_json m ''kind'') (\<lambda>kd.
     Option.bind (dflt [] as_str m ''title'') (\<lambda>title.
     Option.bind (dflt [] as_str m ''description'') (\<lambda>descr.
     Option.bind (dflt False as_bool m ''required'') (\<lambda>req.
     Option.bind (opt as_i64 m ''max_length'') (\<lambda>max_length.
     Option.bind (opt read_f64 m ''min'') (\<lambda>mn.
     Option.bind (opt read_f64 m ''max'') (\<lambda>mx.
     Option.bind (opt (read_vec option_from_json) m ''options'') (\<lambda>options.
     Option.bind (opt Some m ''correct'') (\<lambda>correct.
     Option.bind (opt read_i32 m ''points'') (\<lambda>points.
     Option.bind (opt as_str m ''placeholder'') (\<lambda>placeholder.
     Option.bind (opt as_str m ''help_text'') (\<lambda>help_text.
     Option.bind (opt as_str m ''image_url'') (\<lambda>image_url.
     Option.bind (opt as_str m ''alt_text'') (\<lambda>alt_text.
     Some \<lparr>q_id = i, q_kind = kd, q_title = title, q_description = descr, q_required = req,
       q_max_length = max_length, q_min = mn, q_max = mx, q_options = options, q_correct = correct,
       q_points = points, q_placeholder = placeholder, q_help_text = help_text,
       q_image_url = image_url, q_alt_text = alt_text\<rparr>))))))))))))))))"

definition page_from_json :: "json \<Rightarrow> page option" where
  "page_from_json v =
     Option.bind (struct_members [''id'', ''title'', ''description'', ''questions''] v) (\<lambda>m.
     Option.bind (need as_str m ''id'') (\<lambda>i.
     Option.bind (dflt [] as_str m ''title'') (\<lambda>title.
     Option.bind (dflt [] as_str m ''description'') (\<lambda>descr.
     Option.bind (dflt [] (read_vec question_from_json) m ''questions'') (\<lambda>qs.
     Some \<lparr>p_id = i, p_title = title, p_description = descr, p_questions = qs\<rparr>)))))"

definition settings_from_json :: "json \<Rightarrow> form_settings option" where
  "settings_from_json v =
     Option.bind (struct_members [''submit_label'', ''show_progress_bar'', ''shuffle_questions''] v) (\<lambda>m.
     Option.bind (dflt ''Submit'' as_str m ''submit_label'') (\<lambda>l.
     Option.bind (dflt True as_bool m ''show_progress_bar'') (\<lambda>b.
     Option.bind (dflt False as_bool m ''shuffle_questions'') (\<lambda>s.
     Some \<lparr>fs_submit_label = l, fs_show_progress_bar = b, fs_shuffle_questions = s\<rparr>))))"

definition form_schema_from_json :: "json \<Rightarrow> form_schema option" where
  "form_schema_from_json v =
     Option.bind (struct_members [''title'', ''description'', ''settings'', ''pages''] v) (\<lambda>m.
     Option.bind (dflt [] as_str m ''title'') (\<lambda>title.
     Option.bind (dflt [] as_str m ''description'') (\<lambda>descr.
     Option.bind (dflt default_form_settings settings_from_json m ''settings'') (\<lambda>st.
     Option.bind (dflt [] (read_vec page_from_json) m ''pages'') (\<lambda>ps.
     Some \<lparr>s_title = title, s_description = descr, s_settings = st, s_pages = ps\<rparr>)))))"

subsection \<open>Writing\<close>

text \<open>\<open>skip_serializing_if = "Option::is_none"\<close>; members stand in key order, as in the map.\<close>

definition opt_member :: "str \<Rightarrow> ('a \<Rightarrow> json) \<Rightarrow> 'a option \<Rightarrow> (str \<times> json) list" where
  "opt_member k wr x = (case x of None \<Rightarrow> [] | Some v \<Rightarrow> [(k, wr v)])"

text \<open>\<open>Value::from(f64)\<close>: null unless finite.\<close>

definition json_of_f64 :: "f64 \<Rightarrow> json" where
  "json_of_f64 x = (if f64_is_finite x then JNum (JFloat x) else JNull)"

definition option_to_json :: "question_option \<Rightarrow> json" where
  "option_to_json p = JObj [(''id'', JStr (o_id p)), (''label'', JStr (o_label p))]"

definition question_to_json :: "question \<Rightarrow> json" where
  "question_to_json q = JObj
     (opt_member ''alt_text'' JStr (q_alt_text q) @ opt_member ''correct'' id (q_correct q)
      @ [(''description'', JStr (q_description q))] @ opt_member ''help_text'' JStr (q_help_text q)
      @ [(''id'', JStr (q_id q))] @ opt_member ''image_url'' JStr (q_image_url q)
      @ [(''kind'', JStr (kind_as_str (q_kind q)))] @ opt_member ''max'' json_of_f64 (q_max q)
      @ opt_member ''max_length'' json_of_i64 (q_max_length q) @ opt_member ''min'' json_of_f64 (q_min q)
      @ opt_member ''options'' (\<lambda>ps. JArr (map option_to_json ps)) (q_options q)
      @ opt_member ''placeholder'' JStr (q_placeholder q) @ opt_member ''points'' json_of_i64 (q_points q)
      @ [(''required'', JBool (q_required q)), (''title'', JStr (q_title q))])"

definition page_to_json :: "page \<Rightarrow> json" where
  "page_to_json p = JObj [(''description'', JStr (p_description p)), (''id'', JStr (p_id p)),
     (''questions'', JArr (map question_to_json (p_questions p))), (''title'', JStr (p_title p))]"

definition settings_to_json :: "form_settings \<Rightarrow> json" where
  "settings_to_json s = JObj [(''show_progress_bar'', JBool (fs_show_progress_bar s)),
     (''shuffle_questions'', JBool (fs_shuffle_questions s)), (''submit_label'', JStr (fs_submit_label s))]"

definition form_schema_to_json :: "form_schema \<Rightarrow> json" where
  "form_schema_to_json s = JObj [(''description'', JStr (s_description s)),
     (''pages'', JArr (map page_to_json (s_pages s))), (''settings'', settings_to_json (s_settings s)),
     (''title'', JStr (s_title s))]"

subsection \<open>Laws of the readers\<close>

lemma as_bool_JBool [simp]: "as_bool (JBool b) = Some b"
  by (simp add: as_bool_def)

lemma as_i64_of_i64 [simp]: "in_i64 n \<Longrightarrow> as_i64 (json_of_i64 n) = Some n"
  by (auto simp: as_i64_def json_of_i64_def in_i64_def)

lemma json_of_i64_not_null [simp]: "json_of_i64 n \<noteq> JNull"
  by (simp add: json_of_i64_def)

lemma in_i32_in_i64: "in_i32 n \<Longrightarrow> in_i64 n"
  by (simp add: in_i32_def in_i64_def)

lemma read_i32_of_i64 [simp]: "in_i32 n \<Longrightarrow> read_i32 (json_of_i64 n) = Some n"
  by (simp add: read_i32_def in_i32_in_i64)

lemma read_f64_of_f64 [simp]: "f64_is_finite x \<Longrightarrow> read_f64 (json_of_f64 x) = Some x"
  by (simp add: read_f64_def json_of_f64_def)

lemma kind_from_as_str [simp]: "kind_from_json (JStr (kind_as_str k)) = Some k"
  by (cases k) (simp_all add: kind_from_json_def kind_from_str_def)

lemma map_of_opt_member:
  "map_of (opt_member k wr x @ ms) j =
     (if j = k then (case x of Some v \<Rightarrow> Some (wr v) | None \<Rightarrow> map_of ms j) else map_of ms j)"
  by (simp add: opt_member_def split: option.split)

lemma map_of_opt_member_end:
  "map_of (opt_member k wr x) j = (if j = k then map_option wr x else None)"
  by (simp add: opt_member_def split: option.split)

lemma opt_read:
  assumes "map_of m k = (case x of Some v \<Rightarrow> Some (wr v) | None \<Rightarrow> None)"
    and "\<And>v. x = Some v \<Longrightarrow> wr v \<noteq> JNull \<and> rd (wr v) = Some v"
  shows "opt rd m k = Some x"
  using assms by (cases x) (auto simp: opt_def)

text \<open>What a typed form can hold and the stored text cannot: a null answer key, a bound that is
  not finite, numbers outside their machine type.\<close>

definition storable :: "question \<Rightarrow> bool" where
  "storable q \<longleftrightarrow> q_correct q \<noteq> Some JNull
     \<and> (\<forall>x. q_min q = Some x \<longrightarrow> f64_is_finite x) \<and> (\<forall>x. q_max q = Some x \<longrightarrow> f64_is_finite x)
     \<and> (\<forall>n. q_max_length q = Some n \<longrightarrow> in_i64 n) \<and> (\<forall>n. q_points q = Some n \<longrightarrow> in_i32 n)"

lemma option_roundtrip [simp]: "option_from_json (option_to_json p) = Some p"
  by (simp add: option_from_json_def option_to_json_def need_def)

lemma question_roundtrip:
  assumes "storable q"
  shows "question_from_json (question_to_json q) = Some q"
proof -
  note members = map_of_opt_member map_of_opt_member_end
  obtain m where m: "question_to_json q = JObj m" by (simp add: question_to_json_def)
  have req: "map_of m ''id'' = Some (JStr (q_id q))" "map_of m ''kind'' = Some (JStr (kind_as_str (q_kind q)))"
      "map_of m ''title'' = Some (JStr (q_title q))" "map_of m ''description'' = Some (JStr (q_description q))"
      "map_of m ''required'' = Some (JBool (q_required q))"
    using m by (auto simp: question_to_json_def members simp del: map_of_append split: option.split)
  have "map_of m ''max_length'' = (case q_max_length q of Some v \<Rightarrow> Some (json_of_i64 v) | None \<Rightarrow> None)"
      "map_of m ''min'' = (case q_min q of Some v \<Rightarrow> Some (json_of_f64 v) | None \<Rightarrow> None)"
      "map_of m ''max'' = (case q_max q of Some v \<Rightarrow> Some (json_of_f64 v) | None \<Rightarrow> None)"
      "map_of m ''options'' = (case q_options q of Some v \<Rightarrow> Some (JArr (map option_to_json v)) | None \<Rightarrow> None)"
      "map_of m ''correct'' = (case q_correct q of Some v \<Rightarrow> Some (id v) | None \<Rightarrow> None)"
      "map_of m ''points'' = (case q_points q of Some v \<Rightarrow> Some (json_of_i64 v) | None \<Rightarrow> None)"
      "map_of m ''placeholder'' = (case q_placeholder q of Some v \<Rightarrow> Some (JStr v) | None \<Rightarrow> None)"
      "map_of m ''help_text'' = (case q_help_text q of Some v \<Rightarrow> Some (JStr v) | None \<Rightarrow> None)"
      "map_of m ''image_url'' = (case q_image_url q of Some v \<Rightarrow> Some (JStr v) | None \<Rightarrow> None)"
      "map_of m ''alt_text'' = (case q_alt_text q of Some v \<Rightarrow> Some (JStr v) | None \<Rightarrow> None)"
    using m by (auto simp: question_to_json_def members simp del: map_of_append split: option.split)
  then have "opt as_i64 m ''max_length'' = Some (q_max_length q)" "opt read_f64 m ''min'' = Some (q_min q)"
      "opt read_f64 m ''max'' = Some (q_max q)" "opt (read_vec option_from_json) m ''options'' = Some (q_options q)"
      "opt Some m ''correct'' = Some (q_correct q)" "opt read_i32 m ''points'' = Some (q_points q)"
      "opt as_str m ''placeholder'' = Some (q_placeholder q)" "opt as_str m ''help_text'' = Some (q_help_text q)"
      "opt as_str m ''image_url'' = Some (q_image_url q)" "opt as_str m ''alt_text'' = Some (q_alt_text q)"
    using assms unfolding storable_def
    by (auto intro!: opt_read simp: read_vec_def json_of_f64_def read_f64_def)
  then show ?thesis
    using m req by (simp add: question_from_json_def need_def dflt_def)
qed

lemma page_roundtrip:
  "list_all storable (p_questions p) \<Longrightarrow> page_from_json (page_to_json p) = Some p"
  by (simp add: page_from_json_def page_to_json_def need_def dflt_def read_vec_def list_all_iff question_roundtrip)

lemma settings_roundtrip [simp]: "settings_from_json (settings_to_json s) = Some s"
  by (simp add: settings_from_json_def settings_to_json_def dflt_def)

subsection \<open>Properties\<close>

text \<open>A typed form written as JSON is read back unchanged, whatever questions, options and
  settings it has, provided no answer key is null and its numbers are finite and in range.\<close>

lemma form_schema_roundtrip:
  assumes "list_all (\<lambda>p. list_all storable (p_questions p)) (s_pages s)"
  shows "form_schema_from_json (form_schema_to_json s) = Some s"
proof -
  have "read_all page_from_json (map page_to_json (s_pages s)) = Some (s_pages s)"
    using assms by (intro read_all_map page_roundtrip) (auto simp: list_all_iff)
  then show ?thesis
    by (simp add: form_schema_from_json_def form_schema_to_json_def dflt_def read_vec_def)
qed

end
