(* ===== verification/QuizGrader.thy ===== *)
theory QuizGrader
  imports FormValidator
begin

text \<open>
  The quiz part of \<open>services/form_validator.rs\<close>: the answer key of a question, the score of a
  verified submission (saturating 32-bit addition), and the save-time check of the keys.
\<close>

definition accepted_answers :: "crates \<Rightarrow> json \<Rightarrow> str list" where
  "accepted_answers E correct =
     filter (\<lambda>s. str_trim s \<noteq> [])
       (case correct of
          JStr s \<Rightarrow> [s]
        | JNum n \<Rightarrow> [num_to_string E n]
        | JBool b \<Rightarrow> [bool_to_string b]
        | JArr a \<Rightarrow> List.map_filter (\<lambda>v. case v of
              JStr s \<Rightarrow> Some s | JNum n \<Rightarrow> Some (num_to_string E n) | _ \<Rightarrow> None) a
        | _ \<Rightarrow> [])"

definition as_number :: "json \<Rightarrow> f64 option" where
  "as_number v = (case v of
       JNum n \<Rightarrow> Some (num_as_f64 n)
     | JStr s \<Rightarrow> parse_f64 (str_trim s)
     | _ \<Rightarrow> None)"

definition is_graded :: "crates \<Rightarrow> question \<Rightarrow> bool" where
  "is_graded E q \<longleftrightarrow>
     (case q_points q of Some p \<Rightarrow> p > 0 | None \<Rightarrow> False)
     \<and> (case q_correct q of Some c \<Rightarrow> accepted_answers E c \<noteq> [] | None \<Rightarrow> False)"

definition quiz_graded_count :: "crates \<Rightarrow> form_schema \<Rightarrow> nat" where
  "quiz_graded_count E s = length (filter (is_graded E) (iter_questions s))"

text \<open>The tolerance literal \<open>1e-9\<close>.\<close>

definition f64_1em9 :: f64 where "f64_1em9 = round64 (1 / 1000000000)"

definition answer_matches :: "crates \<Rightarrow> question \<Rightarrow> json \<Rightarrow> json \<Rightarrow> bool" where
  "answer_matches E q correct actual =
     (case q_kind q of
        MultiChoice \<Rightarrow>
          (let want = set (accepted_answers E correct);
               got = set (case as_array actual of Some a \<Rightarrow> str_items a | None \<Rightarrow> [])
           in want \<noteq> {} \<and> want = got)
      | QNumber \<Rightarrow>
          (case as_number actual of
             Some got \<Rightarrow> list_ex (\<lambda>want. f64_lt (f64_abs (f64_sub want got)) f64_1em9)
               (List.map_filter (\<lambda>s. parse_f64 (str_trim s)) (accepted_answers E correct))
           | None \<Rightarrow> False)
      | Scale \<Rightarrow>
          (case as_number actual of
             Some got \<Rightarrow> list_ex (\<lambda>want. f64_lt (f64_abs (f64_sub want got)) f64_1em9)
               (List.map_filter (\<lambda>s. parse_f64 (str_trim s)) (accepted_answers E correct))
           | None \<Rightarrow> False)
      | k \<Rightarrow>
          if k = ShortText \<or> k = LongText \<or> k = Email then
            (let got = lowercase E (str_trim (unwrap_or (as_str actual) [])) in
             got \<noteq> [] \<and> list_ex (\<lambda>want. lowercase E (str_trim want) = got) (accepted_answers E correct))
          else
            (let got = str_trim (unwrap_or (as_str actual) []) in
             got \<noteq> [] \<and> list_ex (\<lambda>want. str_trim want = got) (accepted_answers E correct)))"

definition score_step :: "crates \<Rightarrow> verified_answers \<Rightarrow> int \<Rightarrow> question \<Rightarrow> int" where
  "score_step E verified acc q =
     (case q_points q of
        None \<Rightarrow> acc
      | Some points \<Rightarrow>
          if points \<le> 0 then acc
          else (case q_correct q of
             None \<Rightarrow> acc
           | Some correct \<Rightarrow>
               (case map_of verified (q_id q) of
                  None \<Rightarrow> acc
                | Some actual \<Rightarrow>
                    if answer_matches E q correct actual then sat_add_i32 acc points else acc)))"

definition compute_quiz_score :: "crates \<Rightarrow> form_schema \<Rightarrow> verified_answers \<Rightarrow> int" where
  "compute_quiz_score E schema verified =
     foldl (score_step E verified) 0 (iter_questions schema)"

subsection \<open>The save-time check of the keys\<close>

definition question_label :: "question \<Rightarrow> str" where
  "question_label q = (if str_trim (q_title q) = [] then q_id q else str_trim (q_title q))"

definition points_errors :: "question \<Rightarrow> str list" where
  "points_errors q = (case q_points q of
       Some p \<Rightarrow> (if \<not> (0 \<le> p \<and> p \<le> MAX_QUESTION_POINTS)
          then [''Question \"'' @ question_label q @ ''\": points must be between 0 and ''
                @ show_int MAX_QUESTION_POINTS @ ''.''] else [])
     | None \<Rightarrow> [])"

definition key_errors :: "crates \<Rightarrow> question \<Rightarrow> str list" where
  "key_errors E q = (case q_correct q of
       None \<Rightarrow> []
     | Some correct \<Rightarrow>
         (let accepted = accepted_answers E correct in
          if accepted = [] then []
          else if q_kind q = SingleChoice \<or> q_kind q = MultiChoice \<or> q_kind q = Dropdown then
            (let opt_ids = map o_id (unwrap_or (q_options q) []) in
             if list_ex (\<lambda>i. i \<notin> set opt_ids) accepted
             then [''Question \"'' @ question_label q @ ''\": the correct answer points to an option that no longer exists ''
                   @ em_dash @ '' re-mark the correct option.''] else [])
          else []))"

definition validate_quiz_keys :: "crates \<Rightarrow> form_schema \<Rightarrow> (str list, unit) result" where
  "validate_quiz_keys E schema =
     (let errors = concat (map (\<lambda>q. points_errors q @ key_errors E q) (iter_questions schema)) in
      if errors = [] then Inr () else Inl errors)"

subsection \<open>The score as a sum\<close>

text \<open>The points a question contributes, without the saturation.\<close>

definition awarded :: "crates \<Rightarrow> verified_answers \<Rightarrow> question \<Rightarrow> int" where
  "awarded E verified q =
     (case (q_points q, q_correct q, map_of verified (q_id q)) of
        (Some p, Some c, Some a) \<Rightarrow> if p > 0 \<and> answer_matches E q c a then p else 0
      | _ \<Rightarrow> 0)"

lemma awarded_nonneg: "0 \<le> awarded E v q"
  by (auto simp: awarded_def split: option.splits)

lemma score_step_awarded:
  "0 \<le> t \<Longrightarrow> t \<le> i32_max \<Longrightarrow> score_step E v t q = min i32_max (t + awarded E v q)"
  by (auto simp: score_step_def awarded_def sat_add_i32_def split: option.splits)

lemma foldl_score:
  "0 \<le> t \<Longrightarrow> t \<le> i32_max \<Longrightarrow>
     foldl (score_step E v) t qs = min i32_max (t + (\<Sum>q \<leftarrow> qs. awarded E v q))"
proof (induction qs arbitrary: t)
  case (Cons q qs)
  have "0 \<le> (\<Sum>q \<leftarrow> qs. awarded E v q)"
    by (auto intro!: sum_list_nonneg simp: awarded_nonneg)
  moreover have "0 \<le> score_step E v t q \<and> score_step E v t q \<le> i32_max"
    using Cons.prems awarded_nonneg [of E v q] by (simp add: score_step_awarded)
  ultimately show ?case
    using Cons.IH [of "score_step E v t q"] Cons.prems awarded_nonneg [of E v q]
    by (simp add: score_step_awarded)
qed simp

lemma compute_quiz_score_sum:
  "compute_quiz_score E s v = min i32_max (\<Sum>q \<leftarrow> iter_questions s. awarded E v q)"
  by (simp add: compute_quiz_score_def foldl_score)

lemma matches_has_key: "answer_matches E q c a \<Longrightarrow> accepted_answers E c \<noteq> []"
  by (cases "q_kind q")
    (auto simp: answer_matches_def Let_def List.map_filter_simps split: option.splits)

lemma awarded_graded: "\<not> is_graded E q \<Longrightarrow> awarded E v q = 0"
  by (auto simp: awarded_def is_graded_def dest: matches_has_key split: option.splits)

lemma awarded_le_points: "awarded E v q \<le> (if is_graded E q then unwrap_or (q_points q) 0 else 0)"
  by (auto simp: awarded_def is_graded_def dest: matches_has_key split: option.splits)

lemma validate_quiz_keys_Inr:
  "validate_quiz_keys E s = Inr u \<Longrightarrow> q \<in> set (iter_questions s) \<Longrightarrow>
     points_errors q = [] \<and> key_errors E q = []"
  by (auto simp: validate_quiz_keys_def Let_def split: if_splits)

lemma sum_list_bounded:
  "(\<And>x. x \<in> set xs \<Longrightarrow> f x \<le> (b::int)) \<Longrightarrow> (\<Sum>x \<leftarrow> xs. f x) \<le> int (length xs) * b"
  by (induction xs) (fastforce simp: algebra_simps)+

lemma points_errors_bound:
  "points_errors q = [] \<Longrightarrow> awarded E v q \<le> MAX_QUESTION_POINTS"
  by (auto simp: points_errors_def awarded_def MAX_QUESTION_POINTS_def split: option.splits if_splits)

end
