(* ===== verification/Retry.thy ===== *)
theory Retry
  imports Models
begin

text \<open>
  \<open>services/retry.rs\<close>: the pure decision whether a new attempt on a single-response form is
  allowed and what the canonical row becomes. Instants are nanoseconds. The locale
  \<open>retry_gate\<close> is what the submit handler relies on: how the gate counts attempts, that it
  keeps the limit and the cooldown, whether or not the clock that stamps the row is the one the
  decision reads. Its client facts are about any sequence of submissions.
\<close>

abbreviation nanos_per_sec :: int where "nanos_per_sec \<equiv> 1000000000"

datatype retry_policy = KeepBest | KeepLatest

definition policy_from_str_or_default :: "str \<Rightarrow> retry_policy" where
  "policy_from_str_or_default s = (if s = ''keep_latest'' then KeepLatest else KeepBest)"

record retry_config =
  rc_max_attempts :: int
  rc_cooldown_seconds :: int
  rc_policy :: retry_policy
  rc_lock_on_pass :: bool

definition retries_enabled :: "retry_config \<Rightarrow> bool" where
  "retries_enabled c \<longleftrightarrow> rc_max_attempts c \<noteq> 1 \<or> rc_cooldown_seconds c > 0"

record existing_attempt =
  ea_attempt_count :: int
  ea_last_attempt_at :: int
  ea_total_score :: "int option"
  ea_passed :: "bool option"

record new_submission =
  ns_total_score :: "int option"
  ns_passed :: "bool option"

datatype deny_reason =
    DenyAlreadyPassed
  | DenyAttemptsExhausted int
  | DenyCooldown int int  \<comment> \<open>retry_after_seconds, next_attempt_at\<close>

record accepted_attempt =
  aa_overwrite_answers :: bool
  aa_total_score :: "int option"
  aa_passed :: "bool option"
  aa_attempt_count :: int

text \<open>The end of the cooldown window, and the seconds reported while inside it.\<close>

definition next_attempt_at :: "retry_config \<Rightarrow> existing_attempt \<Rightarrow> int" where
  "next_attempt_at c e = ea_last_attempt_at e + rc_cooldown_seconds c * nanos_per_sec"

definition retry_after :: "int \<Rightarrow> int \<Rightarrow> int" where
  "retry_after now nxt = (let ms = max ((nxt - now) div 1000000) 0 in max ((ms + 999) div 1000) 1)"

definition combined_passed :: "bool option \<Rightarrow> bool option \<Rightarrow> bool option" where
  "combined_passed a b =
     (if a = None \<and> b = None then None else Some (unwrap_or a False \<or> unwrap_or b False))"

definition accept_retry :: "retry_config \<Rightarrow> existing_attempt \<Rightarrow> new_submission \<Rightarrow> accepted_attempt" where
  "accept_retry c e n =
     (let attempt_count = sat_add_i32 (ea_attempt_count e) 1 in
      case (rc_policy c, ea_total_score e, ns_total_score n) of
        (KeepBest, Some old, Some new) \<Rightarrow>
          \<lparr>aa_overwrite_answers = (new > old), aa_total_score = Some (max old new),
           aa_passed = combined_passed (ea_passed e) (ns_passed n), aa_attempt_count = attempt_count\<rparr>
      | _ \<Rightarrow>
          \<lparr>aa_overwrite_answers = True, aa_total_score = ns_total_score n,
           aa_passed = ns_passed n, aa_attempt_count = attempt_count\<rparr>)"

definition decide ::
  "int \<Rightarrow> retry_config \<Rightarrow> existing_attempt option \<Rightarrow> new_submission \<Rightarrow> (deny_reason, accepted_attempt) result"
where
  "decide now c existing n =
     (case existing of
        None \<Rightarrow> Inr \<lparr>aa_overwrite_answers = True, aa_total_score = ns_total_score n,
                     aa_passed = ns_passed n, aa_attempt_count = 1\<rparr>
      | Some e \<Rightarrow>
          if rc_lock_on_pass c \<and> ea_passed e = Some True then Inl DenyAlreadyPassed
          else if rc_max_attempts c > 0 \<and> ea_attempt_count e \<ge> rc_max_attempts c
          then Inl (DenyAttemptsExhausted (rc_max_attempts c))
          else if rc_cooldown_seconds c > 0 \<and> now < next_attempt_at c e
          then Inl (DenyCooldown (retry_after now (next_attempt_at c e)) (next_attempt_at c e))
          else Inr (accept_retry c e n))"

subsection \<open>Single decisions\<close>

lemma decide_None [simp]:
  "decide now c None n = Inr \<lparr>aa_overwrite_answers = True, aa_total_score = ns_total_score n,
     aa_passed = ns_passed n, aa_attempt_count = 1\<rparr>"
  by (simp add: decide_def)

lemma decide_Inr_Some:
  "decide now c (Some e) n = Inr a \<longleftrightarrow>
     \<not> (rc_lock_on_pass c \<and> ea_passed e = Some True)
     \<and> (rc_max_attempts c > 0 \<longrightarrow> ea_attempt_count e < rc_max_attempts c)
     \<and> (rc_cooldown_seconds c > 0 \<longrightarrow> next_attempt_at c e \<le> now)
     \<and> a = accept_retry c e n"
  by (auto simp: decide_def)

lemma accept_retry_count [simp]: "aa_attempt_count (accept_retry c e n) = sat_add_i32 (ea_attempt_count e) 1"
  by (simp add: accept_retry_def Let_def split: retry_policy.split option.split)

lemma retry_after_bounds:
  assumes "now < nxt"
  shows "1 \<le> retry_after now nxt"
    and "(retry_after now nxt - 1) * nanos_per_sec < nxt - now"
    and "nxt - now < retry_after now nxt * nanos_per_sec + 1000000"
proof -
  let ?d = "nxt - now" and ?ms = "(nxt - now) div 1000000"
  have ms: "?ms * 1000000 \<le> ?d" "?d < ?ms * 1000000 + 1000000" "0 \<le> ?ms"
    using assms pos_mod_bound [of 1000000 "?d"] by (auto simp: pos_imp_zdiv_nonneg_iff)
  have c: "(?ms + 999) div 1000 * 1000 \<le> ?ms + 999" "?ms + 999 < (?ms + 999) div 1000 * 1000 + 1000"
    by (simp_all add: minus_mod_eq_mult_div [symmetric] mult.commute)
  show "1 \<le> retry_after now nxt" by (simp add: retry_after_def Let_def)
  show "(retry_after now nxt - 1) * nanos_per_sec < ?d"
    using ms c assms by (simp add: retry_after_def Let_def max_def)
  show "?d < retry_after now nxt * nanos_per_sec + 1000000"
    using ms c by (simp add: retry_after_def Let_def max_def)
qed

subsection \<open>Sequences of submissions\<close>

text \<open>
  The canonical row after one submission at an instant: kept when the gate denies, otherwise
  replaced by what the gate returns, stamped with that instant.
\<close>

type_synonym gate =
  "int \<Rightarrow> retry_config \<Rightarrow> existing_attempt option \<Rightarrow> new_submission \<Rightarrow> (deny_reason, accepted_attempt) result"

definition row_after :: "int \<Rightarrow> accepted_attempt \<Rightarrow> existing_attempt" where
  "row_after now a = \<lparr>ea_attempt_count = aa_attempt_count a, ea_last_attempt_at = now,
     ea_total_score = aa_total_score a, ea_passed = aa_passed a\<rparr>"

definition attempt_step ::
  "gate \<Rightarrow> retry_config \<Rightarrow> existing_attempt option \<Rightarrow> int \<times> new_submission \<Rightarrow> existing_attempt option" where
  "attempt_step g c st ev = (case g (fst ev) c st (snd ev) of Inl _ \<Rightarrow> st | Inr a \<Rightarrow> Some (row_after (fst ev) a))"

fun attempt_run ::
  "gate \<Rightarrow> retry_config \<Rightarrow> existing_attempt option \<Rightarrow> (int \<times> new_submission) list \<Rightarrow> existing_attempt option" where
  "attempt_run g c st [] = st"
| "attempt_run g c st (ev # evs) = attempt_run g c (attempt_step g c st ev) evs"

text \<open>The instants at which a submission was accepted, in order.\<close>

fun accepted_times ::
  "gate \<Rightarrow> retry_config \<Rightarrow> existing_attempt option \<Rightarrow> (int \<times> new_submission) list \<Rightarrow> int list" where
  "accepted_times g c st [] = []"
| "accepted_times g c st (ev # evs) =
     (case g (fst ev) c st (snd ev) of
        Inl _ \<Rightarrow> accepted_times g c st evs
      | Inr a \<Rightarrow> fst ev # accepted_times g c (Some (row_after (fst ev) a)) evs)"

text \<open>
  The row is stamped by the database's clock, the decision made by the application's: here each
  submission has the instant of its decision and the one its row is stamped with.
\<close>

fun stamped_times ::
  "gate \<Rightarrow> retry_config \<Rightarrow> existing_attempt option \<Rightarrow> ((int \<times> int) \<times> new_submission) list \<Rightarrow> (int \<times> int) list" where
  "stamped_times g c st [] = []"
| "stamped_times g c st (((now, stamp), n) # evs) =
     (case g now c st n of
        Inl _ \<Rightarrow> stamped_times g c st evs
      | Inr a \<Rightarrow> (now, stamp) # stamped_times g c (Some (row_after stamp a)) evs)"

lemma stamped_same:
  "stamped_times g c st (map (\<lambda>ev. ((fst ev, fst ev), snd ev)) evs) = map (\<lambda>t. (t, t)) (accepted_times g c st evs)"
  by (induction g c st evs rule: accepted_times.induct) (simp_all split: sum.split)

locale retry_gate =
  fixes g :: gate
  assumes first_count: "g now c None n = Inr a \<Longrightarrow> aa_attempt_count a = 1"
    and next_count: "g now c (Some e) n = Inr a \<Longrightarrow> aa_attempt_count a = sat_add_i32 (ea_attempt_count e) 1"
    and limit: "g now c (Some e) n = Inr a \<Longrightarrow> 0 < rc_max_attempts c \<Longrightarrow> ea_attempt_count e < rc_max_attempts c"
    and spacing: "g now c (Some e) n = Inr a \<Longrightarrow> 0 < rc_cooldown_seconds c \<Longrightarrow> next_attempt_at c e \<le> now"
begin

definition in_limit :: "retry_config \<Rightarrow> existing_attempt option \<Rightarrow> bool" where
  "in_limit c st \<longleftrightarrow> (case st of None \<Rightarrow> True
     | Some e \<Rightarrow> 1 \<le> ea_attempt_count e \<and> ea_attempt_count e \<le> rc_max_attempts c)"

definition used :: "existing_attempt option \<Rightarrow> int" where
  "used st = (case st of None \<Rightarrow> 0 | Some e \<Rightarrow> ea_attempt_count e)"

lemma accepted_row:
  assumes "g now c st n = Inr a" and "0 < rc_max_attempts c" "in_i32 (rc_max_attempts c)" "in_limit c st"
  shows "in_limit c (Some (row_after stamp a))" and "used (Some (row_after stamp a)) = used st + 1"
proof -
  have "aa_attempt_count a = used st + 1 \<and> used st + 1 \<le> rc_max_attempts c"
  proof (cases st)
    case None
    then show ?thesis using assms first_count by (auto simp: used_def)
  next
    case (Some e)
    then have "ea_attempt_count e < rc_max_attempts c" using assms limit by blast
    moreover have "in_i32 (ea_attempt_count e + 1)"
      using Some assms(3,4) calculation by (auto simp: in_limit_def in_i32_def)
    ultimately show ?thesis
      using Some assms(1) next_count by (auto simp: used_def sat_add_i32_exact)
  qed
  then show "in_limit c (Some (row_after stamp a))" and "used (Some (row_after stamp a)) = used st + 1"
    using assms(4) by (auto simp: in_limit_def used_def row_after_def split: option.splits)
qed

lemma used_nonneg: "in_limit c st \<Longrightarrow> 0 \<le> used st \<and> (0 < rc_max_attempts c \<longrightarrow> used st \<le> rc_max_attempts c)"
  by (auto simp: in_limit_def used_def split: option.splits)

lemma stamped_bound:
  assumes "0 < rc_max_attempts c" "in_i32 (rc_max_attempts c)" "in_limit c st"
  shows "int (length (stamped_times g c st evs)) + used st \<le> rc_max_attempts c"
  using assms(3)
proof (induction evs arbitrary: st)
  case Nil
  then show ?case using used_nonneg assms(1) by simp
next
  case (Cons ev evs)
  obtain now stamp n where ev: "ev = ((now, stamp), n)" by (metis surj_pair)
  show ?case
  proof (cases "g now c st n")
    case (Inr a)
    show ?thesis
      using Cons.IH [OF accepted_row(1) [OF Inr assms(1,2) Cons.prems], of stamp]
        accepted_row(2) [OF Inr assms(1,2) Cons.prems, of stamp] Inr by (simp add: ev)
  qed (use Cons ev in simp)
qed

lemma at_most_max_attempts:
  assumes "0 < rc_max_attempts c" "in_i32 (rc_max_attempts c)"
  shows "int (length (stamped_times g c None evs)) \<le> rc_max_attempts c"
  using stamped_bound [OF assms, of None evs] by (simp add: in_limit_def used_def)

text \<open>Each accepted attempt is decided at least the cooldown after the stamp of the one before.\<close>

definition spaced :: "retry_config \<Rightarrow> (int \<times> int) list \<Rightarrow> bool" where
  "spaced c ts \<longleftrightarrow> successively (\<lambda>a b. snd a + rc_cooldown_seconds c * nanos_per_sec \<le> fst b) ts"

lemma stamped_spaced_from:
  assumes "0 < rc_cooldown_seconds c"
  shows "spaced c (stamped_times g c st evs)
    \<and> (\<forall>e. st = Some e \<longrightarrow> stamped_times g c st evs \<noteq> [] \<longrightarrow>
         next_attempt_at c e \<le> fst (hd (stamped_times g c st evs)))"
proof (induction evs arbitrary: st)
  case (Cons ev evs)
  obtain now stamp n where ev: "ev = ((now, stamp), n)" by (metis surj_pair)
  show ?case
  proof (cases "g now c st n")
    case (Inr a)
    let ?r = "row_after stamp a"
    have "next_attempt_at c ?r = stamp + rc_cooldown_seconds c * nanos_per_sec"
      by (simp add: next_attempt_at_def row_after_def)
    moreover have "next_attempt_at c e \<le> now" if "st = Some e" for e
      using Inr that spacing assms by blast
    ultimately show ?thesis
      using Cons.IH [of "Some ?r"] Inr
      by (auto simp: ev spaced_def successively_Cons)
  qed (use Cons.IH [of st] ev in auto)
qed (simp add: spaced_def)

lemma stamped_spaced:
  "0 < rc_cooldown_seconds c \<Longrightarrow>
     successively (\<lambda>a b. snd a + rc_cooldown_seconds c * nanos_per_sec \<le> fst b) (stamped_times g c None evs)"
  using stamped_spaced_from [of c None evs] by (simp add: spaced_def)

text \<open>The same where the two clocks agree.\<close>

lemma accepted_limit:
  "0 < rc_max_attempts c \<Longrightarrow> in_i32 (rc_max_attempts c) \<Longrightarrow> int (length (accepted_times g c None evs)) \<le> rc_max_attempts c"
  using at_most_max_attempts [of c "map (\<lambda>ev. ((fst ev, fst ev), snd ev)) evs"] by (simp add: stamped_same)

lemma accepted_spaced:
  "0 < rc_cooldown_seconds c \<Longrightarrow>
     successively (\<lambda>a b. a + rc_cooldown_seconds c * nanos_per_sec \<le> b) (accepted_times g c None evs)"
  using stamped_spaced [of c "map (\<lambda>ev. ((fst ev, fst ev), snd ev)) evs"] by (simp add: stamped_same successively_map)

end

interpretation gate: retry_gate decide
  by unfold_locales (auto simp: decide_Inr_Some)

subsection \<open>What keep-best keeps\<close>

definition no_worse :: "existing_attempt \<Rightarrow> existing_attempt \<Rightarrow> bool" where
  "no_worse e e' \<longleftrightarrow>
     (\<forall>s. ea_total_score e = Some s \<longrightarrow> (\<exists>s' \<ge> s. ea_total_score e' = Some s'))
     \<and> (ea_passed e = Some True \<longrightarrow> ea_passed e' = Some True)"

lemma no_worse_refl: "no_worse e e"
  by (auto simp: no_worse_def)

lemma no_worse_trans: "no_worse a b \<Longrightarrow> no_worse b c \<Longrightarrow> no_worse a c"
  unfolding no_worse_def by (meson order_trans)

text \<open>A graded submission: it carries a score.\<close>

definition graded :: "int \<times> new_submission \<Rightarrow> bool" where
  "graded ev \<longleftrightarrow> ns_total_score (snd ev) \<noteq> None"

lemma accept_retry_no_worse:
  assumes "rc_policy c = KeepBest" and "ea_total_score e \<noteq> None" and "ns_total_score n \<noteq> None"
  shows "no_worse e (row_after now (accept_retry c e n)) \<and> aa_total_score (accept_retry c e n) \<noteq> None"
  using assms
  by (auto simp: accept_retry_def Let_def no_worse_def row_after_def combined_passed_def)

lemma attempt_run_keep_best:
  assumes "rc_policy c = KeepBest" and "list_all graded evs" and "ea_total_score e \<noteq> None"
  shows "\<exists>e'. attempt_run decide c (Some e) evs = Some e' \<and> no_worse e e'"
  using assms(2,3)
proof (induction evs arbitrary: e)
  case (Cons ev evs)
  obtain e1 where e1: "attempt_step decide c (Some e) ev = Some e1" "no_worse e e1" "ea_total_score e1 \<noteq> None"
  proof (cases "decide (fst ev) c (Some e) (snd ev)")
    case (Inr a)
    moreover have "a = accept_retry c e (snd ev)" using Inr by (simp add: decide_Inr_Some)
    ultimately show thesis
      using accept_retry_no_worse [OF assms(1) Cons.prems(2), of "snd ev" "fst ev"] Cons.prems that
      by (auto simp: attempt_step_def graded_def row_after_def)
  qed (use Cons.prems that no_worse_refl in \<open>simp add: attempt_step_def\<close>)
  then show ?case using Cons no_worse_trans by fastforce
qed (simp add: no_worse_refl)

text \<open>A policy of at most three attempts, a minute apart, and two graded submissions.\<close>

definition sample_config :: retry_config where
  "sample_config = \<lparr>rc_max_attempts = 3, rc_cooldown_seconds = 60, rc_policy = KeepBest, rc_lock_on_pass = True\<rparr>"

definition sample_submissions :: "(int \<times> new_submission) list" where
  "sample_submissions =
     [(0, \<lparr>ns_total_score = Some 4, ns_passed = Some False\<rparr>),
      (60000000000, \<lparr>ns_total_score = Some 2, ns_passed = Some False\<rparr>)]"

subsection \<open>Properties\<close>

text \<open>C25: under keep-best a graded row never gets worse: over any graded submissions its score
  does not fall and a pass is never lost.\<close>

theorem keep_best_never_worse:
  assumes "rc_policy c = KeepBest" and "list_all graded evs" and "ea_total_score e = Some old"
  shows "\<exists>e' new. attempt_run decide c (Some e) evs = Some e' \<and> ea_total_score e' = Some new \<and> old \<le> new
    \<and> (ea_passed e = Some True \<longrightarrow> ea_passed e' = Some True)"
  using attempt_run_keep_best [OF assms(1,2), of e] assms(3) by (auto simp: no_worse_def)

theorem keep_best_never_worse_witness:
  "\<exists>e' new. attempt_run decide sample_config (Some \<lparr>ea_attempt_count = 1, ea_last_attempt_at = - 60000000000,
      ea_total_score = Some 3, ea_passed = None\<rparr>) sample_submissions = Some e'
    \<and> ea_total_score e' = Some new \<and> 3 \<le> new"
  using keep_best_never_worse [of sample_config sample_submissions "\<lparr>ea_attempt_count = 1,
      ea_last_attempt_at = - 60000000000, ea_total_score = Some 3, ea_passed = None\<rparr>" 3]
  by (auto simp: sample_config_def sample_submissions_def graded_def)

end
