(* ===== verification/Tokens.thy ===== *)
theory Tokens
  imports Models "HOL-Library.Word"
begin

text \<open>
  The signed credentials: \<open>services/rl_token.rs\<close> (the dashboard's JWT and the \<open>ifs:\<close>
  iframe session), \<open>services/session.rs\<close> (the gateway's cookie) and
  \<open>services/dweeb_session.rs\<close> (the \<open>dws:\<close> picker token). Times are Unix seconds. The locale
  \<open>signed_session\<close> is what the handlers rely on: an accepted credential is a payload with its
  own MAC, valid up to one instant.
\<close>

unbundle bit_operations_syntax

text \<open>
  Third-party functions: HMAC-SHA256 of a key and a message, \<open>hex::encode\<close>, the decoder of
  \<open>urlencoding\<close>, the unpadded URL-safe base64 decoder, and the JSON object read by a serde
  derive (\<open>None\<close> for a text that is not JSON or repeats a member of the struct).
\<close>

record crypto =
  hmac :: "str \<Rightarrow> str \<Rightarrow> str"
  hex :: "str \<Rightarrow> str"
  url_decode :: "str \<Rightarrow> str option"
  b64_decode :: "str \<Rightarrow> str option"
  json_struct :: "str \<Rightarrow> json option"

definition mac_hex :: "crypto \<Rightarrow> str \<Rightarrow> str \<Rightarrow> str" where
  "mac_hex K secret payload = hex K (hmac K secret payload)"

definition colon :: char where "colon = CHR '':''"

subsection \<open>Comparing signatures\<close>

definition byte_of :: "char \<Rightarrow> 8 word" where "byte_of c = word_of_nat (of_char c)"

fun fold_diff :: "8 word \<Rightarrow> (char \<times> char) list \<Rightarrow> 8 word" where
  "fold_diff diff [] = diff"
| "fold_diff diff ((x, y) # rest) = fold_diff (diff OR (byte_of x XOR byte_of y)) rest"

definition constant_time_eq :: "str \<Rightarrow> str \<Rightarrow> bool" where
  "constant_time_eq a b = (if length a \<noteq> length b then False else fold_diff 0 (zip a b) = 0)"

lemma byte_of_inj: "byte_of c = byte_of d \<longleftrightarrow> c = d"
proof
  assume "byte_of c = byte_of d"
  then have "unat (word_of_nat (of_char c) :: 8 word) = unat (word_of_nat (of_char d) :: 8 word)"
    by (simp add: byte_of_def)
  then have "(of_char c :: nat) = of_char d"
    using nat_of_char_less_256 [of c] nat_of_char_less_256 [of d] by (simp add: unat_of_nat)
  then show "c = d" by simp
qed simp

lemma word_xor_0_iff: "a XOR b = 0 \<longleftrightarrow> a = b" for a b :: "8 word"
  by (metis xor.assoc xor.left_neutral xor_self_eq)

lemma fold_diff_0: "fold_diff w xs = 0 \<longleftrightarrow> w = 0 \<and> (\<forall>(x, y) \<in> set xs. x = y)"
  by (induction xs arbitrary: w) (auto simp: or_eq_0_iff word_xor_0_iff byte_of_inj)

lemma zip_all_eq_iff: "length a = length b \<Longrightarrow> (\<forall>(x, y) \<in> set (zip a b). x = y) \<longleftrightarrow> a = b"
  by (induction a b rule: list_induct2) auto

lemma constant_time_eq_iff: "constant_time_eq a b \<longleftrightarrow> a = b"
  using zip_all_eq_iff [of a b] by (auto simp: constant_time_eq_def fold_diff_0)

subsection \<open>The dashboard's JWT\<close>

datatype rl_token_error = Malformed | BadSignature | Expired | WrongAudience | WrongIssuer

record jwt_header =
  jh_alg :: str
  jh_typ :: "str option"

record claims =
  cl_iss :: str
  cl_aud :: str
  cl_sub :: str
  cl_guild_id :: str
  cl_role_id :: str
  cl_exp :: int
  cl_read_only :: bool
  cl_act :: "str option"

record verified =
  v_discord_id :: str
  v_guild_id :: str
  v_role_id :: str
  v_read_only :: bool
  v_actor_id :: "str option"

definition header_from_json :: "json \<Rightarrow> jwt_header option" where
  "header_from_json v =
     Option.bind (struct_members [''alg'', ''typ''] v) (\<lambda>m.
     Option.bind (need as_str m ''alg'') (\<lambda>alg.
     Option.bind (opt as_str m ''typ'') (\<lambda>typ. Some \<lparr>jh_alg = alg, jh_typ = typ\<rparr>)))"

definition claims_from_json :: "json \<Rightarrow> claims option" where
  "claims_from_json v =
     Option.bind (struct_members [''iss'', ''aud'', ''sub'', ''guild_id'', ''role_id'', ''exp'', ''read_only'', ''act''] v) (\<lambda>m.
     Option.bind (need as_str m ''iss'') (\<lambda>iss.
     Option.bind (need as_str m ''aud'') (\<lambda>aud.
     Option.bind (need as_str m ''sub'') (\<lambda>sub.
     Option.bind (need as_str m ''guild_id'') (\<lambda>g.
     Option.bind (need as_str m ''role_id'') (\<lambda>r.
     Option.bind (need as_i64 m ''exp'') (\<lambda>e.
     Option.bind (dflt False as_bool m ''read_only'') (\<lambda>ro.
     Option.bind (opt as_str m ''act'') (\<lambda>act.
     Some \<lparr>cl_iss = iss, cl_aud = aud, cl_sub = sub, cl_guild_id = g, cl_role_id = r,
       cl_exp = e, cl_read_only = ro, cl_act = act\<rparr>)))))))))"

definition aud_matches :: "str \<Rightarrow> str \<Rightarrow> bool" where
  "aud_matches claim_aud expected \<longleftrightarrow>
     trim_end_matches (CHR ''/'') claim_aud = trim_end_matches (CHR ''/'') expected"

text \<open>\<open>claims.exp + ALLOWED_SKEW_SECS\<close>, which wraps in a release build.\<close>

definition exp_with_skew :: "int \<Rightarrow> int" where
  "exp_with_skew e = sint (word_of_int e + 60 :: 64 word)"

text \<open>The checks after the three parts have been decoded, in the order of the code.\<close>

definition typ_ok :: "str option \<Rightarrow> bool" where
  "typ_ok t \<longleftrightarrow> (case t of None \<Rightarrow> True | Some t \<Rightarrow> to_ascii_lowercase t = ''jwt'')"

definition verify_claims :: "int \<Rightarrow> str \<Rightarrow> claims \<Rightarrow> (rl_token_error, verified) result" where
  "verify_claims now expected_aud c =
     (if cl_iss c \<noteq> ''rolelogic'' then Inl WrongIssuer
      else if \<not> aud_matches (cl_aud c) expected_aud then Inl WrongAudience
      else if now > exp_with_skew (cl_exp c) then Inl Expired
      else Inr \<lparr>v_discord_id = cl_sub c, v_guild_id = cl_guild_id c, v_role_id = cl_role_id c,
                v_read_only = cl_read_only c, v_actor_id = cl_act c\<rparr>)"

definition verify :: "crypto \<Rightarrow> int \<Rightarrow> str \<Rightarrow> str \<Rightarrow> str \<Rightarrow> (rl_token_error, verified) result" where
  "verify K now token role_link_token expected_aud =
     (case splitn 3 (CHR ''.'') token of
        [header_b64, payload_b64, sig_b64] \<Rightarrow>
          try_bind (ok_or (b64_decode K header_b64) Malformed) (\<lambda>header_bytes.
          try_bind (ok_or (b64_decode K payload_b64) Malformed) (\<lambda>payload_bytes.
          try_bind (ok_or (b64_decode K sig_b64) Malformed) (\<lambda>sig_bytes.
          try_bind (ok_or (case json_struct K header_bytes of None \<Rightarrow> None
                           | Some v \<Rightarrow> header_from_json v) Malformed) (\<lambda>header.
          if jh_alg header \<noteq> ''HS256'' then Inl BadSignature
          else if \<not> typ_ok (jh_typ header) then Inl Malformed
          else if hmac K role_link_token (header_b64 @ ''.'' @ payload_b64) \<noteq> sig_bytes
          then Inl BadSignature
          else
          try_bind (ok_or (case json_struct K payload_bytes of None \<Rightarrow> None
                           | Some v \<Rightarrow> claims_from_json v) Malformed)
            (verify_claims now expected_aud)))))
      | _ \<Rightarrow> Inl Malformed)"

subsection \<open>The iframe session\<close>

definition iframe_prefix :: str where "iframe_prefix = ''ifs:''"
definition iframe_ttl_secs :: int where "iframe_ttl_secs = 60 * 60"
definition iframe_ro_ttl_secs :: int where "iframe_ro_ttl_secs = 15 * 60"

record iframe_session =
  is_discord_id :: str
  is_guild_id :: str
  is_role_id :: str
  is_read_only :: bool
  is_actor_id :: "str option"

text \<open>The parts joined by \<open>:\<close>, as the \<open>format!\<close> calls write them.\<close>

definition colon_join :: "str list \<Rightarrow> str" where
  "colon_join xs = str_join [colon] xs"

definition mint_iframe_session ::
  "crypto \<Rightarrow> int \<Rightarrow> str \<Rightarrow> str \<Rightarrow> str \<Rightarrow> bool \<Rightarrow> str option \<Rightarrow> str \<Rightarrow> str" where
  "mint_iframe_session K now discord_id guild_id role_id read_only actor_id secret =
     (let ttl = (if read_only then iframe_ro_ttl_secs else iframe_ttl_secs);
          expiry = now + ttl;
          ro = (if read_only then ''1'' else ''0'');
          act = filter (\<lambda>c. c \<noteq> colon) (unwrap_or actor_id []);
          payload = colon_join [discord_id, guild_id, role_id, ro, act, show_int expiry]
      in iframe_prefix @ payload @ [colon] @ mac_hex K secret payload)"

definition parse_ro :: "str \<Rightarrow> bool option" where
  "parse_ro s = (if s = ''0'' then Some False else if s = ''1'' then Some True else None)"

definition verify_iframe_session :: "crypto \<Rightarrow> int \<Rightarrow> str \<Rightarrow> str \<Rightarrow> iframe_session option" where
  "verify_iframe_session K now token secret =
     (case strip_prefix iframe_prefix token of
        None \<Rightarrow> None
      | Some rest \<Rightarrow>
          (case splitn 7 colon rest of
             [discord_id, guild_id, role_id, ro_str, act_str, exp_str, sig] \<Rightarrow>
               (case parse_ro ro_str of
                  None \<Rightarrow> None
                | Some read_only \<Rightarrow>
                    (case parse_i64 exp_str of
                       None \<Rightarrow> None
                     | Some expiry \<Rightarrow>
                         if now > expiry then None
                         else
                           (let payload = colon_join [discord_id, guild_id, role_id, ro_str, act_str, exp_str] in
                            if \<not> constant_time_eq sig (mac_hex K secret payload) then None
                            else Some \<lparr>is_discord_id = discord_id, is_guild_id = guild_id,
                              is_role_id = role_id, is_read_only = read_only,
                              is_actor_id = (if act_str \<noteq> [] then Some act_str else None)\<rparr>)))
           | _ \<Rightarrow> None))"

subsection \<open>The cookie session\<close>

definition verify_session :: "crypto \<Rightarrow> int \<Rightarrow> str \<Rightarrow> str \<Rightarrow> (str \<times> str) option" where
  "verify_session K now cookie_value secret =
     (case splitn 4 colon cookie_value of
        [discord_id, encoded_name, expires_str, sig] \<Rightarrow>
          (case parse_i64 expires_str of
             None \<Rightarrow> None
           | Some expires \<Rightarrow>
               if now > expires then None
               else (let payload = colon_join [discord_id, encoded_name, expires_str] in
                 if \<not> constant_time_eq sig (mac_hex K secret payload) then None
                 else (case url_decode K encoded_name of
                         None \<Rightarrow> None
                       | Some display_name \<Rightarrow> Some (discord_id, display_name))))
      | _ \<Rightarrow> None)"

subsection \<open>The picker session\<close>

definition dweeb_prefix :: str where "dweeb_prefix = ''dws:''"
definition dweeb_ttl_secs :: int where "dweeb_ttl_secs = 12 * 60 * 60"

record dweeb_session =
  ds_discord_id :: str
  ds_guild_id :: str

definition mint_dweeb_session :: "crypto \<Rightarrow> int \<Rightarrow> str \<Rightarrow> str \<Rightarrow> str \<Rightarrow> str" where
  "mint_dweeb_session K now discord_id guild_id secret =
     (let expiry = now + dweeb_ttl_secs;
          payload = colon_join [discord_id, guild_id, show_int expiry]
      in dweeb_prefix @ payload @ [colon] @ mac_hex K secret payload)"

definition verify_dweeb_session :: "crypto \<Rightarrow> int \<Rightarrow> str \<Rightarrow> str \<Rightarrow> dweeb_session option" where
  "verify_dweeb_session K now token secret =
     (case strip_prefix dweeb_prefix token of
        None \<Rightarrow> None
      | Some rest \<Rightarrow>
          (case splitn 4 colon rest of
             [discord_id, guild_id, exp_str, sig] \<Rightarrow>
               (case parse_i64 exp_str of
                  None \<Rightarrow> None
                | Some expiry \<Rightarrow>
                    if now > expiry then None
                    else (let payload = colon_join [discord_id, guild_id, exp_str] in
                      if \<not> constant_time_eq sig (mac_hex K secret payload) then None
                      else Some \<lparr>ds_discord_id = discord_id, ds_guild_id = guild_id\<rparr>))
           | _ \<Rightarrow> None))"

subsection \<open>What every verifier promises\<close>

text \<open>
  \<open>prefix\<close> is the credential's discriminator, \<open>mac\<close> the keyed hash of a payload, \<open>reads\<close>
  relates a payload to the session and the last instant it names.
\<close>

locale signed_session =
  fixes prefix :: str
    and mac :: "str \<Rightarrow> str"
    and reads :: "str \<Rightarrow> 's \<Rightarrow> int \<Rightarrow> bool"
    and accepts :: "int \<Rightarrow> str \<Rightarrow> 's option"
  assumes signed: "accepts now t = Some s \<Longrightarrow>
      \<exists>p e. t = prefix @ p @ [colon] @ mac p \<and> reads p s e \<and> now \<le> e"
    and accepted: "reads p s e \<Longrightarrow> now \<le> e \<Longrightarrow> accepts now (prefix @ p @ [colon] @ mac p) = Some s"
    and lapsed: "reads p s e \<Longrightarrow> e < now \<Longrightarrow> accepts now (prefix @ p @ [colon] @ mac p) = None"
begin

text \<open>An accepted credential is accepted as the same session up to one instant, and never after.\<close>

lemma validity_window:
  assumes "accepts now t = Some s"
  shows "\<exists>e \<ge> now. \<forall>now'. accepts now' t = (if now' \<le> e then Some s else None)"
proof -
  obtain p e where "t = prefix @ p @ [colon] @ mac p" "reads p s e" "now \<le> e"
    using signed assms by blast
  then have "accepts now' t = (if now' \<le> e then Some s else None)" for now'
    using accepted lapsed by auto
  then show ?thesis using \<open>now \<le> e\<close> by blast
qed

text \<open>Whoever knows the MACs of the issued payloads only is accepted as an issued session only.\<close>

lemma only_issued:
  assumes "accepts now t = Some s" and "\<And>p. t = prefix @ p @ [colon] @ mac p \<Longrightarrow> p \<in> issued"
  shows "\<exists>p \<in> issued. \<exists>e \<ge> now. reads p s e"
  using signed [OF assms(1)] assms(2) by blast

lemma accepts_prefix: "accepts now t = Some s \<Longrightarrow> \<exists>r. t = prefix @ r"
  using signed by blast

end

lemma colon_join_simps [simp]:
  "colon_join [a] = a" "colon_join (a # b # r) = a @ colon # colon_join (b # r)"
  by (simp_all add: colon_join_def)

lemma splitn_one [simp]: "splitn (Suc 0) c s = [s]"
  by (simp add: numeral_eq_Suc)

lemma splitn_Cons2_iff:
  "splitn (Suc (Suc n)) c s = a # b # ps \<longleftrightarrow>
     (\<exists>r. s = a @ c # r \<and> c \<notin> set a \<and> splitn (Suc n) c r = b # ps)"
  using splitn_Cons_D [of n c s a b ps] splitn_fields [of c a n] by auto

text \<open>The delimited texts the three verifiers take apart.\<close>

lemma splitn_4_iff:
  "splitn 4 colon s = [a, b, c, d] \<longleftrightarrow>
     s = colon_join [a, b, c] @ colon # d \<and> colon \<notin> set a \<and> colon \<notin> set b \<and> colon \<notin> set c"
  by (auto simp: eval_nat_numeral splitn_Cons2_iff simp del: splitn.simps(3) splitn_fields)

lemma splitn_7_iff:
  "splitn 7 colon s = [a, b, c, d, e, f, g] \<longleftrightarrow>
     s = colon_join [a, b, c, d, e, f] @ colon # g
     \<and> colon \<notin> set a \<and> colon \<notin> set b \<and> colon \<notin> set c \<and> colon \<notin> set d \<and> colon \<notin> set e \<and> colon \<notin> set f"
  by (auto simp: eval_nat_numeral splitn_Cons2_iff simp del: splitn.simps(3) splitn_fields)

subsection \<open>The three verifiers keep the promise\<close>

definition iframe_reads :: "str \<Rightarrow> iframe_session \<Rightarrow> int \<Rightarrow> bool" where
  "iframe_reads p s e \<longleftrightarrow>
     (\<exists>ro act ex. p = colon_join [is_discord_id s, is_guild_id s, is_role_id s, ro, act, ex]
        \<and> colon \<notin> set (is_discord_id s) \<and> colon \<notin> set (is_guild_id s) \<and> colon \<notin> set (is_role_id s)
        \<and> colon \<notin> set ro \<and> colon \<notin> set act \<and> colon \<notin> set ex
        \<and> parse_ro ro = Some (is_read_only s) \<and> parse_i64 ex = Some e
        \<and> is_actor_id s = (if act \<noteq> [] then Some act else None))"

definition cookie_reads :: "crypto \<Rightarrow> str \<Rightarrow> str \<times> str \<Rightarrow> int \<Rightarrow> bool" where
  "cookie_reads K p s e \<longleftrightarrow>
     (\<exists>enc ex. p = colon_join [fst s, enc, ex]
        \<and> colon \<notin> set (fst s) \<and> colon \<notin> set enc \<and> colon \<notin> set ex
        \<and> parse_i64 ex = Some e \<and> url_decode K enc = Some (snd s))"

definition dweeb_reads :: "str \<Rightarrow> dweeb_session \<Rightarrow> int \<Rightarrow> bool" where
  "dweeb_reads p s e \<longleftrightarrow>
     (\<exists>ex. p = colon_join [ds_discord_id s, ds_guild_id s, ex]
        \<and> colon \<notin> set (ds_discord_id s) \<and> colon \<notin> set (ds_guild_id s) \<and> colon \<notin> set ex
        \<and> parse_i64 ex = Some e)"

lemma iframe_signed:
  assumes "verify_iframe_session K now t secret = Some s"
  shows "\<exists>p e. t = iframe_prefix @ p @ [colon] @ mac_hex K secret p \<and> iframe_reads p s e \<and> now \<le> e"
proof -
  from assms obtain d g r ro act ex sig e where
    parts: "strip_prefix iframe_prefix t = Some (colon_join [d, g, r, ro, act, ex] @ colon # sig)"
      "colon \<notin> set d" "colon \<notin> set g" "colon \<notin> set r" "colon \<notin> set ro" "colon \<notin> set act" "colon \<notin> set ex"
    and e: "parse_i64 ex = Some e" "now \<le> e"
    and sig: "sig = mac_hex K secret (colon_join [d, g, r, ro, act, ex])"
    and s: "is_discord_id s = d" "is_guild_id s = g" "is_role_id s = r" "parse_ro ro = Some (is_read_only s)"
      "is_actor_id s = (if act \<noteq> [] then Some act else None)"
    by (auto simp: verify_iframe_session_def Let_def constant_time_eq_iff splitn_7_iff
        simp del: colon_join_simps split: option.splits list.splits if_splits)
  have "iframe_reads (colon_join [d, g, r, ro, act, ex]) s e"
    unfolding iframe_reads_def using parts(2-) e s by blast
  then show ?thesis using parts(1) sig e(2)
    by (intro exI [of _ "colon_join [d, g, r, ro, act, ex]"] exI [of _ e])
      (simp add: strip_prefix_Some_iff del: colon_join_simps)
qed

lemma iframe_accepts:
  assumes "iframe_reads p s e"
  shows "verify_iframe_session K now (iframe_prefix @ p @ [colon] @ mac_hex K secret p) secret =
    (if now \<le> e then Some s else None)"
proof -
  obtain ro act ex where p: "p = colon_join [is_discord_id s, is_guild_id s, is_role_id s, ro, act, ex]"
    and "splitn 7 colon (p @ colon # mac_hex K secret p) =
      [is_discord_id s, is_guild_id s, is_role_id s, ro, act, ex, mac_hex K secret p]"
    and "parse_ro ro = Some (is_read_only s)" "parse_i64 ex = Some e"
      "is_actor_id s = (if act \<noteq> [] then Some act else None)"
    using assms by (auto simp: iframe_reads_def splitn_7_iff)
  then show ?thesis
    by (cases s) (simp add: verify_iframe_session_def constant_time_eq_iff del: colon_join_simps)
qed

lemma cookie_signed:
  assumes "verify_session K now t secret = Some s"
  shows "\<exists>p e. t = p @ [colon] @ mac_hex K secret p \<and> cookie_reads K p s e \<and> now \<le> e"
proof -
  from assms obtain d enc ex sig e where
    parts: "t = colon_join [d, enc, ex] @ colon # sig"
      "colon \<notin> set d" "colon \<notin> set enc" "colon \<notin> set ex"
    and e: "parse_i64 ex = Some e" "now \<le> e"
    and sig: "sig = mac_hex K secret (colon_join [d, enc, ex])"
    and s: "fst s = d" "url_decode K enc = Some (snd s)"
    by (auto simp: verify_session_def Let_def constant_time_eq_iff splitn_4_iff
        simp del: colon_join_simps split: option.splits list.splits if_splits)
  have "cookie_reads K (colon_join [d, enc, ex]) s e"
    unfolding cookie_reads_def using parts(2-) e s by blast
  then show ?thesis using parts(1) sig e(2)
    by (intro exI [of _ "colon_join [d, enc, ex]"] exI [of _ e])
      (simp del: colon_join_simps)
qed

lemma cookie_accepts:
  assumes "cookie_reads K p s e"
  shows "verify_session K now (p @ [colon] @ mac_hex K secret p) secret = (if now \<le> e then Some s else None)"
proof -
  obtain enc ex where p: "p = colon_join [fst s, enc, ex]"
    and "splitn 4 colon (p @ colon # mac_hex K secret p) = [fst s, enc, ex, mac_hex K secret p]"
    and "url_decode K enc = Some (snd s)" "parse_i64 ex = Some e"
    using assms by (auto simp: cookie_reads_def splitn_4_iff)
  then show ?thesis
    by (cases s) (simp add: verify_session_def constant_time_eq_iff del: colon_join_simps)
qed

lemma dweeb_signed:
  assumes "verify_dweeb_session K now t secret = Some s"
  shows "\<exists>p e. t = dweeb_prefix @ p @ [colon] @ mac_hex K secret p \<and> dweeb_reads p s e \<and> now \<le> e"
proof -
  from assms obtain d g ex sig e where
    parts: "strip_prefix dweeb_prefix t = Some (colon_join [d, g, ex] @ colon # sig)"
      "colon \<notin> set d" "colon \<notin> set g" "colon \<notin> set ex"
    and e: "parse_i64 ex = Some e" "now \<le> e"
    and sig: "sig = mac_hex K secret (colon_join [d, g, ex])"
    and s: "ds_discord_id s = d" "ds_guild_id s = g"
    by (auto simp: verify_dweeb_session_def Let_def constant_time_eq_iff splitn_4_iff
        simp del: colon_join_simps split: option.splits list.splits if_splits)
  have "dweeb_reads (colon_join [d, g, ex]) s e"
    unfolding dweeb_reads_def using parts(2-) e s by blast
  then show ?thesis using parts(1) sig e(2)
    by (intro exI [of _ "colon_join [d, g, ex]"] exI [of _ e])
      (simp add: strip_prefix_Some_iff del: colon_join_simps)
qed

lemma dweeb_accepts:
  assumes "dweeb_reads p s e"
  shows "verify_dweeb_session K now (dweeb_prefix @ p @ [colon] @ mac_hex K secret p) secret =
    (if now \<le> e then Some s else None)"
proof -
  obtain ex where p: "p = colon_join [ds_discord_id s, ds_guild_id s, ex]"
    and "splitn 4 colon (p @ colon # mac_hex K secret p) =
      [ds_discord_id s, ds_guild_id s, ex, mac_hex K secret p]"
    and "parse_i64 ex = Some e"
    using assms by (auto simp: dweeb_reads_def splitn_4_iff)
  then show ?thesis
    by (cases s) (simp add: verify_dweeb_session_def constant_time_eq_iff del: colon_join_simps)
qed

interpretation iframe: signed_session iframe_prefix "mac_hex K secret" iframe_reads
    "\<lambda>now t. verify_iframe_session K now t secret" for K secret
  by unfold_locales (use iframe_signed iframe_accepts in auto)

interpretation cookie: signed_session "[]" "mac_hex K secret" "cookie_reads K"
    "\<lambda>now t. verify_session K now t secret" for K secret
  by unfold_locales (use cookie_signed cookie_accepts in auto)

interpretation dweeb: signed_session dweeb_prefix "mac_hex K secret" dweeb_reads
    "\<lambda>now t. verify_dweeb_session K now t secret" for K secret
  by unfold_locales (use dweeb_signed dweeb_accepts in auto)

subsection \<open>Minted tokens\<close>

lemma parse_i64_no_colon: "parse_i64 (show_int n) = Some e \<Longrightarrow> colon \<notin> set (show_int n)"
  by (simp add: colon_def)

lemma minted_iframe_reads:
  assumes "colon \<notin> set d" "colon \<notin> set g" "colon \<notin> set r" and "in_i64 e"
  shows "iframe_reads (colon_join [d, g, r, if ro then ''1'' else ''0'',
      filter (\<lambda>c. c \<noteq> colon) a, show_int e])
    \<lparr>is_discord_id = d, is_guild_id = g, is_role_id = r, is_read_only = ro,
     is_actor_id = (let act = filter (\<lambda>c. c \<noteq> colon) a in if act \<noteq> [] then Some act else None)\<rparr> e"
  unfolding iframe_reads_def using assms
  by (intro exI [of _ "if ro then ''1'' else ''0''"] exI [of _ "filter (\<lambda>c. c \<noteq> colon) a"] exI [of _ "show_int e"])
    (simp add: parse_ro_def colon_def)

lemma minted_dweeb_reads:
  assumes "colon \<notin> set d" "colon \<notin> set g" and "in_i64 e"
  shows "dweeb_reads (colon_join [d, g, show_int e]) \<lparr>ds_discord_id = d, ds_guild_id = g\<rparr> e"
  unfolding dweeb_reads_def using assms by (intro exI [of _ "show_int e"]) (simp add: colon_def)

lemma verify_Inr:
  assumes "verify K now token secret aud = Inr v"
  shows "\<exists>h p sg hb pb sb hj pj hd c.
    splitn 3 (CHR ''.'') token = [h, p, sg]
    \<and> b64_decode K h = Some hb \<and> b64_decode K p = Some pb \<and> b64_decode K sg = Some sb
    \<and> json_struct K hb = Some hj \<and> header_from_json hj = Some hd \<and> jh_alg hd = ''HS256''
    \<and> sb = hmac K secret (h @ ''.'' @ p)
    \<and> json_struct K pb = Some pj \<and> claims_from_json pj = Some c
    \<and> verify_claims now aud c = Inr v"
proof -
  from assms obtain h p sg where parts: "splitn 3 (CHR ''.'') token = [h, p, sg]"
    by (auto simp: verify_def split: list.splits)
  from assms show ?thesis
    by (auto simp: verify_def parts try_bind_Inr_iff ok_or_Inr_iff split: option.splits if_splits)
qed

lemma verify_claims_Inr:
  "verify_claims now aud c = Inr v \<longleftrightarrow>
     cl_iss c = ''rolelogic'' \<and> aud_matches (cl_aud c) aud \<and> now \<le> exp_with_skew (cl_exp c)
     \<and> v = \<lparr>v_discord_id = cl_sub c, v_guild_id = cl_guild_id c, v_role_id = cl_role_id c,
            v_read_only = cl_read_only c, v_actor_id = cl_act c\<rparr>"
  by (auto simp: verify_claims_def)

lemma exp_with_skew_exact:
  assumes "in_i64 e" and "e + 60 \<le> i64_max"
  shows "exp_with_skew e = e + 60"
proof -
  have "(word_of_int e + 60 :: 64 word) = word_of_int (e + 60)" by simp
  then have "sint (word_of_int e + 60 :: 64 word) = sint (word_of_int (e + 60) :: 64 word)" by (rule arg_cong)
  also have "\<dots> = e + 60"
    unfolding sint_sbintrunc' using assms by (intro signed_take_bit_int_eq_self) (simp_all add: in_i64_def)
  finally show ?thesis by (simp add: exp_with_skew_def)
qed

text \<open>A minted token, within its lifetime and after it.\<close>

lemma minted_session_verifies:
  assumes "colon \<notin> set d" "colon \<notin> set g" "colon \<notin> set r"
    and "in_i64 (now + (if ro then 900 else 3600))"
  shows "verify_iframe_session K later (mint_iframe_session K now d g r ro actor secret) secret =
    (if later \<le> now + (if ro then 900 else 3600) then
       Some \<lparr>is_discord_id = d, is_guild_id = g, is_role_id = r, is_read_only = ro,
         is_actor_id = (let act = filter (\<lambda>c. c \<noteq> colon) (unwrap_or actor []) in
                        if act \<noteq> [] then Some act else None)\<rparr>
     else None)"
  using iframe_accepts [OF minted_iframe_reads [OF assms, of ro "unwrap_or actor []"], of K later secret]
  unfolding mint_iframe_session_def Let_def iframe_ttl_secs_def iframe_ro_ttl_secs_def
  by (simp del: colon_join_simps cong: if_cong)

text \<open>A concrete instance of the cryptographic parameters, for examples.\<close>

definition sample_crypto :: crypto where
  "sample_crypto = \<lparr>hmac = (\<lambda>key msg. key @ ''/'' @ rev msg), hex = (\<lambda>s. s), url_decode = Some,
     b64_decode = Some,
     json_struct = (\<lambda>s. if s = ''h'' then Some (JObj [(''alg'', JStr ''HS256'')])
       else if s = ''p'' then Some (JObj [(''aud'', JStr ''https://p/''), (''exp'', JNum (PosInt 100)),
         (''guild_id'', JStr ''g''), (''iss'', JStr ''rolelogic''), (''read_only'', JBool True),
         (''role_id'', JStr ''r''), (''sub'', JStr ''u'')])
       else None)\<rparr>"

subsection \<open>Properties\<close>

text \<open>An accepted iframe session is exactly a signed payload with the \<open>ifs:\<close> prefix that
  has not expired: the token carries the MAC of all six fields, so the guild, the role, the
  read-only flag and the actor are the ones that were signed; and such a token is accepted.\<close>

lemma iframe_session_exact:
  "verify_iframe_session K now t secret = Some s \<longleftrightarrow>
     (\<exists>p e. t = iframe_prefix @ p @ [colon] @ mac_hex K secret p \<and> iframe_reads p s e \<and> now \<le> e)"
  using iframe.signed [of K now t secret s] iframe.accepted [of _ s _ now K secret] by blast

text \<open>C27: what the page mints the API accepts: a fresh token verifies as the session it was
  minted for, read-only flag and actor included, up to its lifetime (fifteen minutes read-only, an
  hour otherwise) and never after.\<close>

theorem iframe_session_roundtrip:
  assumes "colon \<notin> set d" "colon \<notin> set g" "colon \<notin> set r"
    and "in_i64 (now + (if ro then 900 else 3600))"
  shows "verify_iframe_session K later (mint_iframe_session K now d g r ro actor secret) secret =
    (if later \<le> now + (if ro then 900 else 3600) then
       Some \<lparr>is_discord_id = d, is_guild_id = g, is_role_id = r, is_read_only = ro,
         is_actor_id = (let act = filter (\<lambda>c. c \<noteq> colon) (unwrap_or actor []) in
                        if act \<noteq> [] then Some act else None)\<rparr>
     else None)"
  by (rule minted_session_verifies [OF assms])

theorem iframe_session_roundtrip_witness:
  "verify_iframe_session sample_crypto 1000 (mint_iframe_session sample_crypto 100 ''u'' ''g'' ''r'' True (Some ''dev'') ''k'') ''k''
     = Some \<lparr>is_discord_id = ''u'', is_guild_id = ''g'', is_role_id = ''r'', is_read_only = True,
         is_actor_id = Some ''dev''\<rparr>"
  using iframe_session_roundtrip [of "''u''" "''g''" "''r''" 100 True sample_crypto 1000 "Some ''dev''" "''k''"]
  by (simp add: colon_def in_i64_def)

text \<open>C28: a JWT is accepted only with the signature of its first two parts under the link's own
  token, the algorithm HS256, RoleLogic as issuer, this plugin as audience and, short of the
  wrap-around of its expiry, at most a minute after it; the identity returned is the one signed.\<close>

theorem verify_sound:
  assumes "verify K now token secret aud = Inr v"
  shows "\<exists>h p sg pb pj c.
    splitn 3 (CHR ''.'') token = [h, p, sg]
    \<and> b64_decode K sg = Some (hmac K secret (h @ ''.'' @ p))
    \<and> b64_decode K p = Some pb \<and> json_struct K pb = Some pj \<and> claims_from_json pj = Some c
    \<and> cl_iss c = ''rolelogic'' \<and> aud_matches (cl_aud c) aud
    \<and> (in_i64 (cl_exp c) \<and> in_i64 (cl_exp c + 60) \<longrightarrow> now \<le> cl_exp c + 60)
    \<and> v = \<lparr>v_discord_id = cl_sub c, v_guild_id = cl_guild_id c, v_role_id = cl_role_id c,
           v_read_only = cl_read_only c, v_actor_id = cl_act c\<rparr>"
proof -
  obtain h p sg pb sb pj c where "splitn 3 (CHR ''.'') token = [h, p, sg]"
    "b64_decode K p = Some pb" "b64_decode K sg = Some sb" "sb = hmac K secret (h @ ''.'' @ p)"
    "json_struct K pb = Some pj" "claims_from_json pj = Some c" "verify_claims now aud c = Inr v"
    using verify_Inr [OF assms] by blast
  then show ?thesis
    using exp_with_skew_exact [of "cl_exp c"] by (auto simp: verify_claims_Inr in_i64_def)
qed

lemma sample_jwt:
  "verify sample_crypto 150 (''h.p.'' @ ''k'' @ ''/p.h'') ''k'' ''https://p'' =
     Inr \<lparr>v_discord_id = ''u'', v_guild_id = ''g'', v_role_id = ''r'', v_read_only = True, v_actor_id = None\<rparr>"
  by code_simp

theorem verify_sound_witness:
  "\<exists>h p sg. splitn 3 (CHR ''.'') (''h.p.'' @ ''k'' @ ''/p.h'') = [h, p, sg]
     \<and> b64_decode sample_crypto sg = Some (hmac sample_crypto ''k'' (h @ ''.'' @ p))"
  using verify_sound [OF sample_jwt] by blast

text \<open>The prefix of a picker token is not signed: any session cookie, prefixed, is accepted
  as a picker token whose guild is the cookie's (encoded) display name. A user whose display name is
  a guild id thus holds a picker token for that guild.\<close>

lemma cookie_is_picker_token:
  assumes "verify_session K now (colon_join [d, name, ex] @ [colon] @ sig) secret = Some s"
    and "colon \<notin> set d" "colon \<notin> set name" "colon \<notin> set ex"
  shows "verify_dweeb_session K now (dweeb_prefix @ colon_join [d, name, ex] @ [colon] @ sig) secret
    = Some \<lparr>ds_discord_id = d, ds_guild_id = name\<rparr>"
proof -
  have p: "splitn 4 colon (colon_join [d, name, ex] @ colon # sig) = [d, name, ex, sig]"
    using assms(2-) splitn_4_iff by blast
  then show ?thesis using assms(1)
    by (auto simp: verify_session_def verify_dweeb_session_def Let_def
        simp del: colon_join_simps split: option.splits if_splits)
qed

end
