(* ===== verification/Guard.thy ===== *)
theory Guard
  imports Tokens AppErr
begin

text \<open>
  The checks around every request: \<open>services/csrf.rs\<close> (the origin of state-changing requests),
  \<open>services/read_only_guard.rs\<close> (no writes under a read-only session) and
  \<open>services/security_headers.rs\<close> (the default response headers). A handler is a function from
  a request to a response, and a middleware wraps one.
\<close>

text \<open>Header names are lower-case, as \<open>http\<close> stores them; the query is the raw text.\<close>

record request =
  rq_method :: str
  rq_query :: "str option"
  rq_headers :: "(str \<times> str) list"

type_synonym handler = "request \<Rightarrow> response"

text \<open>\<open>HeaderValue::to_str\<close> fails outside visible ASCII and tab.\<close>

definition visible_ascii :: "char \<Rightarrow> bool" where
  "visible_ascii c \<longleftrightarrow> (let n = (of_char c :: nat) in 32 \<le> n \<and> n < 127 \<or> n = 9)"

definition header_str :: "request \<Rightarrow> str \<Rightarrow> str option" where
  "header_str rq name = (case map_of (rq_headers rq) name of
       None \<Rightarrow> None
     | Some v \<Rightarrow> if list_all visible_ascii v then Some v else None)"

subsection \<open>Origin\<close>

definition slash :: char where "slash = CHR ''/''"

definition verify_origin :: "request \<Rightarrow> str list \<Rightarrow> unit app_result" where
  "verify_origin rq allowed_origins =
     try_bind (ok_or (header_str rq ''origin'')
         (EForbidden ''State-changing requests must include an Origin header.'')) (\<lambda>origin.
       let origin_norm = trim_end_matches slash origin in
       if list_ex (\<lambda>allowed. origin_norm = trim_end_matches slash allowed) allowed_origins then Inr ()
       else Inl (EForbidden (''Origin '' @ CHR 0x27 # origin @ CHR 0x27 #
              '' is not allowed for state-changing requests.'')))"

lemma verify_origin_Inr:
  "verify_origin rq allowed = Inr () \<longleftrightarrow>
     (\<exists>o'. header_str rq ''origin'' = Some o'
        \<and> (\<exists>a \<in> set allowed. trim_end_matches slash o' = trim_end_matches slash a))"
  by (auto simp: verify_origin_def try_bind_Inr_iff ok_or_Inr_iff Let_def list_ex_iff split: if_splits)

lemma takeWhile_eq_replicate: "takeWhile (\<lambda>x. x = c) xs = replicate (length (takeWhile (\<lambda>x. x = c) xs)) c"
  by (induction xs) auto

lemma trim_end_matches_split: "\<exists>n. s = trim_end_matches c s @ replicate n c"
proof -
  have "rev (rev s) = rev (takeWhile (\<lambda>x. x = c) (rev s) @ dropWhile (\<lambda>x. x = c) (rev s))"
    by (simp only: takeWhile_dropWhile_id)
  then have "s = trim_end_matches c s @ rev (takeWhile (\<lambda>x. x = c) (rev s))"
    by (simp only: trim_end_matches_def rev_append rev_rev_ident)
  then show ?thesis by (metis takeWhile_eq_replicate rev_replicate)
qed

lemma trim_end_matches_append [simp]: "trim_end_matches c (s @ replicate n c) = trim_end_matches c s"
  by (simp add: trim_end_matches_def dropWhile_append3 dropWhile_append)

text \<open>An accepted origin is one of the list's, up to slashes at the end.\<close>

lemma verify_origin_exact:
  assumes "verify_origin rq allowed = Inr ()"
  shows "\<exists>o' a m n. header_str rq ''origin'' = Some o' \<and> a \<in> set allowed
    \<and> o' @ replicate m slash = a @ replicate n slash"
proof -
  obtain o' a where oa: "header_str rq ''origin'' = Some o'" "a \<in> set allowed"
    and eq: "trim_end_matches slash o' = trim_end_matches slash a"
    using assms verify_origin_Inr by blast
  obtain i j where i: "o' = trim_end_matches slash a @ replicate i slash"
    and j: "a = trim_end_matches slash a @ replicate j slash"
    using trim_end_matches_split [of o' slash] trim_end_matches_split [of a slash] eq by auto
  have "o' @ replicate j slash = trim_end_matches slash a @ replicate (i + j) slash"
    by (subst i) (simp add: replicate_add)
  also have "\<dots> = a @ replicate i slash"
    by (subst (2) j) (simp add: replicate_add [symmetric] add.commute)
  finally show ?thesis using oa by blast
qed

subsection \<open>The read-only guard\<close>

text \<open>The first pair of the query with this name whose value decodes.\<close>

fun find_param :: "crypto \<Rightarrow> str \<Rightarrow> str list \<Rightarrow> str option" where
  "find_param K name [] = None"
| "find_param K name (pair # rest) =
     (case (case split_once (CHR ''='') pair of
              None \<Rightarrow> None
            | Some (k, v) \<Rightarrow> if k = name then url_decode K v else None) of
        Some x \<Rightarrow> Some x
      | None \<Rightarrow> find_param K name rest)"

definition query_param :: "crypto \<Rightarrow> str \<Rightarrow> str \<Rightarrow> str option" where
  "query_param K query name = find_param K name (split_on (CHR ''&'') query)"

definition bearer_token :: "request \<Rightarrow> str option" where
  "bearer_token rq = (case header_str rq ''authorization'' of
       None \<Rightarrow> None | Some v \<Rightarrow> strip_prefix ''Bearer '' v)"

definition read_only_session_on :: "crypto \<Rightarrow> int \<Rightarrow> request \<Rightarrow> str \<Rightarrow> iframe_session option" where
  "read_only_session_on K now rq secret =
     (case (case bearer_token rq of
              Some t \<Rightarrow> Some t
            | None \<Rightarrow> (case rq_query rq of None \<Rightarrow> None | Some q \<Rightarrow> query_param K q ''ifs'')) of
        None \<Rightarrow> None
      | Some token \<Rightarrow>
          (case verify_iframe_session K now token secret of
             None \<Rightarrow> None
           | Some session \<Rightarrow> if is_read_only session then Some session else None))"

definition read_only_refusal :: response where
  "read_only_refusal = error_response 403 ''This view is read-only while impersonating a user.''"

definition safe_methods :: "str list" where
  "safe_methods = [''GET'', ''HEAD'', ''OPTIONS'']"

definition block_read_only_writes :: "crypto \<Rightarrow> int \<Rightarrow> str \<Rightarrow> handler \<Rightarrow> handler" where
  "block_read_only_writes K now secret next_run rq =
     (if rq_method rq \<in> set safe_methods then next_run rq
      else (case read_only_session_on K now rq secret of
              Some _ \<Rightarrow> read_only_refusal
            | None \<Rightarrow> next_run rq))"

lemma bearer_read_only:
  "bearer_token rq = Some t \<Longrightarrow> verify_iframe_session K now t secret = Some s \<Longrightarrow>
     read_only_session_on K now rq secret = (if is_read_only s then Some s else None)"
  by (simp add: read_only_session_on_def)

text \<open>A bearer value of any kind hides the query's session from the guard.\<close>

lemma bearer_hides_query:
  "bearer_token rq = Some t \<Longrightarrow> verify_iframe_session K now t secret = None \<Longrightarrow>
     read_only_session_on K now rq secret = None"
  by (simp add: read_only_session_on_def)

subsection \<open>Response headers\<close>

definition public_page_csp :: str where "public_page_csp = ''frame-ancestors '' @ CHR 0x27 # ''none'' @ [CHR 0x27]"

definition admin_iframe_csp :: "str option \<Rightarrow> str" where
  "admin_iframe_csp dashboard_origin = ''frame-ancestors '' @ unwrap_or dashboard_origin ''*''"

definition or_insert :: "str \<Rightarrow> str \<Rightarrow> (str \<times> str) list \<Rightarrow> (str \<times> str) list" where
  "or_insert name v hs = (if name \<in> fst ` set hs then hs else hs @ [(name, v)])"

definition baseline_headers :: "(str \<times> str) list \<Rightarrow> (str \<times> str) list" where
  "baseline_headers h =
     or_insert ''strict-transport-security'' ''max-age=31536000; includeSubDomains''
       (or_insert ''referrer-policy'' ''strict-origin-when-cross-origin''
         (or_insert ''x-content-type-options'' ''nosniff''
           (or_insert ''content-security-policy'' public_page_csp h)))"

definition baseline :: "handler \<Rightarrow> handler" where
  "baseline next_run rq = (let resp = next_run rq in resp \<lparr>r_headers := baseline_headers (r_headers resp)\<rparr>)"

lemma or_insert_keeps: "map_of hs k = Some v \<Longrightarrow> map_of (or_insert name x hs) k = Some v"
  by (simp add: or_insert_def map_add_Some_iff)

lemma or_insert_sets: "map_of (or_insert name x hs) name = Some (unwrap_or (map_of hs name) x)"
proof (cases "map_of hs name")
  case None
  then have "name \<notin> fst ` set hs" by (simp add: map_of_eq_None_iff)
  then show ?thesis using None by (simp add: or_insert_def map_add_def)
next
  case (Some v)
  then have "name \<in> fst ` set hs" by (metis map_of_eq_None_iff option.distinct(1))
  then show ?thesis using Some by (simp add: or_insert_def)
qed

lemma or_insert_other: "k \<noteq> name \<Longrightarrow> map_of (or_insert name x hs) k = map_of hs k"
  by (simp add: or_insert_def map_add_def split: option.splits)

lemma or_insert_map: "map_of (or_insert name x hs) = (\<lambda>k. if k = name then Some (unwrap_or (map_of hs k) x) else map_of hs k)"
  by (auto simp: fun_eq_iff or_insert_sets or_insert_other)

definition sample_request :: "str \<Rightarrow> (str \<times> str) list \<Rightarrow> str option \<Rightarrow> request" where
  "sample_request m hs q = \<lparr>rq_method = m, rq_query = q, rq_headers = hs\<rparr>"

definition sample_handler :: handler where
  "sample_handler rq = json_response 200 [(''method'', JStr (rq_method rq))]"

definition sample_token :: str where
  "sample_token = mint_iframe_session sample_crypto 100 ''u'' ''g'' ''r'' True None ''k''"

subsection \<open>Properties\<close>

text \<open>A state-changing request passes the origin check exactly when it has a readable
  \<open>Origin\<close> that is one of the allowed ones up to slashes at the end (no prefix, suffix or
  subdomain matches), and every refusal is a 403.\<close>

lemma verify_origin_exact_match:
  "(verify_origin rq allowed = Inr () \<longleftrightarrow>
      (\<exists>o' a m n. header_str rq ''origin'' = Some o' \<and> a \<in> set allowed
         \<and> o' @ replicate m slash = a @ replicate n slash))
   \<and> (case verify_origin rq allowed of Inl e \<Rightarrow> r_status (into_response e) = 403 | Inr _ \<Rightarrow> True)"
proof
  show "verify_origin rq allowed = Inr () \<longleftrightarrow>
      (\<exists>o' a m n. header_str rq ''origin'' = Some o' \<and> a \<in> set allowed
         \<and> o' @ replicate m slash = a @ replicate n slash)"
    using verify_origin_exact verify_origin_Inr trim_end_matches_append by metis
  show "case verify_origin rq allowed of Inl e \<Rightarrow> r_status (into_response e) = 403 | Inr _ \<Rightarrow> True"
    by (cases "header_str rq ''origin''") (simp_all add: verify_origin_def Let_def response_defs)
qed

text \<open>While a read-only session lives, no request that carries it as its bearer token reaches
  a handler with any method but the safe ones: the guard answers 403, whatever the handler does.\<close>

lemma read_only_session_never_writes:
  assumes "bearer_token rq = Some (mint_iframe_session K now d g r True actor secret)"
    and "rq_method rq \<notin> set safe_methods" and "later \<le> now + 900"
    and "colon \<notin> set d" "colon \<notin> set g" "colon \<notin> set r" "in_i64 (now + 900)"
  shows "block_read_only_writes K later secret h rq = read_only_refusal"
proof -
  have "verify_iframe_session K later (mint_iframe_session K now d g r True actor secret) secret =
      Some \<lparr>is_discord_id = d, is_guild_id = g, is_role_id = r, is_read_only = True,
        is_actor_id = (let act = filter (\<lambda>c. c \<noteq> colon) (unwrap_or actor []) in if act \<noteq> [] then Some act else None)\<rparr>"
    using minted_session_verifies [of d g r now True K later actor secret] assms(3-7) by simp
  from bearer_read_only [OF assms(1) this] show ?thesis using assms(2) by (simp add: block_read_only_writes_def)
qed

text \<open>The guard looks at one credential only: with a bearer value that does not verify, a
  read-only session in the query is not noticed and the write goes through to the handler.\<close>

lemma bearer_hides_query_session:
  assumes "bearer_token rq = Some t" and "verify_iframe_session K now t secret = None"
  shows "block_read_only_writes K now secret h rq = h rq"
  using bearer_hides_query [OF assms] by (simp add: block_read_only_writes_def)

text \<open>Every response carries the four baseline headers, a header the handler set itself keeps
  its value, and no other header, nor status or body, is touched.\<close>

lemma baseline_headers_map:
  "map_of (baseline_headers hs) =
     (\<lambda>k. case map_of hs k of
        Some v \<Rightarrow> Some v
      | None \<Rightarrow> map_of [(''content-security-policy'', public_page_csp), (''x-content-type-options'', ''nosniff''),
          (''referrer-policy'', ''strict-origin-when-cross-origin''),
          (''strict-transport-security'', ''max-age=31536000; includeSubDomains'')] k)"
  by (auto simp: baseline_headers_def fun_eq_iff or_insert_map split: option.split)

lemma baseline_headers_exact:
  "map_of (r_headers (baseline h rq)) = map_of (baseline_headers (r_headers (h rq)))
   \<and> r_status (baseline h rq) = r_status (h rq) \<and> r_body (baseline h rq) = r_body (h rq)"
  by (simp add: baseline_def Let_def)

end
