(* ===== verification/Store.thy ===== *)
theory Store
  imports AppErr "HOL-Library.Word"
begin

text \<open>
  The state the server shares: the tables of the migrations as lists of rows, the clock, and the
  requests it has sent. An effectful function is an action on this world with an application error
  or a result. A SQL statement may fail as the environment decides at each tick; a failed
  transaction leaves the tables as they were. An HTTP reply is the environment's choice at each
  tick. Instants are nanoseconds since the epoch.
\<close>

subsection \<open>Rows\<close>

text \<open>The columns the code reads. \<open>db_settings\<close> is \<open>guild_settings\<close>: the view permission of a guild. \<open>db_backfills\<close> are the names of the one-time backfills that ran.\<close>

record role_link =
  rl_guild_id :: str
  rl_role_id :: str
  rl_api_token :: str
  rl_form_id :: "str option"
  rl_grant_on_any :: bool
  rl_conditions :: json

record role_assignment =
  ra_guild_id :: str
  ra_role_id :: str
  ra_discord_id :: str

record form_row =
  fm_id :: str
  fm_guild_id :: str
  fm_slug :: str
  fm_title :: str
  fm_description :: str
  fm_version :: int
  fm_schema :: json
  fm_is_quiz :: bool
  fm_open_at :: "int option"
  fm_close_at :: "int option"
  fm_allow_edits :: bool
  fm_single_submission :: bool
  fm_require_verified :: bool
  fm_min_account_age_days :: int
  fm_success_message :: str
  fm_preview_token :: str
  fm_webhook_url :: "str option"
  fm_archived :: bool
  fm_passing_score :: "int option"
  fm_max_attempts :: int
  fm_retry_cooldown_seconds :: int
  fm_retry_policy :: str
  fm_lock_on_pass :: bool
  fm_updated_at :: int

record response_row =
  fr_id :: str
  fr_form_id :: str
  fr_guild_id :: str
  fr_discord_id :: str
  fr_answers :: json
  fr_total_score :: "int option"
  fr_submitted_at :: int
  fr_last_edited_at :: int
  fr_schema_version :: int
  fr_attempt_count :: int
  fr_passed :: "bool option"

datatype job_status = Pending | InProgress | Completed | Dead

record job_row =
  jr_id :: int
  jr_kind :: str
  jr_payload :: json
  jr_status :: job_status
  jr_attempts :: int
  jr_max_attempts :: int
  jr_next_run_at :: int
  jr_last_error :: "str option"
  jr_locked_by :: "str option"
  jr_locked_at :: "int option"
  jr_completed_at :: "int option"

record job_table =
  jt_next_id :: int
  jt_rows :: "job_row list"

record db =
  db_role_links :: "role_link list"
  db_assignments :: "role_assignment list"
  db_forms :: "form_row list"
  db_responses :: "response_row list"
  db_jobs :: job_table
  db_settings :: "(str \<times> str) list"
  db_backfills :: "str list"

definition empty_db :: db where
  "empty_db = \<lparr>db_role_links = [], db_assignments = [], db_forms = [], db_responses = [],
     db_jobs = \<lparr>jt_next_id = 1, jt_rows = []\<rparr>, db_settings = [],
     db_backfills = []\<rparr>"

subsection \<open>The world and its environment\<close>

record http_request =
  hr_method :: str
  hr_url :: str
  hr_query :: "(str \<times> str) list"
  hr_headers :: "(str \<times> str) list"
  hr_body :: json

datatype http_reply =
    HttpFailed str  \<comment> \<open>no response: the transport error's text\<close>
  | HttpReply nat str  \<comment> \<open>status and body text\<close>

text \<open>
  \<open>parse_json\<close> reads a body text (serde), \<open>status_text\<close> prints a status line as \<open>reqwest\<close>
  does.
\<close>

record env =
  e_crates :: crates
  e_http :: "nat \<Rightarrow> http_request \<Rightarrow> http_reply"
  e_db_fault :: "nat \<Rightarrow> db_error option"
  e_parse_json :: "str \<Rightarrow> json option"
  e_json_error :: "str \<Rightarrow> str"
  e_status_text :: "nat \<Rightarrow> str"
  e_jitter_ms :: "nat \<Rightarrow> int"

text \<open>
  \<open>w_sent\<close> lists the requests the program hands to its HTTP clients, \<open>w_wire\<close> what the client of
  the webhooks makes of its own: every request it puts on the wire, with the address it goes to.
\<close>

datatype ip = V4 "32 word" | V6 "128 word"

record world =
  w_db :: db
  w_now :: int
  w_tick :: nat
  w_sent :: "http_request list"
  w_wire :: "(http_request \<times> ip) list"

type_synonym 'a act = "world \<Rightarrow> 'a app_result \<times> world"

definition act_ok :: "'a \<Rightarrow> 'a act" where "act_ok x w = (Inr x, w)"
definition act_fail :: "app_error \<Rightarrow> 'a act" where "act_fail e w = (Inl e, w)"

definition act_bind :: "'a act \<Rightarrow> ('a \<Rightarrow> 'b act) \<Rightarrow> 'b act" where
  "act_bind m f w = (case m w of (Inl e, w') \<Rightarrow> (Inl e, w') | (Inr x, w') \<Rightarrow> f x w')"

text \<open>\<open>match m.await\<close> with an arm for each outcome.\<close>

definition act_match :: "'a act \<Rightarrow> ('a \<Rightarrow> 'b act) \<Rightarrow> (app_error \<Rightarrow> 'b act) \<Rightarrow> 'b act" where
  "act_match m f h w = (case m w of (Inl e, w') \<Rightarrow> h e w' | (Inr x, w') \<Rightarrow> f x w')"

text \<open>One SQL statement: the environment may fail it, a constraint of the tables too.\<close>

definition db_stmt :: "env \<Rightarrow> (db \<Rightarrow> (db_error, 'a \<times> db) result) \<Rightarrow> 'a act" where
  "db_stmt E f w =
     (let w' = w\<lparr>w_tick := w_tick w + 1\<rparr> in
      case e_db_fault E (w_tick w) of
        Some e \<Rightarrow> (Inl (EDatabase e), w')
      | None \<Rightarrow> (case f (w_db w) of
            Inl e \<Rightarrow> (Inl (EDatabase e), w')
          | Inr (x, d) \<Rightarrow> (Inr x, w'\<lparr>w_db := d\<rparr>)))"

definition db_query :: "env \<Rightarrow> (db \<Rightarrow> 'a) \<Rightarrow> 'a act" where
  "db_query E f = db_stmt E (\<lambda>d. Inr (f d, d))"

definition db_exec :: "env \<Rightarrow> (db \<Rightarrow> db) \<Rightarrow> unit act" where
  "db_exec E f = db_stmt E (\<lambda>d. Inr ((), f d))"

text \<open>\<open>begin\<close> \<dots> \<open>commit\<close>: the commit is a statement of its own, and an error anywhere rolls back.\<close>

definition db_transaction :: "env \<Rightarrow> 'a act \<Rightarrow> 'a act" where
  "db_transaction E m w =
     (case act_bind (db_query E (\<lambda>_. ())) (\<lambda>_. act_bind m (\<lambda>x. act_bind (db_query E (\<lambda>_. ())) (\<lambda>_. act_ok x))) w of
        (Inl e, w') \<Rightarrow> (Inl e, w'\<lparr>w_db := w_db w\<rparr>)
      | (Inr x, w') \<Rightarrow> (Inr x, w'))"

definition http_send :: "env \<Rightarrow> http_request \<Rightarrow> world \<Rightarrow> http_reply \<times> world" where
  "http_send E rq w = (e_http E (w_tick w) rq, w\<lparr>w_tick := w_tick w + 1, w_sent := w_sent w @ [rq]\<rparr>)"

subsection \<open>Laws of the actions\<close>

lemma act_ok_simp [simp]: "act_ok x w = (Inr x, w)" by (simp add: act_ok_def)
lemma act_fail_simp [simp]: "act_fail e w = (Inl e, w)" by (simp add: act_fail_def)

lemma act_bind_Inr:
  "act_bind m f w = (Inr y, w') \<longleftrightarrow> (\<exists>x w1. m w = (Inr x, w1) \<and> f x w1 = (Inr y, w'))"
  by (auto simp: act_bind_def split: prod.splits sum.splits)

lemma act_bind_run: "m w = (Inr x, w1) \<Longrightarrow> act_bind m f w = f x w1"
  by (simp add: act_bind_def)

lemma act_bind_run_error: "m w = (Inl e, w1) \<Longrightarrow> act_bind m f w = (Inl e, w1)"
  by (simp add: act_bind_def)

text \<open>\<open>keeps P m\<close>: the action preserves a property of the world, whatever its outcome.\<close>

definition keeps :: "(world \<Rightarrow> bool) \<Rightarrow> 'a act \<Rightarrow> bool" where
  "keeps P m \<longleftrightarrow> (\<forall>w. P w \<longrightarrow> P (snd (m w)))"

lemma keepsI: "(\<And>w. P w \<Longrightarrow> P (snd (m w))) \<Longrightarrow> keeps P m"
  by (simp add: keeps_def)

lemma keepsD: "keeps P m \<Longrightarrow> P w \<Longrightarrow> P (snd (m w))"
  by (simp add: keeps_def)

lemma keeps_ok [simp, intro]: "keeps P (act_ok x)"
  by (simp add: keeps_def)

lemma keeps_fail [simp, intro]: "keeps P (act_fail e)"
  by (simp add: keeps_def)

lemma keeps_Pair [simp]: "keeps P (Pair x)"
  by (simp add: keeps_def)

lemma keeps_bind [intro]:
  assumes "keeps P m" and "\<And>x. keeps P (f x)"
  shows "keeps P (act_bind m f)"
  using assms by (fastforce simp: keeps_def act_bind_def split: prod.split sum.split)

lemma keeps_match [intro]:
  assumes "keeps P m" and "\<And>x. keeps P (f x)" and "\<And>e. keeps P (h e)"
  shows "keeps P (act_match m f h)"
  using assms by (fastforce simp: keeps_def act_match_def split: prod.split sum.split)

lemma keeps_if [intro]: "keeps P m \<Longrightarrow> keeps P n \<Longrightarrow> keeps P (if b then m else n)"
  by simp

text \<open>A property of the tables alone.\<close>

definition on_db :: "(db \<Rightarrow> bool) \<Rightarrow> world \<Rightarrow> bool" where
  "on_db P w \<longleftrightarrow> P (w_db w)"

lemma keeps_stmt:
  "(\<And>d x d'. P d \<Longrightarrow> f d = Inr (x, d') \<Longrightarrow> P d') \<Longrightarrow> keeps (on_db P) (db_stmt E f)"
  by (auto simp: keeps_def on_db_def db_stmt_def Let_def split: option.split prod.split sum.split)

lemma keeps_query [simp, intro]: "keeps (on_db P) (db_query E f)"
  unfolding db_query_def by (rule keeps_stmt) auto

lemma keeps_exec [intro]: "(\<And>d. P d \<Longrightarrow> P (f d)) \<Longrightarrow> keeps (on_db P) (db_exec E f)"
  unfolding db_exec_def by (rule keeps_stmt) auto

lemma keeps_transaction [intro]:
  assumes "keeps (on_db P) m"
  shows "keeps (on_db P) (db_transaction E m)"
proof (rule keepsI)
  fix w assume w: "on_db P w"
  let ?m = "act_bind (db_query E (\<lambda>_. ())) (\<lambda>_. act_bind m (\<lambda>x. act_bind (db_query E (\<lambda>_. ())) (\<lambda>_. act_ok x)))"
  have "keeps (on_db P) ?m" by (intro keeps_bind keeps_query keeps_ok assms)
  then have "on_db P (snd (?m w))" using w by (rule keepsD)
  then show "on_db P (snd (db_transaction E m w))"
    using w by (auto simp: db_transaction_def on_db_def split: prod.split sum.split)
qed

lemma transaction_error_keeps_db:
  "db_transaction E m w = (Inl e, w') \<Longrightarrow> w_db w' = w_db w"
  by (auto simp: db_transaction_def split: prod.splits sum.splits)

lemma http_send_db [simp]: "w_db (snd (http_send E rq w)) = w_db w"
  by (simp add: http_send_def)

subsection \<open>Keys of the tables\<close>

definition link_key :: "role_link \<Rightarrow> str \<times> str" where
  "link_key l = (rl_guild_id l, rl_role_id l)"

definition assignment_link :: "role_assignment \<Rightarrow> str \<times> str" where
  "assignment_link a = (ra_guild_id a, ra_role_id a)"

text \<open>
  What the schema's constraints keep: unique link keys, unique assignments, and every assignment
  of an existing link.
\<close>

definition db_ok :: "db \<Rightarrow> bool" where
  "db_ok d \<longleftrightarrow> distinct (map link_key (db_role_links d)) \<and> distinct (db_assignments d)
     \<and> assignment_link ` set (db_assignments d) \<subseteq> link_key ` set (db_role_links d)"

text \<open>\<open>DELETE FROM role_links WHERE guild_id = .. AND role_id = ..\<close>, with its cascade.\<close>

definition delete_link :: "str \<Rightarrow> str \<Rightarrow> db \<Rightarrow> db" where
  "delete_link g r d = d\<lparr>db_role_links := filter (\<lambda>l. link_key l \<noteq> (g, r)) (db_role_links d),
     db_assignments := filter (\<lambda>a. assignment_link a \<noteq> (g, r)) (db_assignments d)\<rparr>"

definition delete_link_assignments :: "str \<Rightarrow> str \<Rightarrow> db \<Rightarrow> db" where
  "delete_link_assignments g r d =
     d\<lparr>db_assignments := filter (\<lambda>a. assignment_link a \<noteq> (g, r)) (db_assignments d)\<rparr>"

text \<open>The members a link is recorded as granted to.\<close>

definition assigned_ids :: "str \<Rightarrow> str \<Rightarrow> db \<Rightarrow> str list" where
  "assigned_ids g r d = map ra_discord_id (filter (\<lambda>a. assignment_link a = (g, r)) (db_assignments d))"

lemma delete_link_ok [intro]: "db_ok d \<Longrightarrow> db_ok (delete_link g r d)"
  by (auto simp: db_ok_def delete_link_def distinct_map_filter)

lemma delete_link_assignments_ok [intro]: "db_ok d \<Longrightarrow> db_ok (delete_link_assignments g r d)"
  by (auto simp: db_ok_def delete_link_assignments_def)

end
