(* ===== verification/RoleLogic.thy ===== *)
theory RoleLogic
  imports Store
begin

text \<open>
  \<open>services/rolelogic.rs\<close>: the client of the RoleLogic API. Each operation sends one request and
  turns a failure into an error by its status and body; \<open>upload_users\<close> chooses between one
  \<open>PUT\<close> and the chunked flow (open, chunks, commit, or cancel). Timeouts are failures of the
  environment.
\<close>

definition put_max_users :: nat where "put_max_users = 100000"
definition chunk_size :: nat where "chunk_size = 100000"
definition rl_link_gone_error_msg :: str where "rl_link_gone_error_msg = ''Invalid or revoked token''"
definition rl_link_disabled_error_msg :: str where "rl_link_disabled_error_msg = ''This role link is disabled''"
definition rl_link_paused_error_msg :: str where "rl_link_paused_error_msg = ''This role link is paused''"
definition rl_confirm_required :: str where "rl_confirm_required = ''confirm_required''"

definition link_inactive :: "nat \<Rightarrow> str \<Rightarrow> bool" where
  "link_inactive status body \<longleftrightarrow> status = 403
     \<and> (str_contains rl_link_disabled_error_msg body \<or> str_contains rl_link_paused_error_msg body)"

definition removal_held :: "nat \<Rightarrow> str \<Rightarrow> bool" where
  "removal_held status body \<longleftrightarrow> status = 409 \<and> str_contains rl_confirm_required body"

text \<open>What follows the first occurrence of a text, up to the next one.\<close>

fun after_text :: "str \<Rightarrow> str \<Rightarrow> str option" where
  "after_text p [] = strip_prefix p []"
| "after_text p (c # s) = (case strip_prefix p (c # s) of Some r \<Rightarrow> Some r | None \<Rightarrow> after_text p s)"

fun before_text :: "str \<Rightarrow> str \<Rightarrow> str" where
  "before_text p [] = []"
| "before_text p (c # s) = (if starts_with p (c # s) then [] else c # before_text p s)"

definition split_nth1 :: "str \<Rightarrow> str \<Rightarrow> str option" where
  "split_nth1 p s = map_option (before_text p) (after_text p s)"

definition parse_user_limit :: "env \<Rightarrow> str \<Rightarrow> nat option" where
  "parse_user_limit E body =
     (case (case e_parse_json E body of
              None \<Rightarrow> None | Some v \<Rightarrow> as_u64 (jindex (jindex v ''data'') ''user_limit'')) of
        Some n \<Rightarrow> Some n
      | None \<Rightarrow>
          (case split_nth1 ''Maximum '' body of
             None \<Rightarrow> None
           | Some after \<Rightarrow>
               if \<not> str_contains ''users per role link'' after then None
               else parse_u64 (takeWhile is_ascii_digit after)))"

subsection \<open>Requests\<close>

definition rl_headers :: "str \<Rightarrow> (str \<times> str) list" where
  "rl_headers token = [(''authorization'', ''Token '' @ token)]"

definition rl_request_to :: "str \<Rightarrow> str \<Rightarrow> str \<Rightarrow> json \<Rightarrow> http_request" where
  "rl_request_to m url token body =
     \<lparr>hr_method = m, hr_url = url, hr_query = [], hr_headers = rl_headers token, hr_body = body\<rparr>"

definition users_url :: "str \<Rightarrow> str \<Rightarrow> str \<Rightarrow> str" where
  "users_url base g r = base @ ''/api/role-link/'' @ g @ ''/'' @ r @ ''/users''"

definition upload_url :: "str \<Rightarrow> str \<Rightarrow> str \<Rightarrow> str" where
  "upload_url base g r = users_url base g r @ ''/upload''"

definition is_success :: "nat \<Rightarrow> bool" where "is_success st \<longleftrightarrow> 200 \<le> st \<and> st < 300"

definition rl_request ::
  "env \<Rightarrow> http_request \<Rightarrow> (nat \<Rightarrow> str \<Rightarrow> app_error) \<Rightarrow> (str \<Rightarrow> 'a app_result) \<Rightarrow> 'a act" where
  "rl_request E rq failed accepted w =
     (case http_send E rq w of
        (HttpFailed m, w') \<Rightarrow> (Inl (ERoleLogic m), w')
      | (HttpReply st body, w') \<Rightarrow>
          if \<not> is_success st then (Inl (failed st body), w') else (accepted body, w'))"

definition rl_json :: "env \<Rightarrow> str \<Rightarrow> json app_result" where
  "rl_json E body = (case e_parse_json E body of
       None \<Rightarrow> Inl (ERoleLogic (e_json_error E body)) | Some v \<Rightarrow> Inr v)"

definition failed_text :: "env \<Rightarrow> str \<Rightarrow> nat \<Rightarrow> str \<Rightarrow> app_error" where
  "failed_text E what st body = ERoleLogic (what @ '' failed: '' @ e_status_text E st @ '' - '' @ body)"

text \<open>The two checks every per-link operation starts with.\<close>

definition link_failure :: "nat \<Rightarrow> str \<Rightarrow> app_error option" where
  "link_failure st body =
     (if st = 403 \<and> str_contains rl_link_gone_error_msg body then Some ERoleLinkNotFound
      else if link_inactive st body then Some ERoleLinkDisabled
      else None)"

definition limit_failure :: "env \<Rightarrow> nat \<Rightarrow> str \<Rightarrow> app_error option" where
  "limit_failure E st body =
     (if st = 400 \<or> st = 403 then map_option EUserLimitReached (parse_user_limit E body) else None)"

definition add_user_failure :: "env \<Rightarrow> nat \<Rightarrow> str \<Rightarrow> app_error" where
  "add_user_failure E st body =
     (case link_failure st body of Some e \<Rightarrow> e
      | None \<Rightarrow> (case limit_failure E st body of Some e \<Rightarrow> e
         | None \<Rightarrow> failed_text E ''Add user'' st body))"

definition add_user :: "env \<Rightarrow> str \<Rightarrow> str \<Rightarrow> str \<Rightarrow> str \<Rightarrow> str \<Rightarrow> bool act" where
  "add_user E base g r user token =
     rl_request E (rl_request_to ''POST'' (users_url base g r @ ''/'' @ user) token JNull)
       (add_user_failure E)
       (\<lambda>body. try_bind (rl_json E body) (\<lambda>v.
          Inr (unwrap_or (as_bool (jindex (jindex v ''data'') ''added'')) False)))"

definition remove_user_failure :: "env \<Rightarrow> nat \<Rightarrow> str \<Rightarrow> app_error" where
  "remove_user_failure E st body =
     (case link_failure st body of Some e \<Rightarrow> e | None \<Rightarrow> failed_text E ''Remove user'' st body)"

definition remove_user :: "env \<Rightarrow> str \<Rightarrow> str \<Rightarrow> str \<Rightarrow> str \<Rightarrow> str \<Rightarrow> bool act" where
  "remove_user E base g r user token =
     rl_request E (rl_request_to ''DELETE'' (users_url base g r @ ''/'' @ user) token JNull)
       (remove_user_failure E)
       (\<lambda>body. try_bind (rl_json E body) (\<lambda>v.
          Inr (unwrap_or (as_bool (jindex (jindex v ''data'') ''removed'')) False)))"

definition users_json :: "str list \<Rightarrow> json" where "users_json ids = JArr (map JStr ids)"

definition user_count :: "env \<Rightarrow> str \<Rightarrow> nat app_result" where
  "user_count E body = try_bind (rl_json E body) (\<lambda>v.
     Inr (unwrap_or (as_u64 (jindex (jindex v ''data'') ''user_count'')) 0))"

definition replace_users_failure :: "env \<Rightarrow> nat \<Rightarrow> str \<Rightarrow> app_error" where
  "replace_users_failure E st body =
     (case link_failure st body of Some e \<Rightarrow> e
      | None \<Rightarrow> (case limit_failure E st body of Some e \<Rightarrow> e
         | None \<Rightarrow> if removal_held st body then ERemovalHeld
                   else failed_text E ''Replace users'' st body))"

definition replace_users :: "env \<Rightarrow> str \<Rightarrow> str \<Rightarrow> str \<Rightarrow> str list \<Rightarrow> str \<Rightarrow> nat act" where
  "replace_users E base g r ids token =
     rl_request E (rl_request_to ''PUT'' (users_url base g r) token (users_json ids))
       (replace_users_failure E) (user_count E)"

subsection \<open>The chunked flow\<close>

definition start_upload_failure :: "env \<Rightarrow> nat \<Rightarrow> str \<Rightarrow> app_error" where
  "start_upload_failure E st body =
     (case link_failure st body of Some e \<Rightarrow> e | None \<Rightarrow> failed_text E ''Start upload'' st body)"

definition start_upload :: "env \<Rightarrow> str \<Rightarrow> str \<Rightarrow> str \<Rightarrow> str \<Rightarrow> str act" where
  "start_upload E base g r token =
     rl_request E (rl_request_to ''POST'' (upload_url base g r) token JNull)
       (start_upload_failure E)
       (\<lambda>body. try_bind (rl_json E body) (\<lambda>v.
          ok_or (as_str (jindex (jindex v ''data'') ''upload_id''))
            (ERoleLogic ''Start upload response missing upload_id'')))"

definition upload_chunk :: "env \<Rightarrow> str \<Rightarrow> str \<Rightarrow> str \<Rightarrow> str \<Rightarrow> str list \<Rightarrow> str \<Rightarrow> unit act" where
  "upload_chunk E base g r upload_id ids token =
     rl_request E (rl_request_to ''POST'' (upload_url base g r @ ''/'' @ upload_id @ ''/chunk'') token (users_json ids))
       (failed_text E ''Upload chunk'') (\<lambda>_. Inr ())"

definition commit_failure :: "env \<Rightarrow> nat \<Rightarrow> str \<Rightarrow> app_error" where
  "commit_failure E st body =
     (if removal_held st body then ERemovalHeld else failed_text E ''Commit upload'' st body)"

definition commit_upload :: "env \<Rightarrow> str \<Rightarrow> str \<Rightarrow> str \<Rightarrow> str \<Rightarrow> str \<Rightarrow> nat act" where
  "commit_upload E base g r upload_id token =
     rl_request E (rl_request_to ''POST'' (upload_url base g r @ ''/'' @ upload_id @ ''/commit'') token JNull)
       (commit_failure E) (user_count E)"

definition cancel_upload :: "env \<Rightarrow> str \<Rightarrow> str \<Rightarrow> str \<Rightarrow> str \<Rightarrow> str \<Rightarrow> unit act" where
  "cancel_upload E base g r upload_id token =
     rl_request E (rl_request_to ''DELETE'' (upload_url base g r @ ''/'' @ upload_id) token JNull)
       (failed_text E ''Cancel upload'') (\<lambda>_. Inr ())"

text \<open>\<open>slice::chunks\<close> for a positive size.\<close>

function chunks :: "nat \<Rightarrow> 'a list \<Rightarrow> 'a list list" where
  "chunks n [] = []"
| "chunks n (x # xs) = take (Suc (n - 1)) (x # xs) # chunks n (drop (Suc (n - 1)) (x # xs))"
  by pat_completeness auto
termination by (relation "measure (length \<circ> snd)") auto

lemma concat_chunks [simp]: "concat (chunks n xs) = xs"
  by (induction n xs rule: chunks.induct) (simp_all del: take_Suc_Cons drop_Suc_Cons)

lemma chunks_length: "0 < n \<Longrightarrow> c \<in> set (chunks n xs) \<Longrightarrow> length c \<le> n \<and> c \<noteq> []"
  by (induction n xs rule: chunks.induct) auto

fun upload_chunks ::
  "env \<Rightarrow> str \<Rightarrow> str \<Rightarrow> str \<Rightarrow> str \<Rightarrow> str \<Rightarrow> str list list \<Rightarrow> unit act" where
  "upload_chunks E base g r upload_id token [] = act_ok ()"
| "upload_chunks E base g r upload_id token (c # cs) =
     act_match (upload_chunk E base g r upload_id c token)
       (\<lambda>_. upload_chunks E base g r upload_id token cs)
       (\<lambda>e. act_match (cancel_upload E base g r upload_id token) (\<lambda>_. act_fail e) (\<lambda>_. act_fail e))"

definition upload_users :: "env \<Rightarrow> str \<Rightarrow> str \<Rightarrow> str \<Rightarrow> str list \<Rightarrow> str \<Rightarrow> nat act" where
  "upload_users E base g r ids token =
     (if length ids \<le> put_max_users then replace_users E base g r ids token
      else act_bind (start_upload E base g r token) (\<lambda>upload_id.
           act_bind (upload_chunks E base g r upload_id token (chunks chunk_size ids)) (\<lambda>_.
             commit_upload E base g r upload_id token)))"

subsection \<open>The tables are not touched\<close>

lemma rl_request_db [simp]: "w_db (snd (rl_request E rq f a w)) = w_db w"
  by (auto simp: rl_request_def http_send_def split: http_reply.split)

lemma rl_request_now [simp]: "w_now (snd (rl_request E rq f a w)) = w_now w"
  by (auto simp: rl_request_def http_send_def split: http_reply.split)

lemma rl_request_sent: "w_sent (snd (rl_request E rq f a w)) = w_sent w @ [rq]"
  by (auto simp: rl_request_def http_send_def split: http_reply.split)

lemma keeps_rl_request [simp, intro]: "keeps (on_db P) (rl_request E rq f a)"
  by (simp add: keeps_def on_db_def)

lemma keeps_upload_chunks: "keeps (on_db P) (upload_chunks E base g r u token cs)"
  by (induction cs) (auto simp: upload_chunk_def cancel_upload_def intro!: keeps_match keeps_fail)

lemma keeps_api [simp, intro]:
  "keeps (on_db P) (add_user E base g r user token)"
  "keeps (on_db P) (remove_user E base g r user token)"
  "keeps (on_db P) (upload_users E base g r ids token)"
  by (auto simp: add_user_def remove_user_def upload_users_def replace_users_def start_upload_def
      commit_upload_def intro!: keeps_bind keeps_upload_chunks)

text \<open>In particular the tables are the same after a call.\<close>

lemma api_db [simp]:
  "w_db (snd (add_user E base g r user token w)) = w_db w"
  "w_db (snd (remove_user E base g r user token w)) = w_db w"
  "w_db (snd (upload_users E base g r ids token w)) = w_db w"
  using keepsD [OF keeps_api(1), of "\<lambda>d. d = w_db w" w] keepsD [OF keeps_api(2), of "\<lambda>d. d = w_db w" w]
    keepsD [OF keeps_api(3), of "\<lambda>d. d = w_db w" w]
  by (simp_all add: on_db_def)

subsection \<open>What is sent\<close>

definition start_request :: "str \<Rightarrow> str \<Rightarrow> str \<Rightarrow> str \<Rightarrow> http_request" where
  "start_request base g r token = rl_request_to ''POST'' (upload_url base g r) token JNull"

definition chunk_request :: "str \<Rightarrow> str \<Rightarrow> str \<Rightarrow> str \<Rightarrow> str \<Rightarrow> str list \<Rightarrow> http_request" where
  "chunk_request base g r u token ids =
     rl_request_to ''POST'' (upload_url base g r @ ''/'' @ u @ ''/chunk'') token (users_json ids)"

definition commit_request :: "str \<Rightarrow> str \<Rightarrow> str \<Rightarrow> str \<Rightarrow> str \<Rightarrow> http_request" where
  "commit_request base g r u token =
     rl_request_to ''POST'' (upload_url base g r @ ''/'' @ u @ ''/commit'') token JNull"

definition cancel_request :: "str \<Rightarrow> str \<Rightarrow> str \<Rightarrow> str \<Rightarrow> str \<Rightarrow> http_request" where
  "cancel_request base g r u token = rl_request_to ''DELETE'' (upload_url base g r @ ''/'' @ u) token JNull"

definition put_request :: "str \<Rightarrow> str \<Rightarrow> str \<Rightarrow> str \<Rightarrow> str list \<Rightarrow> http_request" where
  "put_request base g r token ids = rl_request_to ''PUT'' (users_url base g r) token (users_json ids)"

lemmas request_defs = start_request_def chunk_request_def commit_request_def cancel_request_def put_request_def

lemma sent_chunk: "w_sent (snd (upload_chunk E base g r u c token w)) = w_sent w @ [chunk_request base g r u token c]"
  by (simp add: upload_chunk_def rl_request_sent chunk_request_def)

lemma sent_cancel: "w_sent (snd (cancel_upload E base g r u token w)) = w_sent w @ [cancel_request base g r u token]"
  by (simp add: cancel_upload_def rl_request_sent cancel_request_def)

lemma upload_chunks_sent:
  "(fst (upload_chunks E base g r u token cs w) = Inr ()
      \<and> w_sent (snd (upload_chunks E base g r u token cs w)) = w_sent w @ map (chunk_request base g r u token) cs)
   \<or> (\<exists>e pre c post. fst (upload_chunks E base g r u token cs w) = Inl e \<and> cs = pre @ c # post
      \<and> w_sent (snd (upload_chunks E base g r u token cs w)) =
          w_sent w @ map (chunk_request base g r u token) (pre @ [c]) @ [cancel_request base g r u token])"
proof (induction cs arbitrary: w)
  case (Cons c cs)
  obtain res w1 where up: "upload_chunk E base g r u c token w = (res, w1)" by (cases "upload_chunk E base g r u c token w")
  have s1: "w_sent w1 = w_sent w @ [chunk_request base g r u token c]"
    using sent_chunk [of E base g r u c token w] up by simp
  show ?case
  proof (cases res)
    case (Inl e)
    obtain res2 w2 where ca: "cancel_upload E base g r u token w1 = (res2, w2)"
      by (cases "cancel_upload E base g r u token w1")
    have "w_sent w2 = w_sent w1 @ [cancel_request base g r u token]"
      using sent_cancel [of E base g r u token w1] ca by simp
    then have "fst (upload_chunks E base g r u token (c # cs) w) = Inl e
        \<and> w_sent (snd (upload_chunks E base g r u token (c # cs) w)) =
          w_sent w @ map (chunk_request base g r u token) ([] @ [c]) @ [cancel_request base g r u token]"
      using up ca Inl s1 by (cases res2) (simp_all add: act_match_def)
    then show ?thesis by blast
  next
    case (Inr x)
    then have run: "upload_chunks E base g r u token (c # cs) w = upload_chunks E base g r u token cs w1"
      using up by (simp add: act_match_def)
    show ?thesis
      unfolding run
    proof (rule disjE [OF Cons.IH [of w1]], goal_cases)
      case 1
      then show ?case using s1 by simp
    next
      case 2
      then obtain e pre d post where h: "fst (upload_chunks E base g r u token cs w1) = Inl e" "cs = pre @ d # post"
        "w_sent (snd (upload_chunks E base g r u token cs w1)) =
          w_sent w1 @ map (chunk_request base g r u token) (pre @ [d]) @ [cancel_request base g r u token]" by blast
      then show ?case using s1
        by (intro disjI2 exI [of _ e] exI [of _ "c # pre"] exI [of _ d] exI [of _ post]) simp
    qed
  qed
qed simp

text \<open>The traces of an upload: one \<open>PUT\<close>, or the chunked flow with its three ends.\<close>

definition upload_trace :: "str \<Rightarrow> str \<Rightarrow> str \<Rightarrow> str \<Rightarrow> str list \<Rightarrow> http_request list \<Rightarrow> bool \<Rightarrow> bool" where
  "upload_trace base g r token ids tr ok \<longleftrightarrow>
     (if length ids \<le> put_max_users then tr = [put_request base g r token ids]
      else (tr = [start_request base g r token] \<and> \<not> ok)
        \<or> (\<exists>u pre c post. chunks chunk_size ids = pre @ c # post \<and> \<not> ok
             \<and> tr = start_request base g r token # map (chunk_request base g r u token) (pre @ [c])
                 @ [cancel_request base g r u token])
        \<or> (\<exists>u. tr = start_request base g r token # map (chunk_request base g r u token) (chunks chunk_size ids)
                 @ [commit_request base g r u token]))"

lemma upload_users_trace:
  "\<exists>tr. w_sent (snd (upload_users E base g r ids token w)) = w_sent w @ tr
     \<and> upload_trace base g r token ids tr (\<not> isl (fst (upload_users E base g r ids token w)))"
proof (cases "length ids \<le> put_max_users")
  case True
  then show ?thesis
    by (simp add: upload_users_def replace_users_def rl_request_sent upload_trace_def put_request_def)
next
  case big: False
  obtain res w1 where st: "start_upload E base g r token w = (res, w1)" by (cases "start_upload E base g r token w")
  have s1: "w_sent w1 = w_sent w @ [start_request base g r token]"
    using st by (metis rl_request_sent snd_conv start_request_def start_upload_def)
  show ?thesis
  proof (cases res)
    case (Inl e)
    then show ?thesis using big st s1 by (simp add: upload_users_def act_bind_def upload_trace_def)
  next
    case (Inr u)
    obtain res2 w2 where ch: "upload_chunks E base g r u token (chunks chunk_size ids) w1 = (res2, w2)"
      by (cases "upload_chunks E base g r u token (chunks chunk_size ids) w1")
    note sent = upload_chunks_sent [of E base g r u token "chunks chunk_size ids" w1, unfolded ch fst_conv snd_conv]
    show ?thesis
    proof (cases res2)
      case (Inl e)
      then obtain pre c post where p: "chunks chunk_size ids = pre @ c # post"
        and w2: "w_sent w2 = w_sent w1 @ map (chunk_request base g r u token) (pre @ [c]) @ [cancel_request base g r u token]"
        using sent by auto
      let ?tr = "start_request base g r token # map (chunk_request base g r u token) (pre @ [c])
        @ [cancel_request base g r u token]"
      have "upload_trace base g r token ids ?tr False"
        unfolding upload_trace_def using big p by (simp only: if_False) blast
      moreover have "upload_users E base g r ids token w = (Inl e, w2)"
        using big st \<open>res = Inr u\<close> ch Inl by (simp add: upload_users_def act_bind_def)
      ultimately show ?thesis using w2 s1 by (intro exI [of _ ?tr]) simp
    next
      case (Inr x)
      have "w_sent (snd (commit_upload E base g r u token w2)) = w_sent w2 @ [commit_request base g r u token]"
        by (simp add: commit_upload_def rl_request_sent commit_request_def)
      then show ?thesis using big st \<open>res = Inr u\<close> ch sent s1 Inr
        by (auto simp: upload_users_def act_bind_def upload_trace_def)
    qed
  qed
qed

subsection \<open>Properties\<close>

text \<open>An upload of at most 100,000 members is one \<open>PUT\<close> of the whole set; a larger one opens a
  session, sends the chunks in order and commits only after every chunk was accepted; when a chunk
  fails the session is cancelled, nothing is committed, and the result is an error.\<close>

lemma upload_commits_whole_set:
  "\<exists>tr. w_sent (snd (upload_users E base g r ids token w)) = w_sent w @ tr
     \<and> upload_trace base g r token ids tr (\<not> isl (fst (upload_users E base g r ids token w)))
     \<and> concat (chunks chunk_size ids) = ids \<and> list_all (\<lambda>c. length c \<le> chunk_size) (chunks chunk_size ids)
     \<and> w_db (snd (upload_users E base g r ids token w)) = w_db w"
  using upload_users_trace [of E base g r ids token w] chunks_length [of chunk_size]
  by (auto simp: list_all_iff chunk_size_def)

text \<open>The failure of a member or list operation says the link is gone (on which the caller
  deletes the local row) exactly for a 403 with the text of an unknown token; a disabled or paused link is
  told apart from it, and only a list write can be held.\<close>

lemma gone_only_on_revoked_token:
  "(add_user_failure E st body = ERoleLinkNotFound \<longleftrightarrow> st = 403 \<and> str_contains rl_link_gone_error_msg body)
   \<and> (remove_user_failure E st body = ERoleLinkNotFound \<longleftrightarrow> st = 403 \<and> str_contains rl_link_gone_error_msg body)
   \<and> (replace_users_failure E st body = ERoleLinkNotFound \<longleftrightarrow> st = 403 \<and> str_contains rl_link_gone_error_msg body)
   \<and> (replace_users_failure E st body = ERemovalHeld \<longleftrightarrow> st = 409 \<and> str_contains rl_confirm_required body)
   \<and> add_user_failure E st body \<noteq> ERemovalHeld \<and> remove_user_failure E st body \<noteq> ERemovalHeld"
  by (auto simp: add_user_failure_def remove_user_failure_def replace_users_failure_def link_failure_def
      limit_failure_def link_inactive_def removal_held_def failed_text_def split: option.splits)

lemma rl_request_Inl:
  "fst (rl_request E rq f a w) = Inl e \<Longrightarrow>
     (\<exists>m. e = ERoleLogic m) \<or> (\<exists>st body. e = f st body) \<or> (\<exists>body. a body = Inl e)"
  by (auto simp: rl_request_def split: prod.splits http_reply.splits if_splits)

lemma user_count_Inl: "user_count E body = Inl e \<Longrightarrow> \<exists>m. e = ERoleLogic m"
  by (auto simp: user_count_def rl_json_def split: option.splits)

lemma start_upload_limit: "fst (start_upload E base g r token w) \<noteq> Inl (EUserLimitReached n)"
  unfolding start_upload_def
  by (auto dest!: rl_request_Inl simp: start_upload_failure_def link_failure_def failed_text_def rl_json_def
      try_bind_def ok_or_def split: option.splits if_splits sum.splits)

lemma commit_upload_limit: "fst (commit_upload E base g r u token w) \<noteq> Inl (EUserLimitReached n)"
  unfolding commit_upload_def
  by (auto dest!: rl_request_Inl user_count_Inl simp: commit_failure_def failed_text_def split: if_splits)

lemma upload_chunk_limit: "fst (upload_chunk E base g r u c token w) \<noteq> Inl (EUserLimitReached n)"
  unfolding upload_chunk_def by (auto dest!: rl_request_Inl simp: failed_text_def)

lemma upload_chunks_limit: "fst (upload_chunks E base g r u token cs w) \<noteq> Inl (EUserLimitReached n)"
proof (induction cs arbitrary: w)
  case (Cons c cs)
  then show ?case using upload_chunk_limit [of E base g r u c token w n]
    by (auto simp: act_match_def split: prod.split sum.split)
qed simp

text \<open>An upload above 100,000 members can never report the link's member limit, so the bulk
  sync's retry with a capped set is unreachable for it: an over-limit set of that size only fails.\<close>

lemma chunked_upload_never_reports_limit:
  assumes "put_max_users < length ids"
  shows "fst (upload_users E base g r ids token w) \<noteq> Inl (EUserLimitReached n)"
  using assms start_upload_limit [of E base g r token w n] upload_chunks_limit [of E base g r _ token "chunks chunk_size ids" _ n]
    commit_upload_limit [of E base g r _ token _ n]
  by (auto simp: upload_users_def act_bind_def split: prod.splits sum.splits) (metis fst_conv)+

text \<open>An environment whose every request is answered by the same reply, for examples.\<close>

definition sample_env :: "http_reply \<Rightarrow> env" where
  "sample_env reply = \<lparr>e_crates = sample_crates, e_http = (\<lambda>_ _. reply), e_db_fault = (\<lambda>_. None),
     e_parse_json = (\<lambda>s. if s = ''{}'' then Some (JObj []) else None), e_json_error = (\<lambda>s. s),
     e_status_text = show_nat, e_jitter_ms = (\<lambda>_. 0)\<rparr>"

definition sample_world :: "db \<Rightarrow> world" where
  "sample_world d = \<lparr>w_db = d, w_now = 0, w_tick = 0, w_sent = [], w_wire = []\<rparr>"

end
