(* ===== verification/Gateway.thy ===== *)
theory Gateway
  imports RoleLogic
begin

text \<open>
  \<open>services/auth_gateway.rs\<close>: the three internal calls to the Auth Gateway. Every failure is an
  error, never an empty list.
\<close>

definition plugin_slug :: str where "plugin_slug = ''form-respondent-role''"

definition gateway_request :: "str \<Rightarrow> str \<Rightarrow> str \<Rightarrow> (str \<times> str) list \<Rightarrow> http_request" where
  "gateway_request base key name query =
     \<lparr>hr_method = ''GET'', hr_url = base @ ''/auth/internal/'' @ name, hr_query = query,
      hr_headers = [(''x-internal-key'', key)], hr_body = JNull\<rparr>"

definition gateway_call ::
  "env \<Rightarrow> str \<Rightarrow> str \<Rightarrow> str \<Rightarrow> (str \<times> str) list \<Rightarrow> (json \<Rightarrow> 'a option) \<Rightarrow> 'a act" where
  "gateway_call E base key name query read w =
     (case http_send E (gateway_request base key name query) w of
        (HttpFailed m, w') \<Rightarrow> (Inl (EInternal (''auth_gateway request failed: '' @ m)), w')
      | (HttpReply st body, w') \<Rightarrow>
          if \<not> is_success st then
            (Inl (EInternal (''auth_gateway '' @ name @ '' returned '' @ e_status_text E st @ '': '' @ body)), w')
          else
            (ok_or (case e_parse_json E body of None \<Rightarrow> None | Some v \<Rightarrow> read v)
               (EInternal (''auth_gateway response not JSON: '' @ e_json_error E body)), w'))"

text \<open>The one member of the replies: an array of strings, and an \<open>Option\<close> that only an object may leave out.\<close>

definition read_ids :: "str \<Rightarrow> json \<Rightarrow> str list option" where
  "read_ids member v = Option.bind (struct_members [member] v) (\<lambda>m. need (read_vec as_str) m member)"

definition read_guild_name :: "json \<Rightarrow> str option option" where
  "read_guild_name v = (if v = JArr [] then None
     else Option.bind (struct_members [''guild_name''] v) (\<lambda>m. opt as_str m ''guild_name''))"

definition fetch_user_guild_ids :: "env \<Rightarrow> str \<Rightarrow> str \<Rightarrow> str \<Rightarrow> str list act" where
  "fetch_user_guild_ids E base key discord_id =
     gateway_call E base key ''user_guild_ids'' [(''discord_id'', discord_id), (''plugin'', plugin_slug)]
       (read_ids ''guild_ids'')"

definition fetch_guild_optout_ids :: "env \<Rightarrow> str \<Rightarrow> str \<Rightarrow> str \<Rightarrow> str list act" where
  "fetch_guild_optout_ids E base key guild_id =
     gateway_call E base key ''guild_optout_ids'' [(''guild_id'', guild_id), (''plugin'', plugin_slug)]
       (read_ids ''discord_ids'')"

definition fetch_guild_name :: "env \<Rightarrow> str \<Rightarrow> str \<Rightarrow> str \<Rightarrow> str option act" where
  "fetch_guild_name E base key guild_id =
     act_bind (gateway_call E base key ''guild_member_ids'' [(''guild_id'', guild_id)] read_guild_name)
       (\<lambda>n. act_ok (case n of Some s \<Rightarrow> if s = [] then None else Some s | None \<Rightarrow> None))"

lemma gateway_call_state:
  "w_db (snd (gateway_call E base key name q r w)) = w_db w"
  "w_now (snd (gateway_call E base key name q r w)) = w_now w"
  "w_sent (snd (gateway_call E base key name q r w)) = w_sent w @ [gateway_request base key name q]"
  "w_tick (snd (gateway_call E base key name q r w)) = w_tick w + 1"
  by (auto simp: gateway_call_def http_send_def split: http_reply.split)

lemma fetch_optout_state [simp]:
  "w_db (snd (fetch_guild_optout_ids E base key g w)) = w_db w"
  "w_now (snd (fetch_guild_optout_ids E base key g w)) = w_now w"
  by (simp_all add: fetch_guild_optout_ids_def gateway_call_state)

lemma fetch_guilds_state [simp]:
  "w_db (snd (fetch_user_guild_ids E base key d w)) = w_db w"
  "w_now (snd (fetch_user_guild_ids E base key d w)) = w_now w"
  by (simp_all add: fetch_user_guild_ids_def gateway_call_state)

lemma keeps_fetch [simp, intro]:
  "keeps (on_db P) (fetch_user_guild_ids E base key d)"
  "keeps (on_db P) (fetch_guild_optout_ids E base key g)"
  by (simp_all add: keeps_def on_db_def)

subsection \<open>Properties\<close>

text \<open>An opt-out list is returned only from a successful reply whose body has an array of strings for
  its member; a transport failure, any other status or any other body is an error, so a gateway
  outage is never read as an empty list.\<close>

lemma optout_list_only_from_reply:
  "fst (fetch_guild_optout_ids E base key g w) = Inr ids \<longleftrightarrow>
     (\<exists>st body v m a. e_http E (w_tick w)
          (gateway_request base key ''guild_optout_ids'' [(''guild_id'', g), (''plugin'', plugin_slug)]) = HttpReply st body
        \<and> is_success st \<and> e_parse_json E body = Some v \<and> struct_members [''discord_ids''] v = Some m
        \<and> map_of m ''discord_ids'' = Some (JArr a) \<and> read_all as_str a = Some ids)"
  by (auto simp: fetch_guild_optout_ids_def gateway_call_def http_send_def read_ids_def need_Some_iff read_vec_Some_iff
      ok_or_Inr_iff Option.bind_eq_Some_conv split: http_reply.splits option.splits if_splits)

end
