(* ===== verification/Jobs.thy ===== *)
theory Jobs
  imports Store
begin

text \<open>
  \<open>services/jobs.rs\<close>: the durable queue as operations on the \<open>jobs\<close> table, one per SQL statement,
  at an instant \<open>now\<close>. The locale \<open>leased_queue\<close> is what a worker relies on when it holds a claimed
  job; the step relation \<open>queue_step\<close> runs any number of workers against the table.
\<close>

abbreviation second :: int where "second \<equiv> 1000000000"

datatype job_kind = PlayerSync | ConfigSync | Webhook

fun job_kind_as_str :: "job_kind \<Rightarrow> str" where
  "job_kind_as_str PlayerSync = ''player_sync''"
| "job_kind_as_str ConfigSync = ''config_sync''"
| "job_kind_as_str Webhook = ''webhook''"

definition job_kind_from_db :: "str \<Rightarrow> job_kind option" where
  "job_kind_from_db s =
     (if s = ''player_sync'' then Some PlayerSync
      else if s = ''config_sync'' then Some ConfigSync
      else if s = ''webhook'' then Some Webhook
      else None)"

lemma job_kind_from_db_as_str [simp]: "job_kind_from_db (job_kind_as_str k) = Some k"
  by (cases k) (simp_all add: job_kind_from_db_def)

record job =
  j_id :: int
  j_kind :: str
  j_payload :: json
  j_attempts :: int
  j_max_attempts :: int

datatype player_sync_payload = Updated str | Unlinked str

definition player_sync_to_json :: "player_sync_payload \<Rightarrow> json" where
  "player_sync_to_json p = (case p of
       Updated d \<Rightarrow> JObj [(''discord_id'', JStr d), (''event'', JStr ''updated'')]
     | Unlinked d \<Rightarrow> JObj [(''discord_id'', JStr d), (''event'', JStr ''unlinked'')])"

definition player_sync_from_json :: "json \<Rightarrow> player_sync_payload option" where
  "player_sync_from_json v =
     Option.bind (tagged_variant ''event'' v) (\<lambda>(ev, rest).
     Option.bind (struct_members [''discord_id''] rest) (\<lambda>m.
     Option.bind (need as_str m ''discord_id'') (\<lambda>d.
     if ev = ''updated'' then Some (Updated d) else if ev = ''unlinked'' then Some (Unlinked d) else None)))"

lemma player_sync_roundtrip [simp]: "player_sync_from_json (player_sync_to_json p) = Some p"
  by (cases p) (simp_all add: player_sync_from_json_def player_sync_to_json_def need_def)

subsection \<open>The statements\<close>

definition default_max_attempts :: int where "default_max_attempts = 8"

definition new_job_row :: "int \<Rightarrow> int \<Rightarrow> job_kind \<Rightarrow> json \<Rightarrow> nat \<Rightarrow> job_row" where
  "new_job_row jid now kind payload delay_secs =
     \<lparr>jr_id = jid, jr_kind = job_kind_as_str kind, jr_payload = payload, jr_status = Pending,
      jr_attempts = 0, jr_max_attempts = default_max_attempts,
      jr_next_run_at = now + int delay_secs * second, jr_last_error = None, jr_locked_by = None,
      jr_locked_at = None, jr_completed_at = None\<rparr>"

definition insert_job :: "int \<Rightarrow> job_kind \<Rightarrow> json \<Rightarrow> nat \<Rightarrow> job_table \<Rightarrow> job_table" where
  "insert_job now kind payload delay_secs t =
     \<lparr>jt_next_id = jt_next_id t + 1,
      jt_rows = jt_rows t @ [new_job_row (jt_next_id t) now kind payload delay_secs]\<rparr>"

text \<open>The insertion, and whether the statement also notifies the workers.\<close>

definition enqueue :: "int \<Rightarrow> job_kind \<Rightarrow> json \<Rightarrow> nat \<Rightarrow> job_table \<Rightarrow> bool \<times> job_table" where
  "enqueue now kind payload delay_secs t =
     (now + int delay_secs * second \<le> now, insert_job now kind payload delay_secs t)"

definition claimable :: "int \<Rightarrow> int set \<Rightarrow> job_row \<Rightarrow> bool" where
  "claimable now busy r \<longleftrightarrow> jr_status r = Pending \<and> jr_next_run_at r \<le> now \<and> jr_id r \<notin> busy"

definition claimed_ids :: "int \<Rightarrow> int set \<Rightarrow> nat \<Rightarrow> job_table \<Rightarrow> int list" where
  "claimed_ids now busy batch_size t =
     take batch_size (sort (map jr_id (filter (claimable now busy) (jt_rows t))))"

definition lease_row :: "str \<Rightarrow> int \<Rightarrow> job_row \<Rightarrow> job_row" where
  "lease_row worker_id now r = r\<lparr>jr_status := InProgress, jr_locked_by := Some worker_id,
     jr_locked_at := Some now, jr_attempts := jr_attempts r + 1\<rparr>"

definition job_of_row :: "job_row \<Rightarrow> job" where
  "job_of_row r = \<lparr>j_id = jr_id r, j_kind = jr_kind r, j_payload = jr_payload r,
     j_attempts = jr_attempts r, j_max_attempts = jr_max_attempts r\<rparr>"

text \<open>\<open>busy\<close> are the rows other transactions hold locked, which \<open>SKIP LOCKED\<close> passes over.\<close>

definition claim_batch ::
  "str \<Rightarrow> nat \<Rightarrow> int set \<Rightarrow> int \<Rightarrow> job_table \<Rightarrow> job list \<times> job_table" where
  "claim_batch worker_id batch_size busy now t =
     (let ids = claimed_ids now busy batch_size t;
          rows = map (\<lambda>r. if jr_id r \<in> set ids then lease_row worker_id now r else r) (jt_rows t)
      in (map job_of_row (filter (\<lambda>r. jr_id r \<in> set ids) rows), t\<lparr>jt_rows := rows\<rparr>))"

definition update_job :: "int \<Rightarrow> (job_row \<Rightarrow> job_row) \<Rightarrow> job_table \<Rightarrow> job_table" where
  "update_job jid f t = t\<lparr>jt_rows := map (\<lambda>r. if jr_id r = jid then f r else r) (jt_rows t)\<rparr>"

definition complete :: "int \<Rightarrow> int \<Rightarrow> job_table \<Rightarrow> job_table" where
  "complete now jid = update_job jid (\<lambda>r. r\<lparr>jr_status := Completed, jr_completed_at := Some now,
     jr_locked_by := None, jr_locked_at := None\<rparr>)"

text \<open>\<open>attempt.clamp(1, 8)\<close> as an exponent; the jitter is the random number below 1000.\<close>

definition backoff_delay_ms :: "int \<Rightarrow> int \<Rightarrow> int" where
  "backoff_delay_ms attempt jitter_ms =
     (let capped = max 1 (min 8 attempt) in 2 ^ nat capped * 1000 + jitter_ms)"

definition fail_retry :: "int \<Rightarrow> int \<Rightarrow> job \<Rightarrow> str \<Rightarrow> job_table \<Rightarrow> job_table" where
  "fail_retry now jitter_ms j err =
     update_job (j_id j) (\<lambda>r. r\<lparr>jr_status := Pending,
       jr_next_run_at := now + backoff_delay_ms (j_attempts j) jitter_ms * 1000000,
       jr_last_error := Some err, jr_locked_by := None, jr_locked_at := None\<rparr>)"

definition fail_dead :: "int \<Rightarrow> int \<Rightarrow> str \<Rightarrow> job_table \<Rightarrow> job_table" where
  "fail_dead now jid err = update_job jid (\<lambda>r. r\<lparr>jr_status := Dead, jr_completed_at := Some now,
     jr_last_error := Some err, jr_locked_by := None, jr_locked_at := None\<rparr>)"

definition stuck :: "int \<Rightarrow> int \<Rightarrow> job_row \<Rightarrow> bool" where
  "stuck now max_lock_secs r \<longleftrightarrow> jr_status r = InProgress
     \<and> (case jr_locked_at r of Some t \<Rightarrow> t < now - max_lock_secs * second | None \<Rightarrow> False)"

definition reap_stuck :: "int \<Rightarrow> int \<Rightarrow> job_table \<Rightarrow> nat \<times> job_table" where
  "reap_stuck now max_lock_secs t =
     (length (filter (stuck now max_lock_secs) (jt_rows t)),
      t\<lparr>jt_rows := map (\<lambda>r. if stuck now max_lock_secs r
          then r\<lparr>jr_status := Pending, jr_next_run_at := now, jr_locked_by := None, jr_locked_at := None\<rparr>
          else r) (jt_rows t)\<rparr>)"

subsection \<open>The typed helpers\<close>

definition link_payload :: "str \<Rightarrow> str \<Rightarrow> json" where
  "link_payload guild_id role_id = JObj [(''guild_id'', JStr guild_id), (''role_id'', JStr role_id)]"

definition on_jobs :: "env \<Rightarrow> (int \<Rightarrow> job_table \<Rightarrow> job_table) \<Rightarrow> unit act" where
  "on_jobs E f w = db_exec E (\<lambda>d. d\<lparr>db_jobs := f (w_now w) (db_jobs d)\<rparr>) w"

definition enqueue_player_sync :: "env \<Rightarrow> player_sync_payload \<Rightarrow> unit act" where
  "enqueue_player_sync E p = on_jobs E (\<lambda>now. insert_job now PlayerSync (player_sync_to_json p) 0)"

definition enqueue_config_sync :: "env \<Rightarrow> str \<Rightarrow> str \<Rightarrow> unit act" where
  "enqueue_config_sync E g r = on_jobs E (\<lambda>now. insert_job now ConfigSync (link_payload g r) 5)"

definition queued :: "job_kind \<Rightarrow> json \<Rightarrow> job_table \<Rightarrow> bool" where
  "queued kind payload t \<longleftrightarrow> list_ex (\<lambda>r. jr_kind r = job_kind_as_str kind \<and> jr_status r = Pending
     \<and> jr_payload r = payload) (jt_rows t)"

definition enqueue_config_sync_unless_queued :: "env \<Rightarrow> str \<Rightarrow> str \<Rightarrow> nat \<Rightarrow> unit act" where
  "enqueue_config_sync_unless_queued E g r delay_secs = on_jobs E (\<lambda>now t.
     if queued ConfigSync (link_payload g r) t then t
     else insert_job now ConfigSync (link_payload g r) delay_secs t)"

definition enqueue_webhook :: "env \<Rightarrow> str \<Rightarrow> json \<Rightarrow> unit act" where
  "enqueue_webhook E url body =
     on_jobs E (\<lambda>now. insert_job now Webhook (JObj [(''body'', body), (''url'', JStr url)]) 0)"

subsection \<open>The table's well-formedness\<close>

definition row_ok :: "job_row \<Rightarrow> bool" where
  "row_ok r \<longleftrightarrow> (jr_status r = InProgress \<longleftrightarrow> jr_locked_by r \<noteq> None)
     \<and> (jr_locked_by r = None \<longleftrightarrow> jr_locked_at r = None) \<and> 0 \<le> jr_attempts r"

definition table_ok :: "job_table \<Rightarrow> bool" where
  "table_ok t \<longleftrightarrow> sorted_wrt (<) (map jr_id (jt_rows t)) \<and> (\<forall>r \<in> set (jt_rows t). jr_id r < jt_next_id t)
     \<and> list_all row_ok (jt_rows t)"

definition job_status_of :: "job_table \<Rightarrow> int \<Rightarrow> job_status option" where
  "job_status_of t jid = map_option jr_status (find (\<lambda>r. jr_id r = jid) (jt_rows t))"

lemma insert_job_ok: "table_ok t \<Longrightarrow> table_ok (insert_job now k p d t)"
  by (auto simp: table_ok_def insert_job_def new_job_row_def row_ok_def sorted_wrt_append less_Suc_eq
      intro: less_trans)

lemma map_rows_ok:
  assumes "table_ok t" and "\<And>r. jr_id (f r) = jr_id r" and "\<And>r. row_ok r \<Longrightarrow> row_ok (f r)"
  shows "table_ok (t\<lparr>jt_rows := map f (jt_rows t)\<rparr>)"
  using assms by (auto simp: table_ok_def comp_def list_all_iff)

lemma claim_batch_ok: "table_ok t \<Longrightarrow> table_ok (snd (claim_batch w n busy now t))"
  unfolding claim_batch_def Let_def snd_conv by (rule map_rows_ok) (auto simp: row_ok_def lease_row_def)

lemma update_job_ok:
  "table_ok t \<Longrightarrow> (\<And>r. jr_id (f r) = jr_id r) \<Longrightarrow> (\<And>r. row_ok r \<Longrightarrow> row_ok (f r)) \<Longrightarrow> table_ok (update_job i f t)"
  unfolding update_job_def by (rule map_rows_ok) auto

lemma settle_ok [wf_intros]:
  "table_ok t \<Longrightarrow> table_ok (complete now i t)"
  "table_ok t \<Longrightarrow> table_ok (fail_retry now jit j err t)"
  "table_ok t \<Longrightarrow> table_ok (fail_dead now i err t)"
  unfolding complete_def fail_retry_def fail_dead_def by (rule update_job_ok; simp add: row_ok_def)+

lemma reap_stuck_ok [wf_intros]: "table_ok t \<Longrightarrow> table_ok (snd (reap_stuck now s t))"
  unfolding reap_stuck_def snd_conv by (rule map_rows_ok) (auto simp: row_ok_def)

subsection \<open>Status after each statement\<close>

lemma find_map_same:
  "(\<And>r. jr_id (f r) = jr_id r) \<Longrightarrow>
     find (\<lambda>r. jr_id r = i) (map f rs) = map_option f (find (\<lambda>r. jr_id r = i) rs)"
  by (induction rs) auto

lemma find_id_eq: "find (\<lambda>r. jr_id r = i) rs = Some r \<Longrightarrow> jr_id r = i"
  by (induction rs) (auto split: if_splits)

lemma status_update_job:
  assumes "\<And>r. jr_id (f r) = jr_id r" and "\<And>r. jr_status (f r) = s"
  shows "job_status_of (update_job i f t) k =
    (if k = i then map_option (\<lambda>_. s) (job_status_of t k) else job_status_of t k)"
proof -
  have "job_status_of (update_job i f t) k =
    map_option (\<lambda>r. jr_status (if jr_id r = i then f r else r)) (find (\<lambda>r. jr_id r = k) (jt_rows t))"
    by (simp add: job_status_of_def update_job_def find_map_same assms option.map_comp comp_def)
  then show ?thesis
    by (cases "find (\<lambda>r. jr_id r = k) (jt_rows t)") (auto simp: job_status_of_def assms dest: find_id_eq)
qed

lemma status_complete [simp]: "job_status_of (complete now i t) k =
    (if k = i then map_option (\<lambda>_. Completed) (job_status_of t k) else job_status_of t k)"
  unfolding complete_def by (rule status_update_job) simp_all

lemma status_fail_retry [simp]: "job_status_of (fail_retry now jit j err t) k =
    (if k = j_id j then map_option (\<lambda>_. Pending) (job_status_of t k) else job_status_of t k)"
  unfolding fail_retry_def by (rule status_update_job) simp_all

lemma status_fail_dead [simp]: "job_status_of (fail_dead now i err t) k =
    (if k = i then map_option (\<lambda>_. Dead) (job_status_of t k) else job_status_of t k)"
  unfolding fail_dead_def by (rule status_update_job) simp_all

lemma find_append_case: "find P (xs @ ys) = (case find P xs of None \<Rightarrow> find P ys | Some x \<Rightarrow> Some x)"
  by (induction xs) auto

lemma status_insert_job:
  "table_ok t \<Longrightarrow> job_status_of t k \<noteq> None \<Longrightarrow> job_status_of (insert_job now kd p d t) k = job_status_of t k"
  by (auto simp: job_status_of_def insert_job_def find_append_case split: option.split)

lemma sorted_ids_find:
  assumes "sorted_wrt (<) (map jr_id rs)" and "r \<in> set rs"
  shows "find (\<lambda>x. jr_id x = jr_id r) rs = Some r"
  using assms by (induction rs) auto

lemma status_of_row: "table_ok t \<Longrightarrow> r \<in> set (jt_rows t) \<Longrightarrow> job_status_of t (jr_id r) = Some (jr_status r)"
  by (simp add: table_ok_def job_status_of_def sorted_ids_find)

lemma claimed_ids_pending:
  assumes "table_ok t" and "i \<in> set (claimed_ids now busy n t)"
  shows "job_status_of t i = Some Pending"
  using assms status_of_row by (auto simp: claimed_ids_def claimable_def dest!: in_set_takeD)

lemma status_claim_batch:
  assumes "claim_batch w n busy now t = (js, t')"
  shows "job_status_of t' i =
    (if i \<in> set (claimed_ids now busy n t) then map_option (\<lambda>_. InProgress) (job_status_of t i) else job_status_of t i)"
proof -
  let ?f = "\<lambda>r. if jr_id r \<in> set (claimed_ids now busy n t) then lease_row w now r else r"
  have "t' = t\<lparr>jt_rows := map ?f (jt_rows t)\<rparr>" using assms by (auto simp: claim_batch_def Let_def)
  then have "job_status_of t' i = map_option (\<lambda>r. jr_status (?f r)) (find (\<lambda>r. jr_id r = i) (jt_rows t))"
    by (simp add: job_status_of_def find_map_same lease_row_def option.map_comp comp_def)
  then show ?thesis
    by (cases "find (\<lambda>r. jr_id r = i) (jt_rows t)")
      (auto simp: job_status_of_def lease_row_def dest: find_id_eq)
qed

lemma claim_batch_jobs:
  assumes "claim_batch w n busy now t = (js, t')"
  shows "map j_id js = filter (\<lambda>i. i \<in> set (claimed_ids now busy n t)) (map jr_id (jt_rows t))"
  using assms
  by (auto simp: claim_batch_def Let_def filter_map comp_def job_of_row_def lease_row_def if_distrib
      cong: if_cong)

lemma sorted_wrt_distinct: "sorted_wrt (<) (xs::int list) \<Longrightarrow> distinct xs"
  by (simp add: strict_sorted_iff)

subsection \<open>What a worker relies on\<close>

locale leased_queue =
  fixes status :: "'t \<Rightarrow> int \<Rightarrow> job_status option"
    and claims :: "'t \<Rightarrow> 'j list \<Rightarrow> 't \<Rightarrow> bool"
    and settles :: "'t \<Rightarrow> 'j \<Rightarrow> job_status \<Rightarrow> 't \<Rightarrow> bool"
    and key :: "'j \<Rightarrow> int"
  assumes claims_pending: "claims t js t' \<Longrightarrow> j \<in> set js \<Longrightarrow>
      status t (key j) = Some Pending \<and> status t' (key j) = Some InProgress"
    and claims_distinct: "claims t js t' \<Longrightarrow> distinct (map key js)"
    and claims_other: "claims t js t' \<Longrightarrow> i \<notin> key ` set js \<Longrightarrow> status t' i = status t i"
    and settles_this: "settles t j s t' \<Longrightarrow> status t (key j) \<noteq> None \<Longrightarrow> status t' (key j) = Some s"
    and settles_other: "settles t j s t' \<Longrightarrow> i \<noteq> key j \<Longrightarrow> status t' i = status t i"
begin

text \<open>The jobs in hand are leased: each to one worker, and marked so in the table.\<close>

definition leased :: "'j list \<Rightarrow> 't \<Rightarrow> bool" where
  "leased hands t \<longleftrightarrow> distinct (map key hands) \<and> (\<forall>j \<in> set hands. status t (key j) = Some InProgress)"

lemma leased_claim:
  assumes "leased hands t" and "claims t js t'"
  shows "leased (hands @ js) t'"
proof -
  have "key ` set hands \<inter> key ` set js = {}"
    using assms(1) claims_pending [OF assms(2)] unfolding leased_def by fastforce
  moreover from this have "status t' (key j) = Some InProgress" if "j \<in> set (hands @ js)" for j
    using that assms(1) claims_pending [OF assms(2)] claims_other [OF assms(2), of "key j"]
    unfolding leased_def by (cases "j \<in> set js") auto
  ultimately show ?thesis
    using assms(1) claims_distinct [OF assms(2)] unfolding leased_def by simp
qed

lemma leased_settle:
  assumes "leased hands t" and "j \<in> set hands" and "settles t j s t'"
  shows "leased (remove1 j hands) t'"
proof -
  have d: "distinct (map key (remove1 j hands))" and k: "key j \<notin> key ` set (remove1 j hands)"
    using assms(1,2) unfolding leased_def by (auto simp: distinct_map inj_on_def)
  moreover have "status t' (key i) = Some InProgress" if "i \<in> set (remove1 j hands)" for i
    using settles_other [OF assms(3), of "key i"] k that assms(1) set_remove1_subset [of j hands]
    unfolding leased_def by (metis image_eqI subsetD)
  ultimately show ?thesis unfolding leased_def by blast
qed

lemma leased_drop: "leased hands t \<Longrightarrow> leased (remove1 j hands) t"
  unfolding leased_def using set_remove1_subset [of j hands] by (auto simp: distinct_map inj_on_def)

text \<open>A status that is neither pending nor in progress is final.\<close>

lemma final_claim:
  "claims t js t' \<Longrightarrow> status t i = Some s \<Longrightarrow> s \<noteq> Pending \<Longrightarrow> status t' i = Some s"
  using claims_pending claims_other by (metis imageE option.inject)

lemma final_settle:
  "leased hands t \<Longrightarrow> j \<in> set hands \<Longrightarrow> settles t j s' t' \<Longrightarrow> status t i = Some s \<Longrightarrow> s \<noteq> InProgress \<Longrightarrow>
     status t' i = Some s"
  unfolding leased_def using settles_other by (metis option.inject)

end

datatype outcome = Done | RetryLater int str | GiveUp str

definition settle :: "int \<Rightarrow> job \<Rightarrow> outcome \<Rightarrow> job_table \<Rightarrow> job_table" where
  "settle now j out t = (case out of
       Done \<Rightarrow> complete now (j_id j) t
     | RetryLater jitter err \<Rightarrow> fail_retry now jitter j err t
     | GiveUp err \<Rightarrow> fail_dead now (j_id j) err t)"

fun outcome_status :: "outcome \<Rightarrow> job_status" where
  "outcome_status Done = Completed"
| "outcome_status (RetryLater _ _) = Pending"
| "outcome_status (GiveUp _) = Dead"

lemma status_settle: "job_status_of (settle now j out t) k =
    (if k = j_id j then map_option (\<lambda>_. outcome_status out) (job_status_of t k) else job_status_of t k)"
  by (cases out) (simp_all add: settle_def)

lemma settle_table_ok: "table_ok t \<Longrightarrow> table_ok (settle now j out t)"
  by (cases out) (simp_all add: settle_def settle_ok)

definition claims_batch :: "job_table \<Rightarrow> job list \<Rightarrow> job_table \<Rightarrow> bool" where
  "claims_batch t js t' \<longleftrightarrow> table_ok t \<and> (\<exists>w n busy now. claim_batch w n busy now t = (js, t'))"

definition settles_job :: "job_table \<Rightarrow> job \<Rightarrow> job_status \<Rightarrow> job_table \<Rightarrow> bool" where
  "settles_job t j s t' \<longleftrightarrow> (\<exists>now out. s = outcome_status out \<and> t' = settle now j out t)"

interpretation queue: leased_queue job_status_of claims_batch settles_job j_id
proof
  fix t js t' j
  assume c: "claims_batch t js t'" and j: "j \<in> set js"
  then obtain w n busy now where b: "claim_batch w n busy now t = (js, t')" and ok: "table_ok t"
    by (auto simp: claims_batch_def)
  have "j_id j \<in> set (map j_id js)" using j by simp
  then have i: "j_id j \<in> set (claimed_ids now busy n t)"
    unfolding claim_batch_jobs [OF b] by auto
  then show "job_status_of t (j_id j) = Some Pending \<and> job_status_of t' (j_id j) = Some InProgress"
    using claimed_ids_pending [OF ok i] status_claim_batch [OF b] by simp
next
  fix t js t'
  assume "claims_batch t js t'"
  then obtain w n busy now where b: "claim_batch w n busy now t = (js, t')" and ok: "table_ok t"
    by (auto simp: claims_batch_def)
  show "distinct (map j_id js)"
    using ok unfolding claim_batch_jobs [OF b] table_ok_def by (simp add: sorted_wrt_distinct)
next
  fix t js t' i
  assume "claims_batch t js t'" and i: "i \<notin> j_id ` set js"
  then obtain w n busy now where b: "claim_batch w n busy now t = (js, t')" and ok: "table_ok t"
    by (auto simp: claims_batch_def)
  have "i \<notin> set (map j_id js)" using i by auto
  then have "i \<notin> set (claimed_ids now busy n t) \<or> i \<notin> jr_id ` set (jt_rows t)"
    unfolding claim_batch_jobs [OF b] by auto
  moreover have "set (claimed_ids now busy n t) \<subseteq> jr_id ` set (jt_rows t)"
    by (auto simp: claimed_ids_def dest!: in_set_takeD)
  ultimately show "job_status_of t' i = job_status_of t i"
    using status_claim_batch [OF b] by auto
next
  fix t j s t'
  assume "settles_job t j s t'" and "job_status_of t (j_id j) \<noteq> None"
  then show "job_status_of t' (j_id j) = Some s"
    by (auto simp: settles_job_def status_settle)
next
  fix t j s t' i
  assume "settles_job t j s t'" and "i \<noteq> j_id j"
  then show "job_status_of t' i = job_status_of t i"
    by (auto simp: settles_job_def status_settle)
qed

end
