(* ===== verification/Sync.thy ===== *)
theory Sync
  imports Gateway Jobs ConditionEval
begin

text \<open>
  \<open>services/sync.rs\<close>: the per-player sync, the bulk sync of a role link, the unlink, and what they
  share. The concurrent application of a player's actions is run in list order. Sets that the code
  orders (\<open>BTreeSet\<close>) are sorted lists without repetitions.
\<close>

record sync_config =
  sc_rolelogic :: str
  sc_gateway :: str
  sc_internal_key :: str

definition tree_set :: "str list \<Rightarrow> str list" where "tree_set xs = sort (remdups xs)"

lemma set_tree_set [simp]: "set (tree_set xs) = set xs"
  by (simp add: tree_set_def)

lemma tree_set_sorted [simp]: "sorted (tree_set xs)" and tree_set_distinct [simp]: "distinct (tree_set xs)"
  by (simp_all add: tree_set_def)

lemma tree_set_Nil_iff [simp]: "tree_set xs = [] \<longleftrightarrow> xs = []"
  by (metis set_empty set_tree_set)

lemma tree_set_eqI: "set xs = set ys \<Longrightarrow> tree_set xs = tree_set ys"
  by (metis set_tree_set sorted_distinct_set_unique tree_set_distinct tree_set_sorted)

subsection \<open>Eligibility of a member\<close>

definition read_conditions :: "json \<Rightarrow> condition list" where
  "read_conditions raw = List.map_filter condition_from_json (unwrap_or (as_array raw) [])"

definition eval_data :: "response_row \<Rightarrow> response_eval_data" where
  "eval_data r = \<lparr>red_answers = fr_answers r, red_total_score = fr_total_score r\<rparr>"

definition user_responses :: "str \<Rightarrow> str \<Rightarrow> db \<Rightarrow> response_row list" where
  "user_responses form_id discord_id d =
     filter (\<lambda>r. fr_form_id r = form_id \<and> fr_discord_id r = discord_id) (db_responses d)"

definition any_qualifies :: "env \<Rightarrow> bool \<Rightarrow> json \<Rightarrow> response_row list \<Rightarrow> bool" where
  "any_qualifies E grant_any raw_conditions rows =
     list_ex (\<lambda>r. evaluate (e_crates E) grant_any (read_conditions raw_conditions) (eval_data r)) rows"

text \<open>The scan of \<open>query_qualifying\<close>: a member already in the set is not tested again.\<close>

definition qualify_step :: "env \<Rightarrow> bool \<Rightarrow> condition list \<Rightarrow> str list \<Rightarrow> response_row \<Rightarrow> str list" where
  "qualify_step E grant_any conds acc r =
     (if fr_discord_id r \<in> set acc then acc
      else if evaluate (e_crates E) grant_any conds (eval_data r) then acc @ [fr_discord_id r]
      else acc)"

definition qualifying_ids :: "env \<Rightarrow> str \<Rightarrow> str list \<Rightarrow> bool \<Rightarrow> condition list \<Rightarrow> nat option \<Rightarrow> db \<Rightarrow> str list" where
  "qualifying_ids E form_id optout_ids grant_any conds limit d =
     (let rows = filter (\<lambda>r. fr_form_id r = form_id \<and> fr_discord_id r \<noteq> [] \<and> fr_discord_id r \<notin> set optout_ids)
                   (db_responses d);
          ids = tree_set (foldl (qualify_step E grant_any conds) [] rows)
      in case limit of None \<Rightarrow> ids | Some n \<Rightarrow> take n ids)"

definition query_qualifying ::
  "env \<Rightarrow> str \<Rightarrow> str list \<Rightarrow> bool \<Rightarrow> condition list \<Rightarrow> nat option \<Rightarrow> str list act" where
  "query_qualifying E form_id optout_ids grant_any conds limit =
     db_query E (qualifying_ids E form_id optout_ids grant_any conds limit)"

subsection \<open>Shared pieces\<close>

definition held_recheck_secs :: nat where "held_recheck_secs = 20 * 60"

definition recheck_held :: "env \<Rightarrow> str \<Rightarrow> str \<Rightarrow> unit act" where
  "recheck_held E g r = enqueue_config_sync_unless_queued E g r held_recheck_secs"

text \<open>Best effort: a failing statement is logged only.\<close>

definition delete_orphan_role_link :: "env \<Rightarrow> str \<Rightarrow> str \<Rightarrow> unit act" where
  "delete_orphan_role_link E g r =
     act_match (db_exec E (delete_link g r)) (\<lambda>_. act_ok ()) (\<lambda>_. act_ok ())"

text \<open>\<open>INSERT INTO role_assignments .. ON CONFLICT DO NOTHING\<close>, under the foreign key.\<close>

definition fk_violation :: db_error where
  "fk_violation = DbReported (Some ''23503'') (Some ''role_assignments_guild_id_role_id_fkey'')
     ''insert or update violates foreign key constraint''"

definition unique_violation :: db_error where
  "unique_violation = DbReported (Some ''23505'') (Some ''role_assignments_pkey'')
     ''duplicate key value violates unique constraint''"

definition insert_assignment :: "str \<Rightarrow> str \<Rightarrow> str \<Rightarrow> db \<Rightarrow> (db_error, unit \<times> db) result" where
  "insert_assignment g r u d =
     (let row = \<lparr>ra_guild_id = g, ra_role_id = r, ra_discord_id = u\<rparr> in
      if row \<in> set (db_assignments d) then Inr ((), d)
      else if (g, r) \<notin> link_key ` set (db_role_links d) then Inl fk_violation
      else Inr ((), d\<lparr>db_assignments := db_assignments d @ [row]\<rparr>))"

definition delete_assignment :: "str \<Rightarrow> str \<Rightarrow> str \<Rightarrow> db \<Rightarrow> db" where
  "delete_assignment g r u d = d\<lparr>db_assignments :=
     filter (\<lambda>a. \<not> (assignment_link a = (g, r) \<and> ra_discord_id a = u)) (db_assignments d)\<rparr>"

subsection \<open>Per-player sync\<close>

datatype sync_action = Add str str str | Remove str str str  \<comment> \<open>guild, role, token\<close>

text \<open>The opt-out lookups: the guilds opted out of, and those whose lookup failed.\<close>

fun vet_guilds ::
  "env \<Rightarrow> sync_config \<Rightarrow> str \<Rightarrow> str list \<Rightarrow> str list \<times> str list \<Rightarrow> world \<Rightarrow> (str list \<times> str list) \<times> world" where
  "vet_guilds E C discord_id [] acc w = (acc, w)"
| "vet_guilds E C discord_id (g # gs) acc w =
     (case fetch_guild_optout_ids E (sc_gateway C) (sc_internal_key C) g w of
        (Inr optouts, w') \<Rightarrow>
          vet_guilds E C discord_id gs
            (if discord_id \<in> set optouts then (g # fst acc, snd acc) else acc) w'
      | (Inl e, w') \<Rightarrow> vet_guilds E C discord_id gs (fst acc, g # snd acc) w')"

definition link_action :: "bool \<Rightarrow> bool \<Rightarrow> role_link \<Rightarrow> sync_action list" where
  "link_action qualifies assigned l =
     (if qualifies \<and> \<not> assigned then [Add (rl_guild_id l) (rl_role_id l) (rl_api_token l)]
      else if \<not> qualifies \<and> assigned then [Remove (rl_guild_id l) (rl_role_id l) (rl_api_token l)]
      else [])"

fun decide_actions ::
  "env \<Rightarrow> str \<Rightarrow> str list \<Rightarrow> str list \<Rightarrow> (str \<times> str) list \<Rightarrow> role_link list \<Rightarrow> sync_action list act" where
  "decide_actions E discord_id opted_out unknown existing [] = act_ok []"
| "decide_actions E discord_id opted_out unknown existing (l # ls) =
     (if rl_guild_id l \<in> set unknown then decide_actions E discord_id opted_out unknown existing ls
      else
        act_bind
          (if rl_guild_id l \<in> set opted_out then act_ok False
           else act_bind (db_query E (user_responses (unwrap_or (rl_form_id l) []) discord_id)) (\<lambda>rows.
             act_ok (any_qualifies E (rl_grant_on_any l) (rl_conditions l) rows)))
          (\<lambda>qualifies.
        act_bind (decide_actions E discord_id opted_out unknown existing ls) (\<lambda>rest.
          act_ok (link_action qualifies (link_key l \<in> set existing) l @ rest))))"

definition run_action :: "env \<Rightarrow> sync_config \<Rightarrow> str \<Rightarrow> sync_action \<Rightarrow> unit act" where
  "run_action E C u a =
     (case a of
        Add g r token \<Rightarrow>
          act_match (add_user E (sc_rolelogic C) g r u token)
            (\<lambda>_. act_match (db_stmt E (insert_assignment g r u)) (\<lambda>_. act_ok ()) (\<lambda>_. act_ok ()))
            (\<lambda>e. if e = ERoleLinkNotFound then delete_orphan_role_link E g r else act_ok ())
      | Remove g r token \<Rightarrow>
          act_match (remove_user E (sc_rolelogic C) g r u token)
            (\<lambda>_. act_match (db_exec E (delete_assignment g r u)) (\<lambda>_. act_ok ()) (\<lambda>_. act_ok ()))
            (\<lambda>e. if e = ERoleLinkNotFound then delete_orphan_role_link E g r else act_ok ()))"

fun run_actions :: "env \<Rightarrow> sync_config \<Rightarrow> str \<Rightarrow> sync_action list \<Rightarrow> unit act" where
  "run_actions E C u [] = act_ok ()"
| "run_actions E C u (a # as) = act_bind (run_action E C u a) (\<lambda>_. run_actions E C u as)"

definition deferred_result :: "str list \<Rightarrow> unit act" where
  "deferred_result unknown =
     (if unknown = [] then act_ok ()
      else act_fail (EInternal (''opt-out lookup failed for '' @ show_nat (length unknown)
             @ '' guild(s); retrying those'')))"

definition candidate_links :: "str list \<Rightarrow> db \<Rightarrow> role_link list" where
  "candidate_links guilds d =
     filter (\<lambda>l. rl_guild_id l \<in> set guilds \<and> rl_form_id l \<noteq> None) (db_role_links d)"

definition user_assignments :: "str \<Rightarrow> db \<Rightarrow> (str \<times> str) list" where
  "user_assignments u d = map assignment_link (filter (\<lambda>a. ra_discord_id a = u) (db_assignments d))"

definition respondent_guilds :: "str \<Rightarrow> db \<Rightarrow> str list" where
  "respondent_guilds u d = remdups (map fr_guild_id (filter (\<lambda>r. fr_discord_id r = u) (db_responses d)))"

definition sync_links :: "env \<Rightarrow> sync_config \<Rightarrow> str \<Rightarrow> (str \<times> str) list \<Rightarrow> role_link list \<Rightarrow> unit act" where
  "sync_links E C u existing links w =
     (case vet_guilds E C u (tree_set (map rl_guild_id links)) ([], []) w of ((opted_out, unknown), w') \<Rightarrow>
        act_bind (decide_actions E u opted_out unknown existing links) (\<lambda>actions.
          act_bind (run_actions E C u actions) (\<lambda>_. deferred_result unknown)) w')"

definition sync_for_player :: "env \<Rightarrow> sync_config \<Rightarrow> str \<Rightarrow> unit act" where
  "sync_for_player E C u =
     act_bind (fetch_user_guild_ids E (sc_gateway C) (sc_internal_key C) u) (\<lambda>gateway_guilds.
     act_bind (db_query E (respondent_guilds u)) (\<lambda>respondent.
     act_bind (db_query E (user_assignments u)) (\<lambda>existing.
       let candidates = tree_set (gateway_guilds @ respondent @ map fst existing) in
       if candidates = [] then act_ok ()
       else act_bind (db_query E (candidate_links candidates)) (\<lambda>links.
         if links = [] then act_ok () else sync_links E C u existing links))))"

subsection \<open>Bulk sync of a role link\<close>

text \<open>The arms shared by every list write: \<open>f\<close> on success, \<open>h\<close> on any other error.\<close>

definition after_upload ::
  "env \<Rightarrow> str \<Rightarrow> str \<Rightarrow> nat act \<Rightarrow> unit act \<Rightarrow> (app_error \<Rightarrow> unit act) \<Rightarrow> unit act" where
  "after_upload E g r upload f h =
     act_match upload (\<lambda>_. f) (\<lambda>e. case e of
         ERoleLinkNotFound \<Rightarrow> delete_orphan_role_link E g r
       | ERoleLinkDisabled \<Rightarrow> act_ok ()
       | ERemovalHeld \<Rightarrow> recheck_held E g r
       | _ \<Rightarrow> h e)"

text \<open>\<open>INSERT .. SELECT .. UNNEST\<close>: one statement, failing as a whole.\<close>

definition insert_assignments :: "str \<Rightarrow> str \<Rightarrow> str list \<Rightarrow> db \<Rightarrow> (db_error, unit \<times> db) result" where
  "insert_assignments g r ids d =
     (let rows = map (\<lambda>u. \<lparr>ra_guild_id = g, ra_role_id = r, ra_discord_id = u\<rparr>) ids in
      if \<not> distinct ids \<or> set rows \<inter> set (db_assignments d) \<noteq> {} then Inl unique_violation
      else if (g, r) \<notin> link_key ` set (db_role_links d) \<and> ids \<noteq> [] then Inl fk_violation
      else Inr ((), d\<lparr>db_assignments := db_assignments d @ rows\<rparr>))"

definition mirror_assignments :: "env \<Rightarrow> str \<Rightarrow> str \<Rightarrow> str list \<Rightarrow> unit act" where
  "mirror_assignments E g r final_ids =
     db_transaction E
       (act_bind (db_exec E (delete_link_assignments g r)) (\<lambda>_.
          if final_ids = [] then act_ok () else db_stmt E (insert_assignments g r final_ids)))"

definition find_link :: "str \<Rightarrow> str \<Rightarrow> db \<Rightarrow> role_link option" where
  "find_link g r d = find (\<lambda>l. link_key l = (g, r)) (db_role_links d)"

definition sync_bound_link ::
  "env \<Rightarrow> sync_config \<Rightarrow> str \<Rightarrow> str \<Rightarrow> str \<Rightarrow> str \<Rightarrow> bool \<Rightarrow> condition list \<Rightarrow> unit act" where
  "sync_bound_link E C g r token form_id grant_any conds =
     (let upload = (\<lambda>ids. upload_users E (sc_rolelogic C) g r ids token) in
      if \<not> grant_any \<and> conds = [] then
        after_upload E g r (upload []) (db_exec E (delete_link_assignments g r)) act_fail
      else
        act_bind (fetch_guild_optout_ids E (sc_gateway C) (sc_internal_key C) g) (\<lambda>optouts.
        act_bind (query_qualifying E form_id optouts grant_any conds None) (\<lambda>ids.
        act_bind (db_query E (\<lambda>d. sort (assigned_ids g r d))) (\<lambda>current.
          if current = ids then act_ok ()
          else after_upload E g r (upload ids) (mirror_assignments E g r ids)
            (\<lambda>e. case e of
               EUserLimitReached limit \<Rightarrow>
                 act_bind (query_qualifying E form_id optouts grant_any conds (Some limit)) (\<lambda>capped.
                   after_upload E g r (upload capped) (mirror_assignments E g r capped) act_fail)
             | _ \<Rightarrow> act_fail e)))))"

definition sync_for_role_link :: "env \<Rightarrow> sync_config \<Rightarrow> str \<Rightarrow> str \<Rightarrow> unit act" where
  "sync_for_role_link E C g r =
     act_bind (db_query E (find_link g r)) (\<lambda>link.
       case link of
         None \<Rightarrow> act_ok ()
       | Some l \<Rightarrow> (case rl_form_id l of
           None \<Rightarrow> act_ok ()
         | Some form_id \<Rightarrow>
             sync_bound_link E C g r (rl_api_token l) form_id (rl_grant_on_any l) (read_conditions (rl_conditions l))))"

subsection \<open>Unlink\<close>

definition assignment_tokens :: "str \<Rightarrow> db \<Rightarrow> (str \<times> str \<times> str) list" where
  "assignment_tokens u d = concat (map (\<lambda>a.
     map (\<lambda>l. (ra_guild_id a, ra_role_id a, rl_api_token l))
       (filter (\<lambda>l. link_key l = assignment_link a) (db_role_links d)))
     (filter (\<lambda>a. ra_discord_id a = u) (db_assignments d)))"

fun remove_each :: "env \<Rightarrow> sync_config \<Rightarrow> str \<Rightarrow> (str \<times> str \<times> str) list \<Rightarrow> unit act" where
  "remove_each E C u [] = act_ok ()"
| "remove_each E C u ((g, r, token) # rest) =
     act_bind
       (act_match (remove_user E (sc_rolelogic C) g r u token) (\<lambda>_. act_ok ())
          (\<lambda>e. if e = ERoleLinkNotFound then delete_orphan_role_link E g r else act_ok ()))
       (\<lambda>_. remove_each E C u rest)"

definition delete_user_assignments :: "str \<Rightarrow> db \<Rightarrow> db" where
  "delete_user_assignments u d = d\<lparr>db_assignments := filter (\<lambda>a. ra_discord_id a \<noteq> u) (db_assignments d)\<rparr>"

definition remove_all_assignments :: "env \<Rightarrow> sync_config \<Rightarrow> str \<Rightarrow> unit act" where
  "remove_all_assignments E C u =
     act_bind (db_query E (assignment_tokens u)) (\<lambda>assignments.
     act_bind (remove_each E C u assignments) (\<lambda>_.
       db_exec E (delete_user_assignments u)))"

subsection \<open>The qualifying set\<close>

lemma foldl_qualify:
  "set (foldl (qualify_step E ga conds) acc rows) =
     set acc \<union> fr_discord_id ` {r \<in> set rows. evaluate (e_crates E) ga conds (eval_data r)}"
  by (induction rows arbitrary: acc) (auto simp: qualify_step_def)

lemma set_qualifying_ids:
  "set (qualifying_ids E f opts ga conds None d) =
     fr_discord_id ` {r \<in> set (db_responses d). fr_form_id r = f \<and> fr_discord_id r \<noteq> []
        \<and> fr_discord_id r \<notin> set opts \<and> evaluate (e_crates E) ga conds (eval_data r)}"
  by (auto simp: qualifying_ids_def foldl_qualify)

lemma qualifying_ids_sorted [simp]:
  "sorted (qualifying_ids E f opts ga conds mx d)" "distinct (qualifying_ids E f opts ga conds mx d)"
  by (auto simp: qualifying_ids_def Let_def sorted_wrt_take split: option.split)

lemma qualifying_ids_limit:
  "qualifying_ids E f opts ga conds (Some n) d = take n (qualifying_ids E f opts ga conds None d)"
  by (simp add: qualifying_ids_def Let_def)

lemma any_qualifies_member:
  "any_qualifies E ga raw (user_responses f u d) \<longleftrightarrow>
     (\<exists>r \<in> set (db_responses d). fr_form_id r = f \<and> fr_discord_id r = u
        \<and> evaluate (e_crates E) ga (read_conditions raw) (eval_data r))"
  by (auto simp: any_qualifies_def user_responses_def list_ex_iff)

subsection \<open>Steps of the world\<close>

lemma db_query_cases:
  obtains e where "db_query E f w = (Inl e, w\<lparr>w_tick := w_tick w + 1\<rparr>)"
  | "db_query E f w = (Inr (f (w_db w)), w\<lparr>w_tick := w_tick w + 1\<rparr>)"
proof (cases "e_db_fault E (w_tick w)")
  case None
  then show thesis using that(2) by (simp add: db_query_def db_stmt_def Let_def)
next
  case (Some e)
  then show thesis using that(1) by (simp add: db_query_def db_stmt_def Let_def)
qed

lemma db_query_Inr: "db_query E f w = (Inr x, w') \<Longrightarrow> x = f (w_db w) \<and> w_db w' = w_db w \<and> w_now w' = w_now w"
  by (cases rule: db_query_cases [of E f w]) auto

lemma db_query_db [simp]: "w_db (snd (db_query E f w)) = w_db w"
  by (cases rule: db_query_cases [of E f w]) auto

definition planned_action :: "env \<Rightarrow> str \<Rightarrow> str list \<Rightarrow> str list \<Rightarrow> (str \<times> str) list \<Rightarrow> db \<Rightarrow> role_link \<Rightarrow> sync_action list" where
  "planned_action E u opted_out unknown existing d l =
     (if rl_guild_id l \<in> set unknown then []
      else link_action (rl_guild_id l \<notin> set opted_out
             \<and> any_qualifies E (rl_grant_on_any l) (rl_conditions l) (user_responses (unwrap_or (rl_form_id l) []) u d))
           (link_key l \<in> set existing) l)"

lemma decide_actions_exact:
  assumes "decide_actions E u opted_out unknown existing ls w = (Inr acts, w')"
  shows "acts = concat (map (planned_action E u opted_out unknown existing (w_db w)) ls) \<and> w_db w' = w_db w"
  using assms
proof (induction ls arbitrary: w acts w')
  case (Cons l ls)
  show ?case
  proof (cases "rl_guild_id l \<in> set unknown")
    case True
    then show ?thesis using Cons by (simp add: planned_action_def)
  next
    case False
    then obtain q w1 rest w2 where q: "(if rl_guild_id l \<in> set opted_out then act_ok False
           else act_bind (db_query E (user_responses (unwrap_or (rl_form_id l) []) u)) (\<lambda>rows.
             act_ok (any_qualifies E (rl_grant_on_any l) (rl_conditions l) rows))) w = (Inr q, w1)"
      and rest: "decide_actions E u opted_out unknown existing ls w1 = (Inr rest, w2)"
      and acts: "acts = link_action q (link_key l \<in> set existing) l @ rest" "w' = w2"
      using Cons.prems by (auto simp: act_bind_Inr)
    have "q = (rl_guild_id l \<notin> set opted_out \<and> any_qualifies E (rl_grant_on_any l) (rl_conditions l)
        (user_responses (unwrap_or (rl_form_id l) []) u (w_db w))) \<and> w_db w1 = w_db w"
      using q by (auto simp: act_bind_Inr dest: db_query_Inr split: if_splits)
    then show ?thesis using Cons.IH [OF rest] acts False by (simp add: planned_action_def)
  qed
qed simp

lemma keeps_decide: "keeps (on_db P) (decide_actions E u oo un ex ls)"
  by (induction ls) (auto intro!: keeps_bind)

lemma vet_guilds_db [simp]: "w_db (snd (vet_guilds E C u gs acc w)) = w_db w"
  by (induction gs arbitrary: acc w) (auto split: prod.split sum.split, (metis fetch_optout_state(1) snd_conv)+)

subsection \<open>The tables stay well-formed\<close>

lemma assignment_link_row [simp]: "assignment_link \<lparr>ra_guild_id = g, ra_role_id = r, ra_discord_id = u\<rparr> = (g, r)"
  by (simp add: assignment_link_def)

lemma insert_assignment_ok:
  assumes "db_ok d" and "insert_assignment g r u d = Inr (x, d')"
  shows "db_ok d'"
proof -
  let ?row = "\<lparr>ra_guild_id = g, ra_role_id = r, ra_discord_id = u\<rparr>"
  from assms(2) consider "d' = d"
    | "?row \<notin> set (db_assignments d)" "(g, r) \<in> link_key ` set (db_role_links d)"
      "d' = d\<lparr>db_assignments := db_assignments d @ [?row]\<rparr>"
    by (auto simp: insert_assignment_def Let_def split: if_splits)
  then show ?thesis using assms(1) by cases (simp_all add: db_ok_def)
qed

lemma delete_assignment_ok: "db_ok d \<Longrightarrow> db_ok (delete_assignment g r u d)"
  by (auto simp: db_ok_def delete_assignment_def)

lemma insert_assignments_ok:
  assumes "db_ok d" and "insert_assignments g r ids d = Inr (x, d')"
  shows "db_ok d'"
proof -
  let ?rows = "map (\<lambda>u. \<lparr>ra_guild_id = g, ra_role_id = r, ra_discord_id = u\<rparr>) ids"
  have "distinct ids" "set ?rows \<inter> set (db_assignments d) = {}"
    and fk: "ids \<noteq> [] \<longrightarrow> (g, r) \<in> link_key ` set (db_role_links d)"
    and d': "d' = d\<lparr>db_assignments := db_assignments d @ ?rows\<rparr>"
    using assms(2) by (auto simp: insert_assignments_def Let_def split: if_splits)
  moreover have "distinct ?rows" using \<open>distinct ids\<close> by (simp add: distinct_map inj_on_def)
  moreover have "assignment_link ` set ?rows \<subseteq> link_key ` set (db_role_links d)"
    using fk by (cases ids) auto
  ultimately show ?thesis using assms(1)
    by (simp add: db_ok_def image_Un Int_commute)
qed

lemma delete_user_assignments_ok: "db_ok d \<Longrightarrow> db_ok (delete_user_assignments u d)"
  by (auto simp: db_ok_def delete_user_assignments_def)

lemma insert_assignment_jobs: "insert_assignment g r u d = Inr (x, d') \<Longrightarrow> db_jobs d' = db_jobs d"
  unfolding insert_assignment_def Let_def by (auto split: if_splits)

lemma insert_assignments_jobs:
  assumes "insert_assignments g r ids d = Inr (x, d')"
  shows "db_jobs d' = db_jobs d"
proof -
  have "d' = d\<lparr>db_assignments := db_assignments d @ map (\<lambda>u. \<lparr>ra_guild_id = g, ra_role_id = r, ra_discord_id = u\<rparr>) ids\<rparr>"
    using assms by (auto simp: insert_assignments_def Let_def split: if_splits)
  then show ?thesis by simp
qed

lemma jobs_ok: "db_ok (d\<lparr>db_jobs := t\<rparr>) = db_ok d"
  by (simp add: db_ok_def)

text \<open>What a property of the tables must survive to be preserved by every sync: the statements the
  syncs issue.\<close>

locale sync_invariant =
  fixes P :: "db \<Rightarrow> bool"
  assumes unlinked: "P d \<Longrightarrow> P (delete_link g r d)"
    and drained: "P d \<Longrightarrow> P (delete_link_assignments g r d)"
    and added: "P d \<Longrightarrow> insert_assignment g r u d = Inr (x, d') \<Longrightarrow> P d'"
    and mirrored: "P d \<Longrightarrow> insert_assignments g r ids d = Inr (x, d') \<Longrightarrow> P d'"
    and removed: "P d \<Longrightarrow> P (delete_assignment g r u d)"
    and forgotten: "P d \<Longrightarrow> P (delete_user_assignments u d)"
    and enqueued: "P d \<Longrightarrow> P (d\<lparr>db_jobs := insert_job now k p n (db_jobs d)\<rparr>)"
begin

lemma keeps_orphan [intro]: "keeps (on_db P) (delete_orphan_role_link E g r)"
  unfolding delete_orphan_role_link_def by (intro keeps_match keeps_exec unlinked) auto

lemma keeps_recheck [intro]: "keeps (on_db P) (recheck_held E g r)"
  unfolding recheck_held_def enqueue_config_sync_unless_queued_def on_jobs_def
  by (rule keepsI) (auto simp: on_db_def db_exec_def db_stmt_def Let_def enqueued split: option.split)

lemma keeps_run_action: "keeps (on_db P) (run_action E C u a)"
proof (cases a)
  case (Add g r token)
  have "keeps (on_db P) (db_stmt E (insert_assignment g r u))"
    by (rule keeps_stmt) (rule added)
  then show ?thesis unfolding Add run_action_def sync_action.case
    by (intro keeps_match keeps_api keeps_if keeps_orphan keeps_ok)
next
  case (Remove g r token)
  have "keeps (on_db P) (db_exec E (delete_assignment g r u))"
    by (rule keeps_exec) (rule removed)
  then show ?thesis unfolding Remove run_action_def sync_action.case
    by (intro keeps_match keeps_api keeps_if keeps_orphan keeps_ok)
qed

lemma keeps_run_actions: "keeps (on_db P) (run_actions E C u as)"
  by (induction as) (auto intro!: keeps_bind keeps_run_action)

lemma keeps_sync_links: "keeps (on_db P) (sync_links E C u ex ls)"
proof (rule keepsI)
  fix w assume w: "on_db P w"
  obtain oo un w1 where v: "vet_guilds E C u (tree_set (map rl_guild_id ls)) ([], []) w = ((oo, un), w1)"
    by (metis surj_pair)
  have "on_db P w1" using w v by (metis on_db_def snd_conv vet_guilds_db)
  moreover have "keeps (on_db P) (act_bind (decide_actions E u oo un ex ls) (\<lambda>actions.
          act_bind (run_actions E C u actions) (\<lambda>_. deferred_result un)))"
    by (intro keeps_bind keeps_decide keeps_run_actions) (simp add: deferred_result_def)
  ultimately show "on_db P (snd (sync_links E C u ex ls w))"
    by (simp add: sync_links_def v keepsD)
qed

lemma keeps_sync_for_player: "keeps (on_db P) (sync_for_player E C u)"
  unfolding sync_for_player_def Let_def by (intro keeps_bind keeps_fetch keeps_query) (auto intro!: keeps_bind keeps_sync_links)

lemma keeps_after_upload:
  "keeps (on_db P) m \<Longrightarrow> keeps (on_db P) f \<Longrightarrow> (\<And>e. keeps (on_db P) (h e)) \<Longrightarrow>
     keeps (on_db P) (after_upload E g r m f h)"
  unfolding after_upload_def
  by (intro keeps_match) (auto split: app_error.split)

lemma keeps_mirror: "keeps (on_db P) (mirror_assignments E g r ids)"
  unfolding mirror_assignments_def
  by (intro keeps_transaction keeps_bind keeps_exec drained) (auto intro: keeps_stmt mirrored)

lemma keeps_sync_for_role_link: "keeps (on_db P) (sync_for_role_link E C g r)"
proof -
  have "keeps (on_db P) (sync_bound_link E C g r t f ga cs)" for t f ga cs
    unfolding sync_bound_link_def Let_def query_qualifying_def
    by (auto intro!: keeps_bind keeps_after_upload keeps_exec keeps_mirror drained split: app_error.split)
  then show ?thesis
    unfolding sync_for_role_link_def by (intro keeps_bind) (auto split: option.split)
qed

lemma keeps_remove_each: "keeps (on_db P) (remove_each E C u xs)"
proof (induction xs)
  case (Cons x xs)
  obtain g r t where "x = (g, r, t)" by (metis surj_pair)
  then show ?case using Cons
    by (simp only: remove_each.simps) (intro keeps_bind keeps_match keeps_api keeps_if keeps_orphan keeps_ok)
qed simp

lemma keeps_remove_all: "keeps (on_db P) (remove_all_assignments E C u)"
  unfolding remove_all_assignments_def
  by (intro keeps_bind keeps_query keeps_remove_each keeps_exec forgotten)

end

interpretation mirror: sync_invariant db_ok
  by unfold_locales
    (fact delete_link_ok delete_link_assignments_ok insert_assignment_ok insert_assignments_ok delete_assignment_ok
      delete_user_assignments_ok | simp add: jobs_ok)+

text \<open>The syncs only add jobs: a job of the table keeps its status.\<close>

definition has_job :: "int \<Rightarrow> job_status \<Rightarrow> db \<Rightarrow> bool" where
  "has_job i s d \<longleftrightarrow> table_ok (db_jobs d) \<and> job_status_of (db_jobs d) i = Some s"

interpretation job_kept: sync_invariant "has_job i s" for i s
proof
  fix d d' g r u ids x
  assume "has_job i s d"
  then show "insert_assignment g r u d = Inr (x, d') \<Longrightarrow> has_job i s d'"
    and "insert_assignments g r ids d = Inr (x, d') \<Longrightarrow> has_job i s d'"
    unfolding has_job_def by (metis insert_assignment_jobs, metis insert_assignments_jobs)
qed (simp_all add: has_job_def delete_link_def delete_link_assignments_def delete_assignment_def
      delete_user_assignments_def insert_job_ok status_insert_job)

subsection \<open>What the bulk sync leaves\<close>

lemma keeps_query_bind:
  "(\<And>d. P d \<Longrightarrow> keeps (on_db P) (f (q d))) \<Longrightarrow> keeps (on_db P) (act_bind (db_query E q) f)"
proof (rule keepsI)
  fix w assume *: "\<And>d. P d \<Longrightarrow> keeps (on_db P) (f (q d))" and w: "on_db P w"
  show "on_db P (snd (act_bind (db_query E q) f w))"
    using w *[of "w_db w"]
    by (cases rule: db_query_cases [of E q w]) (auto simp: act_bind_def on_db_def keeps_def)
qed

lemma keeps_bind_returned:
  assumes "keeps P m" and "\<And>x w w'. m w = (Inr x, w') \<Longrightarrow> keeps P (f x)"
  shows "keeps P (act_bind m f)"
proof (rule keepsI)
  fix w assume "P w"
  then show "P (snd (act_bind m f w))"
    using keepsD [OF assms(1), of w] assms(2) [of w] keepsD [of P]
    by (cases "m w"; cases "fst (m w)") (auto simp: act_bind_def)
qed

lemma transaction_Inr:
  "db_transaction E m w = (Inr x, w') \<Longrightarrow> \<exists>w1 w2. w_db w1 = w_db w \<and> m w1 = (Inr x, w2) \<and> w_db w' = w_db w2"
  by (auto simp: db_transaction_def act_bind_Inr dest!: db_query_Inr split: prod.splits sum.splits)

lemma db_exec_Inr: "db_exec E f w = (Inr x, w') \<Longrightarrow> w_db w' = f (w_db w)"
  by (auto simp: db_exec_def db_stmt_def Let_def split: option.splits)

lemma db_stmt_Inr: "db_stmt E f w = (Inr x, w') \<Longrightarrow> \<exists>d. f (w_db w) = Inr (x, d) \<and> w_db w' = d"
  by (auto simp: db_stmt_def Let_def split: option.splits sum.splits prod.splits)

definition mirrored :: "str \<Rightarrow> str \<Rightarrow> str list \<Rightarrow> db \<Rightarrow> db" where
  "mirrored g r ids d = (delete_link_assignments g r d)\<lparr>db_assignments :=
     filter (\<lambda>a. assignment_link a \<noteq> (g, r)) (db_assignments d)
       @ map (\<lambda>u. \<lparr>ra_guild_id = g, ra_role_id = r, ra_discord_id = u\<rparr>) ids\<rparr>"

lemma mirror_assignments_db:
  assumes "mirror_assignments E g r ids w = (res, w')"
  shows "w_db w' = (case res of Inl _ \<Rightarrow> w_db w | Inr _ \<Rightarrow> mirrored g r ids (w_db w))"
proof (cases res)
  case (Inl e)
  then show ?thesis using assms by (auto simp: mirror_assignments_def dest: transaction_error_keeps_db)
next
  case (Inr x)
  then obtain w1 w2 where w1: "w_db w1 = w_db w" and w2: "w_db w' = w_db w2"
    and run: "act_bind (db_exec E (delete_link_assignments g r)) (\<lambda>_.
          if ids = [] then act_ok () else db_stmt E (insert_assignments g r ids)) w1 = (Inr x, w2)"
    using assms unfolding mirror_assignments_def by (auto dest!: transaction_Inr)
  from run obtain y w3 where "db_exec E (delete_link_assignments g r) w1 = (Inr y, w3)"
    and ins: "(if ids = [] then act_ok () else db_stmt E (insert_assignments g r ids)) w3 = (Inr x, w2)"
    by (auto simp: act_bind_Inr)
  then have w3: "w_db w3 = delete_link_assignments g r (w_db w)"
    using w1 by (auto dest: db_exec_Inr)
  show ?thesis
  proof (cases "ids = []")
    case True
    then show ?thesis using ins w2 w3 Inr by (simp add: mirrored_def delete_link_assignments_def)
  next
    case False
    then obtain d where "insert_assignments g r ids (w_db w3) = Inr (x, d)" "w_db w2 = d"
      using ins db_stmt_Inr by fastforce
    then show ?thesis using w2 w3 Inr
      by (auto simp: mirrored_def delete_link_assignments_def insert_assignments_def Let_def split: if_splits)
  qed
qed

lemma assigned_ids_mirrored [simp]:
  "assigned_ids g' r' (mirrored g r ids d) = (if (g', r') = (g, r) then ids else assigned_ids g' r' d)"
proof -
  have "filter (\<lambda>a. assignment_link a = k) (filter (\<lambda>a. assignment_link a \<noteq> k') xs)
      = (if k = k' then [] else filter (\<lambda>a. assignment_link a = k) xs)" for k k' xs
    by (induction xs) auto
  then show ?thesis by (auto simp: assigned_ids_def mirrored_def comp_def filter_empty_conv)
qed

lemma assigned_ids_delete_link [simp]:
  "assigned_ids g' r' (delete_link g r d) = (if (g', r') = (g, r) then [] else assigned_ids g' r' d)"
  "assigned_ids g' r' (delete_link_assignments g r d) = (if (g', r') = (g, r) then [] else assigned_ids g' r' d)"
  by (auto simp: assigned_ids_def delete_link_def delete_link_assignments_def filter_empty_conv
      intro!: arg_cong [where f = "map _"] filter_cong)

lemma other_tables [simp]:
  "db_responses (mirrored g r ids d) = db_responses d"
  "db_responses (delete_link g r d) = db_responses d"
  "db_responses (delete_link_assignments g r d) = db_responses d"
  by (simp_all add: mirrored_def delete_link_def delete_link_assignments_def)

text \<open>The possible mirrors of a link: what it was, nothing, or a qualifying set of these responses.\<close>

definition sync_target :: "env \<Rightarrow> sync_config \<Rightarrow> str \<Rightarrow> str \<Rightarrow> bool \<Rightarrow> condition list \<Rightarrow> db \<Rightarrow> str list \<Rightarrow> bool" where
  "sync_target E C g f ga conds d ids \<longleftrightarrow>
     (\<exists>opts lm w1. fst (fetch_guild_optout_ids E (sc_gateway C) (sc_internal_key C) g w1) = Inr opts
        \<and> ids = qualifying_ids E f opts ga conds lm d)"

definition mirror_inv :: "env \<Rightarrow> sync_config \<Rightarrow> str \<Rightarrow> str \<Rightarrow> str \<Rightarrow> bool \<Rightarrow> condition list \<Rightarrow> db \<Rightarrow> db \<Rightarrow> bool" where
  "mirror_inv E C g r f ga conds d0 d \<longleftrightarrow>
     db_responses d = db_responses d0
     \<and> (\<forall>g' r'. (g', r') \<noteq> (g, r) \<longrightarrow> assigned_ids g' r' d = assigned_ids g' r' d0)
     \<and> (assigned_ids g r d = assigned_ids g r d0 \<or> assigned_ids g r d = []
        \<or> sync_target E C g f ga conds d0 (assigned_ids g r d))"

lemma mirror_inv_ops:
  assumes "mirror_inv E C g r f ga conds d0 d"
  shows "mirror_inv E C g r f ga conds d0 (delete_link g r d)"
    and "mirror_inv E C g r f ga conds d0 (delete_link_assignments g r d)"
    and "mirror_inv E C g r f ga conds d0 (d\<lparr>db_jobs := t\<rparr>)"
    and "sync_target E C g f ga conds d0 ids \<Longrightarrow> mirror_inv E C g r f ga conds d0 (mirrored g r ids d)"
  using assms by (auto simp: mirror_inv_def) (simp_all add: assigned_ids_def)

lemma keeps_inv_mirror:
  assumes "sync_target E C g f ga conds d0 ids"
  shows "keeps (on_db (mirror_inv E C g r f ga conds d0)) (mirror_assignments E g r ids)"
proof (rule keepsI)
  fix w assume "on_db (mirror_inv E C g r f ga conds d0) w"
  then show "on_db (mirror_inv E C g r f ga conds d0) (snd (mirror_assignments E g r ids w))"
    using mirror_assignments_db [of E g r ids w "fst (mirror_assignments E g r ids w)" "snd (mirror_assignments E g r ids w)"]
      mirror_inv_ops(4) [OF _ assms]
    by (simp add: on_db_def split: sum.splits)
qed

lemma keeps_inv_after_upload:
  assumes "keeps (on_db (mirror_inv E C g r f ga conds d0)) m"
    and "keeps (on_db (mirror_inv E C g r f ga conds d0)) k"
    and "\<And>e. keeps (on_db (mirror_inv E C g r f ga conds d0)) (h e)"
  shows "keeps (on_db (mirror_inv E C g r f ga conds d0)) (after_upload E g r m k h)"
proof -
  let ?P = "mirror_inv E C g r f ga conds d0"
  have orphan: "keeps (on_db ?P) (delete_orphan_role_link E g r)"
    unfolding delete_orphan_role_link_def by (intro keeps_match keeps_exec mirror_inv_ops(1) keeps_ok)
  have held: "keeps (on_db ?P) (recheck_held E g r)"
    unfolding recheck_held_def enqueue_config_sync_unless_queued_def on_jobs_def
    by (rule keepsI) (auto simp: on_db_def db_exec_def db_stmt_def Let_def mirror_inv_ops(3) split: option.split)
  show ?thesis
    unfolding after_upload_def
    by (intro keeps_match assms) (auto split: app_error.split intro: orphan held assms(3))
qed

lemma sync_target_query:
  assumes "fetch_guild_optout_ids E (sc_gateway C) (sc_internal_key C) g w1 = (Inr opts, w2)"
    and "db_responses d = db_responses d0"
  shows "sync_target E C g f ga conds d0 (qualifying_ids E f opts ga conds lm d)"
proof -
  have "qualifying_ids E f opts ga conds lm d = qualifying_ids E f opts ga conds lm d0"
    using assms(2) by (simp add: qualifying_ids_def)
  then show ?thesis unfolding sync_target_def using assms(1)
    by (intro exI [of _ opts] exI [of _ lm] exI [of _ w1]) simp
qed

lemma keeps_inv_sync_bound:
  "keeps (on_db (mirror_inv E C g r f ga conds d0)) (sync_bound_link E C g r token f ga conds)"
proof -
  let ?P = "mirror_inv E C g r f ga conds d0"
  let ?up = "\<lambda>ids. upload_users E (sc_rolelogic C) g r ids token"
  have empty: "keeps (on_db ?P) (after_upload E g r (?up []) (db_exec E (delete_link_assignments g r)) act_fail)"
    by (intro keeps_inv_after_upload keeps_api keeps_exec mirror_inv_ops(2) keeps_fail)
  have bound: "keeps (on_db ?P) (act_bind (fetch_guild_optout_ids E (sc_gateway C) (sc_internal_key C) g) (\<lambda>optouts.
        act_bind (query_qualifying E f optouts ga conds None) (\<lambda>ids.
        act_bind (db_query E (\<lambda>d. sort (assigned_ids g r d))) (\<lambda>current.
          if current = ids then act_ok ()
          else after_upload E g r (?up ids) (mirror_assignments E g r ids)
            (\<lambda>e. case e of
               EUserLimitReached limit \<Rightarrow>
                 act_bind (query_qualifying E f optouts ga conds (Some limit)) (\<lambda>capped.
                   after_upload E g r (?up capped) (mirror_assignments E g r capped) act_fail)
             | _ \<Rightarrow> act_fail e)))))"
  proof (rule keeps_bind_returned, goal_cases)
    case (2 opts w1 w2)
    have t: "sync_target E C g f ga conds d0 (qualifying_ids E f opts ga conds lm d)" if "?P d" for lm d
      using sync_target_query [OF 2] that by (simp add: mirror_inv_def)
    have capped: "keeps (on_db ?P) (act_bind (query_qualifying E f opts ga conds (Some limit)) (\<lambda>capped.
                   after_upload E g r (?up capped) (mirror_assignments E g r capped) act_fail))" for limit
      unfolding query_qualifying_def
      by (rule keeps_query_bind) (intro keeps_inv_after_upload keeps_api keeps_inv_mirror t keeps_fail)
    have h: "keeps (on_db ?P) (case e of
               EUserLimitReached limit \<Rightarrow>
                 act_bind (query_qualifying E f opts ga conds (Some limit)) (\<lambda>capped.
                   after_upload E g r (?up capped) (mirror_assignments E g r capped) act_fail)
             | _ \<Rightarrow> act_fail e)" for e
      by (cases e) (auto intro: capped)
    show ?case
      unfolding query_qualifying_def [of E f opts ga conds None]
      by (rule keeps_query_bind)
        (intro keeps_bind keeps_query keeps_if keeps_ok keeps_inv_after_upload keeps_api keeps_inv_mirror t h)
  qed simp
  show ?thesis
    unfolding sync_bound_link_def Let_def by (intro keeps_if empty bound)
qed

subsection \<open>A sync that meets no failure\<close>

definition no_faults :: "env \<Rightarrow> bool" where "no_faults E \<longleftrightarrow> (\<forall>n. e_db_fault E n = None)"

lemma db_query_run: "no_faults E \<Longrightarrow> db_query E q w = (Inr (q (w_db w)), w\<lparr>w_tick := w_tick w + 1\<rparr>)"
  by (simp add: no_faults_def db_query_def db_stmt_def Let_def)

lemma db_exec_run: "no_faults E \<Longrightarrow> db_exec E f w = (Inr (), w\<lparr>w_tick := w_tick w + 1, w_db := f (w_db w)\<rparr>)"
  by (simp add: no_faults_def db_exec_def db_stmt_def Let_def)

lemma db_stmt_run:
  "no_faults E \<Longrightarrow> f (w_db w) = Inr (x, d) \<Longrightarrow>
     db_stmt E f w = (Inr x, w\<lparr>w_tick := w_tick w + 1, w_db := d\<rparr>)"
  by (simp add: no_faults_def db_stmt_def Let_def)

lemma insert_after_delete:
  assumes "distinct ids" and "(g, r) \<in> link_key ` set (db_role_links d)"
  shows "insert_assignments g r ids (delete_link_assignments g r d) = Inr ((), mirrored g r ids d)"
proof -
  have "set (map (\<lambda>u. \<lparr>ra_guild_id = g, ra_role_id = r, ra_discord_id = u\<rparr>) ids)
      \<inter> set (db_assignments (delete_link_assignments g r d)) = {}"
    by (auto simp: delete_link_assignments_def)
  then show ?thesis using assms
    by (simp add: insert_assignments_def Let_def mirrored_def) (simp add: delete_link_assignments_def)
qed

lemma mirror_assignments_run:
  assumes "no_faults E" and "distinct ids" and "(g, r) \<in> link_key ` set (db_role_links (w_db w))"
  shows "\<exists>w'. mirror_assignments E g r ids w = (Inr (), w') \<and> w_db w' = mirrored g r ids (w_db w)"
proof (cases "ids = []")
  case True
  then show ?thesis
    by (simp add: mirror_assignments_def db_transaction_def act_bind_def db_query_run [OF assms(1)]
        db_exec_run [OF assms(1)] mirrored_def delete_link_assignments_def)
next
  case False
  let ?w1 = "w\<lparr>w_tick := w_tick w + 2, w_db := delete_link_assignments g r (w_db w)\<rparr>"
  have "db_stmt E (insert_assignments g r ids) ?w1 =
      (Inr (), ?w1\<lparr>w_tick := w_tick ?w1 + 1, w_db := mirrored g r ids (w_db w)\<rparr>)"
    using insert_after_delete [OF assms(2,3)] by (intro db_stmt_run assms(1)) simp
  then show ?thesis using False
    by (simp add: mirror_assignments_def db_transaction_def act_bind_def db_query_run [OF assms(1)]
        db_exec_run [OF assms(1)])
qed

text \<open>The other side answers: the gateway with one opt-out list, RoleLogic with acceptance.\<close>

definition accepting :: "env \<Rightarrow> sync_config \<Rightarrow> str \<Rightarrow> str \<Rightarrow> str \<Rightarrow> str list \<Rightarrow> bool" where
  "accepting E C g r token opts \<longleftrightarrow>
     no_faults E
     \<and> (\<forall>w. fst (fetch_guild_optout_ids E (sc_gateway C) (sc_internal_key C) g w) = Inr opts)
     \<and> (\<forall>ids w. \<exists>n. fst (upload_users E (sc_rolelogic C) g r ids token w) = Inr n)"

lemma accepting_fetch:
  "accepting E C g r token opts \<Longrightarrow>
     \<exists>w'. fetch_guild_optout_ids E (sc_gateway C) (sc_internal_key C) g w = (Inr opts, w') \<and> w_db w' = w_db w"
  unfolding accepting_def by (metis fetch_optout_state(1) prod.collapse)

lemma accepting_upload:
  "accepting E C g r token opts \<Longrightarrow>
     \<exists>n w'. upload_users E (sc_rolelogic C) g r ids token w = (Inr n, w') \<and> w_db w' = w_db w"
  unfolding accepting_def by (metis api_db(3) prod.collapse)

lemma accepted_mirror:
  assumes "accepting E C g r token opts" and "distinct ids" and "(g, r) \<in> link_key ` set (db_role_links (w_db w))"
  shows "\<exists>w'. after_upload E g r (upload_users E (sc_rolelogic C) g r ids token) (mirror_assignments E g r ids) h w
      = (Inr (), w') \<and> w_db w' = mirrored g r ids (w_db w)"
proof -
  obtain n w1 where up: "upload_users E (sc_rolelogic C) g r ids token w = (Inr n, w1)" "w_db w1 = w_db w"
    using accepting_upload [OF assms(1)] by blast
  obtain w2 where "mirror_assignments E g r ids w1 = (Inr (), w2)" "w_db w2 = mirrored g r ids (w_db w1)"
    using mirror_assignments_run [of E ids g r w1] assms up by (auto simp: accepting_def)
  then show ?thesis using up by (auto simp: after_upload_def act_match_def)
qed

lemma unconfigured_qualifying [simp]: "qualifying_ids E f opts False [] lm d = []"
proof -
  have "foldl (qualify_step E False []) [] rows = []" for rows
    by (induction rows) (auto simp: qualify_step_def)
  then show ?thesis by (simp add: qualifying_ids_def Let_def split: option.split)
qed

lemma sort_id: "sorted xs \<Longrightarrow> sort xs = (xs :: str list)"
  by (rule sort_key_id_if_sorted) simp

lemma sync_bound_success:
  assumes acc: "accepting E C g r token opts" and link: "(g, r) \<in> link_key ` set (db_role_links (w_db w))"
  shows "\<exists>w'. sync_bound_link E C g r token f ga conds w = (Inr (), w')
    \<and> sort (assigned_ids g r (w_db w')) = qualifying_ids E f opts ga conds None (w_db w)
    \<and> db_responses (w_db w') = db_responses (w_db w) \<and> db_role_links (w_db w') = db_role_links (w_db w)"
proof (cases "\<not> ga \<and> conds = []")
  case True
  obtain n w1 where up: "upload_users E (sc_rolelogic C) g r [] token w = (Inr n, w1)" "w_db w1 = w_db w"
    using accepting_upload [OF acc] by blast
  then show ?thesis using True acc
    by (auto simp: sync_bound_link_def Let_def after_upload_def act_match_def accepting_def db_exec_run
        delete_link_assignments_def assigned_ids_def)
next
  case False
  let ?q = "qualifying_ids E f opts ga conds None (w_db w)"
  have nf: "no_faults E" using acc by (simp add: accepting_def)
  obtain w1 where w1: "fetch_guild_optout_ids E (sc_gateway C) (sc_internal_key C) g w = (Inr opts, w1)"
    "w_db w1 = w_db w" using accepting_fetch [OF acc] by blast
  let ?w2 = "w1\<lparr>w_tick := w_tick w1 + 2\<rparr>"
  let ?up = "after_upload E g r (upload_users E (sc_rolelogic C) g r ?q token) (mirror_assignments E g r ?q)
    (\<lambda>e. case e of
       EUserLimitReached limit \<Rightarrow>
         act_bind (query_qualifying E f opts ga conds (Some limit)) (\<lambda>capped.
           after_upload E g r (upload_users E (sc_rolelogic C) g r capped token) (mirror_assignments E g r capped) act_fail)
     | _ \<Rightarrow> act_fail e)"
  have run: "sync_bound_link E C g r token f ga conds w =
      (if sort (assigned_ids g r (w_db w)) = ?q then act_ok () else ?up) ?w2"
    unfolding sync_bound_link_def Let_def if_not_P [OF False]
    by (simp add: act_bind_def w1 query_qualifying_def [of E f opts ga conds None] db_query_run [OF nf]
        eval_nat_numeral)
  show ?thesis
  proof (cases "sort (assigned_ids g r (w_db w)) = ?q")
    case True
    then show ?thesis unfolding run by (simp add: w1)
  next
    case upload: False
    obtain w3 where "?up ?w2 = (Inr (), w3)" "w_db w3 = mirrored g r ?q (w_db ?w2)"
      using accepted_mirror [OF acc, of ?q ?w2] link w1 by auto
    then show ?thesis unfolding run using upload w1
      by (simp add: sort_id) (simp add: mirrored_def delete_link_assignments_def)
  qed
qed

lemma find_link_Some: "find_link g r d = Some l \<Longrightarrow> l \<in> set (db_role_links d) \<and> link_key l = (g, r)"
  unfolding find_link_def by (induction "db_role_links d" arbitrary: d) (auto simp: find_Some_iff in_set_conv_nth)

lemma sync_for_role_link_run:
  assumes "no_faults E" and "find_link g r (w_db w) = Some l" and "rl_form_id l = Some f"
  shows "sync_for_role_link E C g r w =
    sync_bound_link E C g r (rl_api_token l) f (rl_grant_on_any l) (read_conditions (rl_conditions l))
      (w\<lparr>w_tick := w_tick w + 1\<rparr>)"
  using assms by (simp add: sync_for_role_link_def act_bind_def db_query_run)

lemma both_paths_member:
  "u \<in> set (qualifying_ids E f opts ga (read_conditions raw) None d) \<longleftrightarrow>
     u \<noteq> [] \<and> u \<notin> set opts \<and> any_qualifies E ga raw (user_responses f u d)"
  by (auto simp: set_qualifying_ids any_qualifies_member)

subsection \<open>The guilds that could not be vetted\<close>

definition guild_part :: "str \<Rightarrow> db \<Rightarrow> role_link list \<times> role_assignment list" where
  "guild_part g d = (filter (\<lambda>l. rl_guild_id l = g) (db_role_links d), filter (\<lambda>a. ra_guild_id a = g) (db_assignments d))"

fun action_guild :: "sync_action \<Rightarrow> str" where
  "action_guild (Add g r t) = g"
| "action_guild (Remove g r t) = g"

lemma guild_part_ops:
  assumes "g' \<noteq> g"
  shows "guild_part g (delete_link g' r d) = guild_part g d"
    and "guild_part g (delete_assignment g' r u d) = guild_part g d"
  using assms
  by (auto simp: guild_part_def delete_link_def delete_assignment_def link_key_def assignment_link_def
      intro!: filter_cong)

lemma guild_part_insert:
  "g' \<noteq> g \<Longrightarrow> insert_assignment g' r u d = Inr (x, d') \<Longrightarrow> guild_part g d' = guild_part g d"
  by (simp add: guild_part_def insert_assignment_def Let_def split: if_splits) force+

lemma keeps_guild_action:
  assumes "action_guild a \<noteq> g"
  shows "keeps (on_db (\<lambda>d. guild_part g d = p)) (run_action E C u a)"
proof -
  have orphan: "g' \<noteq> g \<Longrightarrow> keeps (on_db (\<lambda>d. guild_part g d = p)) (delete_orphan_role_link E g' r)" for g' r
    unfolding delete_orphan_role_link_def by (intro keeps_match keeps_exec keeps_ok) (simp add: guild_part_ops)
  show ?thesis
  proof (cases a)
    case (Add g' r token)
    have "keeps (on_db (\<lambda>d. guild_part g d = p)) (db_stmt E (insert_assignment g' r u))"
      using assms Add by (intro keeps_stmt) (auto dest: guild_part_insert [rotated])
    then show ?thesis using orphan [of g' r] assms unfolding Add run_action_def sync_action.case action_guild.simps
      by (intro keeps_match keeps_api keeps_if keeps_ok) auto
  next
    case (Remove g' r token)
    have "keeps (on_db (\<lambda>d. guild_part g d = p)) (db_exec E (delete_assignment g' r u))"
      using assms Remove by (intro keeps_exec) (auto simp: guild_part_ops(2))
    then show ?thesis using orphan [of g' r] assms unfolding Remove run_action_def sync_action.case action_guild.simps
      by (intro keeps_match keeps_api keeps_if keeps_ok) auto
  qed
qed

lemma keeps_guild_actions:
  "\<forall>a \<in> set as. action_guild a \<noteq> g \<Longrightarrow> keeps (on_db (\<lambda>d. guild_part g d = p)) (run_actions E C u as)"
  by (induction as) (auto intro!: keeps_bind keeps_guild_action)

lemma vet_guilds_unknown:
  assumes "\<And>w. isl (fst (fetch_guild_optout_ids E (sc_gateway C) (sc_internal_key C) g w))"
    and "vet_guilds E C u gs (oo, un) w = ((oo', un'), w')"
  shows "set un \<subseteq> set un' \<and> (g \<in> set gs \<longrightarrow> g \<in> set un')"
  using assms(2)
proof (induction gs arbitrary: oo un w)
  case (Cons h gs)
  obtain res w1 where f: "fetch_guild_optout_ids E (sc_gateway C) (sc_internal_key C) h w = (res, w1)"
    by (metis surj_pair)
  show ?case
  proof (cases res)
    case (Inl e)
    then show ?thesis using Cons.IH [of oo "h # un" w1] Cons.prems f by auto
  next
    case (Inr opts)
    then have "h \<noteq> g" using assms(1) [of w] f by auto
    then show ?thesis using Cons.IH [of "if u \<in> set opts then h # oo else oo" un w1] Cons.prems f Inr
      by (auto split: if_splits)
  qed
qed simp

lemma planned_actions_guild:
  "a \<in> set (planned_action E u oo un ex d l) \<Longrightarrow> action_guild a = rl_guild_id l \<and> rl_guild_id l \<notin> set un"
  by (auto simp: planned_action_def link_action_def split: if_splits)

lemma run_actions_Inr: "fst (run_actions E C u as w) = Inr ()"
proof (induction as arbitrary: w)
  case (Cons a as)
  have orphan: "fst (delete_orphan_role_link E g r w) = Inr ()" for g r w
    by (auto simp: delete_orphan_role_link_def act_match_def split: prod.split sum.split)
  have "fst (run_action E C u a w) = Inr ()"
    by (cases a) (auto simp: run_action_def act_match_def orphan split: prod.split sum.split)
  then show ?case using Cons by (auto simp: act_bind_def split: prod.split sum.split)
qed simp

lemma sync_links_unvetted:
  assumes lookup: "\<And>w. isl (fst (fetch_guild_optout_ids E (sc_gateway C) (sc_internal_key C) g w))"
    and g: "g \<in> rl_guild_id ` set ls" and run: "sync_links E C u ex ls w = (res, w')"
  shows "isl res \<and> guild_part g (w_db w') = guild_part g (w_db w)"
proof -
  obtain oo un w1 where v: "vet_guilds E C u (tree_set (map rl_guild_id ls)) ([], []) w = ((oo, un), w1)"
    by (metis surj_pair)
  have un: "g \<in> set un" using vet_guilds_unknown [OF lookup v] g by simp
  have w1: "w_db w1 = w_db w" using v by (metis snd_conv vet_guilds_db)
  obtain res2 w2 where d: "decide_actions E u oo un ex ls w1 = (res2, w2)" by (metis surj_pair)
  have run': "act_bind (decide_actions E u oo un ex ls) (\<lambda>actions.
      act_bind (run_actions E C u actions) (\<lambda>_. deferred_result un)) w1 = (res, w')"
    using run by (simp add: sync_links_def v)
  show ?thesis
  proof (cases res2)
    case (Inl e)
    have "w_db w2 = w_db w1"
      using keepsD [OF keeps_decide, of "\<lambda>d. d = w_db w1" w1 E u oo un ex ls] d by (simp add: on_db_def)
    then show ?thesis using run' d Inl w1 by (auto simp: act_bind_def)
  next
    case (Inr acts)
    have acts: "acts = concat (map (planned_action E u oo un ex (w_db w1)) ls)" and w2: "w_db w2 = w_db w1"
      using decide_actions_exact [OF d [unfolded Inr]] by simp_all
    have "\<forall>a \<in> set acts. action_guild a \<noteq> g"
      unfolding acts using un by (auto dest: planned_actions_guild)
    then have "guild_part g (w_db (snd (run_actions E C u acts w2))) = guild_part g (w_db w2)"
      using keepsD [OF keeps_guild_actions, of acts g "guild_part g (w_db w2)" w2 E C u] by (simp add: on_db_def)
    moreover have "isl res" and "w' = snd (run_actions E C u acts w2)"
    proof -
      obtain m where m: "deferred_result un = act_fail (EInternal m)"
        using un by (cases un) (auto simp: deferred_result_def)
      obtain w3 where "run_actions E C u acts w2 = (Inr (), w3)"
        using run_actions_Inr [of E C u acts w2] by (metis prod.collapse)
      then show "isl res" and "w' = snd (run_actions E C u acts w2)"
        using run' d Inr m by (auto simp: act_bind_def)
    qed
    ultimately show ?thesis using w1 w2 by simp
  qed
qed

subsection \<open>Properties\<close>

text \<open>C29: both sync paths decide a member's eligibility alike: the bulk sync's set holds exactly the
  members with a Discord id, not opted out, for whom the per-player sync finds a qualifying
  response.\<close>

theorem both_paths_agree:
  "u \<in> set (qualifying_ids E f opts ga (read_conditions raw) None d) \<longleftrightarrow>
     u \<noteq> [] \<and> u \<notin> set opts \<and> any_qualifies E ga raw (user_responses f u d)"
  by (rule both_paths_member)

text \<open>C30: after a bulk sync that met no failure the recorded members of the link are exactly the
  qualifying ones (none for a link without conditions), whatever was recorded before, and neither
  responses nor links changed.\<close>

theorem bulk_sync_success:
  assumes "accepting E C g r (rl_api_token l) opts" and "find_link g r (w_db w) = Some l" and "rl_form_id l = Some f"
  shows "\<exists>w'. sync_for_role_link E C g r w = (Inr (), w')
    \<and> sort (assigned_ids g r (w_db w')) =
        qualifying_ids E f opts (rl_grant_on_any l) (read_conditions (rl_conditions l)) None (w_db w)
    \<and> db_responses (w_db w') = db_responses (w_db w) \<and> db_role_links (w_db w') = db_role_links (w_db w)"
proof -
  have "(g, r) \<in> link_key ` set (db_role_links (w_db (w\<lparr>w_tick := w_tick w + 1\<rparr>)))"
    using find_link_Some [OF assms(2)] by force
  from sync_bound_success [OF assms(1) this, of f "rl_grant_on_any l" "read_conditions (rl_conditions l)"]
  show ?thesis
    using assms(1) unfolding sync_for_role_link_run [OF _ assms(2,3), of E C] accepting_def
    by (subst sync_for_role_link_run [OF _ assms(2,3)]) (simp_all add: accepting_def)
qed

definition sample_link :: role_link where
  "sample_link = \<lparr>rl_guild_id = ''g'', rl_role_id = ''r'', rl_api_token = ''t'', rl_form_id = Some ''f'',
     rl_grant_on_any = True, rl_conditions = JArr []\<rparr>"

definition sample_response :: "str \<Rightarrow> response_row" where
  "sample_response u = \<lparr>fr_id = u, fr_form_id = ''f'', fr_guild_id = ''g'', fr_discord_id = u, fr_answers = JObj [],
     fr_total_score = None, fr_submitted_at = 0, fr_last_edited_at = 0, fr_schema_version = 1,
     fr_attempt_count = 1, fr_passed = None\<rparr>"

definition sample_db :: db where
  "sample_db = empty_db\<lparr>db_role_links := [sample_link],
     db_assignments := [\<lparr>ra_guild_id = ''g'', ra_role_id = ''r'', ra_discord_id = ''carl''\<rparr>],
     db_responses := [sample_response ''bob'', sample_response ''ann'', sample_response ''dan'']\<rparr>"

definition sample_sync_env :: env where
  "sample_sync_env = (sample_env (HttpReply 200 []))\<lparr>e_parse_json := (\<lambda>_. Some (JObj
     [(''data'', JObj [(''upload_id'', JStr ''s'')]), (''discord_ids'', JArr [JStr ''dan''])]))\<rparr>"

definition sample_sync_config :: sync_config where
  "sample_sync_config = \<lparr>sc_rolelogic = ''https://rl'', sc_gateway = ''https://gw'', sc_internal_key = ''k''\<rparr>"

lemma sample_env_accepts:
  "rl_request sample_sync_env rq failed accepted w =
     (accepted [], w\<lparr>w_tick := w_tick w + 1, w_sent := w_sent w @ [rq]\<rparr>)"
  by (simp add: rl_request_def http_send_def sample_sync_env_def sample_env_def is_success_def)

lemma sample_parse: "e_parse_json sample_sync_env b = Some (JObj
     [(''data'', JObj [(''upload_id'', JStr ''s'')]), (''discord_ids'', JArr [JStr ''dan''])])"
  by (simp add: sample_sync_env_def)

lemma sample_chunks_accepted:
  "fst (upload_chunks sample_sync_env base g r u t cs w) = Inr ()"
  by (induction cs arbitrary: w) (auto simp: act_match_def upload_chunk_def sample_env_accepts)

lemma sample_accepting: "accepting sample_sync_env sample_sync_config ''g'' ''r'' ''t'' [''dan'']"
proof -
  have "\<exists>n. fst (upload_users sample_sync_env base g r ids t w) = Inr n" for base g r ids t w
  proof -
    let ?w1 = "w\<lparr>w_tick := w_tick w + 1, w_sent := w_sent w @ [rl_request_to ''POST'' (upload_url base g r) t JNull]\<rparr>"
    obtain w2 where "upload_chunks sample_sync_env base g r ''s'' t (chunks chunk_size ids) ?w1 = (Inr (), w2)"
      by (metis prod.collapse sample_chunks_accepted)
    then show ?thesis
      by (simp add: upload_users_def replace_users_def start_upload_def commit_upload_def sample_env_accepts
          user_count_def rl_json_def sample_parse jindex_def act_bind_def)
  qed
  moreover have "fst (fetch_guild_optout_ids sample_sync_env b k g w) = Inr [''dan'']" for b k g w
    by (simp add: fetch_guild_optout_ids_def gateway_call_def http_send_def sample_parse read_ids_def)
      (simp add: sample_sync_env_def sample_env_def is_success_def read_ids_def need_def read_vec_def)
  ultimately show ?thesis
    by (simp add: accepting_def no_faults_def) (simp add: sample_sync_env_def sample_env_def)
qed

theorem bulk_sync_success_witness:
  "sort (assigned_ids ''g'' ''r'' (w_db (snd (sync_for_role_link sample_sync_env sample_sync_config ''g'' ''r''
     (sample_world sample_db))))) = [''ann'', ''bob'']"
proof -
  have "find_link ''g'' ''r'' (w_db (sample_world sample_db)) = Some sample_link" by code_simp
  moreover have "qualifying_ids sample_sync_env ''f'' [''dan''] True (read_conditions (JArr [])) None sample_db
      = [''ann'', ''bob'']"
    by code_simp
  ultimately show ?thesis
    using bulk_sync_success [of sample_sync_env sample_sync_config "''g''" "''r''" sample_link "[''dan'']"
        "sample_world sample_db" "''f''"] sample_accepting
    by (auto simp: sample_link_def sample_world_def)
qed

text \<open>C31: whatever the other side answers and wherever a statement fails, a bulk sync leaves the
  recorded members of its link as they were, or empty, or equal to a qualifying set computed from the
  current responses and an opt-out list the gateway returned (capped to its first members at a reported
  limit); the members of every other link and the responses are untouched.\<close>

theorem bulk_sync_never_over_grants:
  assumes "find_link g r (w_db w) = Some l" and "rl_form_id l = Some f"
  shows "mirror_inv E C g r f (rl_grant_on_any l) (read_conditions (rl_conditions l)) (w_db w)
    (w_db (snd (sync_for_role_link E C g r w)))"
proof -
  let ?P = "mirror_inv E C g r f (rl_grant_on_any l) (read_conditions (rl_conditions l)) (w_db w)"
  have P: "?P (w_db w)" by (simp add: mirror_inv_def)
  show ?thesis
  proof (cases rule: db_query_cases [of E "find_link g r" w])
    case (1 e)
    then show ?thesis using P by (simp add: sync_for_role_link_def act_bind_def)
  next
    case 2
    then have "sync_for_role_link E C g r w = sync_bound_link E C g r (rl_api_token l) f (rl_grant_on_any l)
        (read_conditions (rl_conditions l)) (w\<lparr>w_tick := w_tick w + 1\<rparr>)"
      using assms by (simp add: sync_for_role_link_def act_bind_def)
    then show ?thesis
      using keepsD [OF keeps_inv_sync_bound, of E C g r f "rl_grant_on_any l" "read_conditions (rl_conditions l)"
          "w_db w" "w\<lparr>w_tick := w_tick w + 1\<rparr>" "rl_api_token l"] P
      by (simp add: on_db_def)
  qed
qed

theorem bulk_sync_never_over_grants_witness:
  "mirror_inv (sample_env (HttpFailed ''down'')) sample_sync_config ''g'' ''r'' ''f'' True [] sample_db
    (w_db (snd (sync_for_role_link (sample_env (HttpFailed ''down'')) sample_sync_config ''g'' ''r'' (sample_world sample_db))))"
proof -
  have "find_link ''g'' ''r'' (w_db (sample_world sample_db)) = Some sample_link" by code_simp
  moreover have "read_conditions (rl_conditions sample_link) = []" by code_simp
  ultimately show ?thesis
    using bulk_sync_never_over_grants [of "''g''" "''r''" "sample_world sample_db" sample_link "''f''"
        "sample_env (HttpFailed ''down'')" sample_sync_config]
    by (simp add: sample_link_def sample_world_def)
qed

text \<open>No flapping: once the recorded members of a link equal the bulk sync's set, a per-player
  sync with the same opt-out answer plans no action on that link, for any member.\<close>

lemma no_flapping:
  assumes "sort (assigned_ids g r d) = qualifying_ids E f opts (rl_grant_on_any l) (read_conditions (rl_conditions l)) None d"
    and "link_key l = (g, r)" and "rl_form_id l = Some f" and "u \<noteq> []"
  shows "planned_action E u (if u \<in> set opts then [g] else []) [] (user_assignments u d) d l = []"
proof -
  have "u \<in> set (assigned_ids g r d) \<longleftrightarrow>
      u \<notin> set opts \<and> any_qualifies E (rl_grant_on_any l) (rl_conditions l) (user_responses f u d)"
    using both_paths_member [of u E f opts "rl_grant_on_any l" "rl_conditions l" d] assms(1,4)
    by (metis set_sort)
  moreover have "(g, r) \<in> set (user_assignments u d) \<longleftrightarrow> u \<in> set (assigned_ids g r d)"
    by (force simp: user_assignments_def assigned_ids_def)
  ultimately show ?thesis
    using assms(2,3) by (auto simp: planned_action_def link_action_def link_key_def)
qed

text \<open>C32: Convention 40: when the opt-out lookup of a guild fails, a per-player sync that has links
  there ends in an error (so the job is retried) and neither removes, adds nor deletes anything of that
  guild.\<close>

theorem unvetted_guild_untouched:
  assumes "\<And>w. isl (fst (fetch_guild_optout_ids E (sc_gateway C) (sc_internal_key C) g w))"
    and "g \<in> rl_guild_id ` set ls"
  shows "isl (fst (sync_links E C u ex ls w))
    \<and> guild_part g (w_db (snd (sync_links E C u ex ls w))) = guild_part g (w_db w)"
  using sync_links_unvetted [OF assms] by (metis prod.collapse)

theorem unvetted_guild_untouched_witness:
  "isl (fst (sync_links (sample_env (HttpReply 503 [])) sample_sync_config ''ann'' [] [sample_link] (sample_world sample_db)))"
proof -
  have "isl (fst (fetch_guild_optout_ids (sample_env (HttpReply 503 [])) b k g w))" for b k g w
    by (simp add: fetch_guild_optout_ids_def gateway_call_def http_send_def sample_env_def is_success_def)
  from unvetted_guild_untouched [OF this, where g = "''g''" and ls = "[sample_link]"]
  show ?thesis by (simp add: sample_link_def)
qed

text \<open>All three entry points preserve the well-formedness of the mirror (unique links, unique
  assignments, every assignment of an existing link) whatever replies and failures they meet.\<close>

lemma syncs_preserve_tables:
  assumes "db_ok (w_db w)"
  shows "db_ok (w_db (snd (sync_for_player E C u w))) \<and> db_ok (w_db (snd (sync_for_role_link E C g r w)))
    \<and> db_ok (w_db (snd (remove_all_assignments E C u w)))"
  using keepsD [OF mirror.keeps_sync_for_player] keepsD [OF mirror.keeps_sync_for_role_link]
    keepsD [OF mirror.keeps_remove_all] assms
  by (simp add: on_db_def)

text \<open>An unlink that meets no database failure ends without error and with no recorded assignment
  of the member, even when every removal was refused upstream: the role then stays granted with no record
  left that would revoke it.\<close>

lemma unlink_forgets_refused_removals:
  assumes "no_faults E"
  shows "fst (remove_all_assignments E C u w) = Inr ()
    \<and> user_assignments u (w_db (snd (remove_all_assignments E C u w))) = []"
proof -
  have each: "fst (remove_each E C u xs w) = Inr ()" for xs w
  proof (induction xs arbitrary: w)
    case (Cons x xs)
    have orphan: "fst (delete_orphan_role_link E g r w) = Inr ()" for g r w
      by (auto simp: delete_orphan_role_link_def act_match_def split: prod.split sum.split)
    obtain g r t where "x = (g, r, t)" by (metis surj_pair)
    then show ?case using Cons orphan
      by (auto simp: act_bind_def act_match_def split: prod.split sum.split) (metis fst_conv sum.distinct(1))+
  qed simp
  let ?w1 = "w\<lparr>w_tick := w_tick w + 1\<rparr>"
  obtain w2 where w2: "remove_each E C u (assignment_tokens u (w_db w)) ?w1 = (Inr (), w2)"
    using each by (metis prod.collapse)
  have "remove_all_assignments E C u w = db_exec E (delete_user_assignments u) w2"
    using w2 by (simp add: remove_all_assignments_def act_bind_def db_query_run [OF assms])
  then show ?thesis
    by (simp add: db_exec_run [OF assms] user_assignments_def delete_user_assignments_def filter_empty_conv)
qed

end
