(* ===== verification/Webhook.thy ===== *)
theory Webhook
  imports Gateway "HOL-Library.Word"
begin

text \<open>
  \<open>services/webhook.rs\<close>: the address checks before a delivery, one delivery attempt with its
  classification, and the payload. IP addresses are words of 32 and 128 bits with the standard
  library's predicates and its text parser; the URL parser, the resolver and the HTTP client are
  parameters (\<open>net\<close>). Each lookup and each request takes a tick.
\<close>

unbundle bit_operations_syntax

subsection \<open>The standard library's predicates\<close>

text \<open>\<open>octets()[i]\<close> and \<open>segments()[i]\<close>.\<close>

definition octet :: "nat \<Rightarrow> 32 word \<Rightarrow> nat" where
  "octet i a = unat (drop_bit (24 - 8 * i) a AND 0xff)"

definition segment :: "nat \<Rightarrow> 128 word \<Rightarrow> 128 word" where
  "segment i a = drop_bit (112 - 16 * i) a AND 0xffff"

definition v4_loopback :: "32 word \<Rightarrow> bool" where "v4_loopback a \<longleftrightarrow> octet 0 a = 127"
definition v4_unspecified :: "32 word \<Rightarrow> bool" where "v4_unspecified a \<longleftrightarrow> a = 0"

definition v4_private :: "32 word \<Rightarrow> bool" where
  "v4_private a \<longleftrightarrow> octet 0 a = 10
     \<or> octet 0 a = 172 \<and> 16 \<le> octet 1 a \<and> octet 1 a \<le> 31
     \<or> octet 0 a = 192 \<and> octet 1 a = 168"

definition v4_link_local :: "32 word \<Rightarrow> bool" where
  "v4_link_local a \<longleftrightarrow> octet 0 a = 169 \<and> octet 1 a = 254"

definition v4_multicast :: "32 word \<Rightarrow> bool" where
  "v4_multicast a \<longleftrightarrow> 224 \<le> octet 0 a \<and> octet 0 a \<le> 239"

definition v6_unique_local :: "128 word \<Rightarrow> bool" where
  "v6_unique_local a \<longleftrightarrow> segment 0 a AND 0xfe00 = 0xfc00"

definition v6_link_local :: "128 word \<Rightarrow> bool" where
  "v6_link_local a \<longleftrightarrow> segment 0 a AND 0xffc0 = 0xfe80"

definition v6_multicast :: "128 word \<Rightarrow> bool" where
  "v6_multicast a \<longleftrightarrow> segment 0 a AND 0xff00 = 0xff00"

definition to_ipv4 :: "128 word \<Rightarrow> 32 word option" where
  "to_ipv4 a =
     (if segment 0 a = 0 \<and> segment 1 a = 0 \<and> segment 2 a = 0 \<and> segment 3 a = 0 \<and> segment 4 a = 0
         \<and> (segment 5 a = 0 \<or> segment 5 a = 0xffff)
      then Some (ucast a) else None)"

fun ip_loopback :: "ip \<Rightarrow> bool" where
  "ip_loopback (V4 a) = v4_loopback a"
| "ip_loopback (V6 a) = (a = 1)"

fun ip_unspecified :: "ip \<Rightarrow> bool" where
  "ip_unspecified (V4 a) = v4_unspecified a"
| "ip_unspecified (V6 a) = (a = 0)"

definition is_safe_ip :: "ip \<Rightarrow> bool" where
  "is_safe_ip p =
     (if ip_loopback p \<or> ip_unspecified p then False
      else case p of
        V4 a \<Rightarrow> \<not> (v4_private a \<or> v4_link_local a \<or> v4_multicast a)
      | V6 a \<Rightarrow>
          if v6_unique_local a \<or> v6_link_local a \<or> v6_multicast a then False
          else (case to_ipv4 a of
              Some b \<Rightarrow> \<not> (v4_loopback b \<or> v4_unspecified b \<or> v4_private b \<or> v4_link_local b \<or> v4_multicast b)
            | None \<Rightarrow> True))"

subsection \<open>The standard library's address parser\<close>

definition hex_digit :: "char \<Rightarrow> nat option" where
  "hex_digit c = (let n = of_char c in
     if 48 \<le> n \<and> n \<le> 57 then Some (n - 48)
     else if 97 \<le> n \<and> n \<le> 102 then Some (n - 87)
     else if 65 \<le> n \<and> n \<le> 70 then Some (n - 55) else None)"

definition radix_digit :: "nat \<Rightarrow> char \<Rightarrow> nat option" where
  "radix_digit radix c = (case hex_digit c of Some d \<Rightarrow> if d < radix then Some d else None | None \<Rightarrow> None)"

text \<open>\<open>read_number\<close>: at most \<open>max_digits\<close> digits, below the bound of the integer type.\<close>

definition read_number :: "nat \<Rightarrow> nat \<Rightarrow> bool \<Rightarrow> nat \<Rightarrow> str \<Rightarrow> (nat \<times> str) option" where
  "read_number radix max_digits allow_zero_prefix bound s =
     (let ds = takeWhile (\<lambda>c. radix_digit radix c \<noteq> None) s;
          n = foldl (\<lambda>acc c. acc * radix + unwrap_or (radix_digit radix c) 0) 0 ds in
      if ds = [] \<or> max_digits < length ds \<or> bound \<le> n then None
      else if \<not> allow_zero_prefix \<and> hd ds = CHR ''0'' \<and> 1 < length ds then None
      else Some (n, drop (length ds) s))"

abbreviation read_octet :: "str \<Rightarrow> (nat \<times> str) option" where "read_octet \<equiv> read_number 10 3 False 256"
abbreviation read_group :: "str \<Rightarrow> (nat \<times> str) option" where "read_group \<equiv> read_number 16 4 True 65536"

definition read_char :: "char \<Rightarrow> str \<Rightarrow> str option" where
  "read_char c s = (case s of x # r \<Rightarrow> if x = c then Some r else None | [] \<Rightarrow> None)"

definition then_read :: "str option \<Rightarrow> (str \<Rightarrow> 'a option) \<Rightarrow> 'a option" where
  "then_read r f = (case r of Some s \<Rightarrow> f s | None \<Rightarrow> None)"

fun read_octets :: "nat \<Rightarrow> str \<Rightarrow> (nat list \<times> str) option" where
  "read_octets 0 s = Some ([], s)"
| "read_octets (Suc n) s =
     (case then_read (if n = 3 then Some s else read_char CHR ''.'' s) read_octet of
        Some (d, r) \<Rightarrow> (case read_octets n r of Some (ds, r') \<Rightarrow> Some (d # ds, r') | None \<Rightarrow> None)
      | None \<Rightarrow> None)"

definition read_ipv4 :: "str \<Rightarrow> (nat list \<times> str) option" where "read_ipv4 s = read_octets 4 s"

definition read_sep :: "bool \<Rightarrow> str \<Rightarrow> str option" where
  "read_sep first s = (if first then Some s else read_char CHR '':'' s)"

text \<open>\<open>read_groups\<close>: up to \<open>n\<close> groups, the last two possibly an IPv4 address.\<close>

fun read_groups :: "nat \<Rightarrow> bool \<Rightarrow> str \<Rightarrow> nat list \<times> bool \<times> str" where
  "read_groups 0 first s = ([], False, s)"
| "read_groups (Suc n) first s =
     (case (if n = 0 then None else then_read (read_sep first s) read_ipv4) of
        Some (ds, r) \<Rightarrow> ([ds ! 0 * 256 + ds ! 1, ds ! 2 * 256 + ds ! 3], True, r)
      | None \<Rightarrow>
          (case then_read (read_sep first s) read_group of
             Some (g, r) \<Rightarrow> (case read_groups n False r of (gs, v4, r') \<Rightarrow> (g # gs, v4, r'))
           | None \<Rightarrow> ([], False, s)))"

definition read_ipv6 :: "str \<Rightarrow> (nat list \<times> str) option" where
  "read_ipv6 s =
     (case read_groups 8 True s of (head, v4, r) \<Rightarrow>
        if length head = 8 then Some (head, r)
        else if v4 then None
        else (case strip_prefix ''::'' r of
            None \<Rightarrow> None
          | Some r1 \<Rightarrow>
              (case read_groups (8 - (length head + 1)) True r1 of (tail, _, r2) \<Rightarrow>
                 Some (head @ replicate (8 - length head - length tail) 0 @ tail, r2))))"

definition word_of_parts :: "nat \<Rightarrow> nat list \<Rightarrow> 'a::len word" where
  "word_of_parts base ds = word_of_nat (foldl (\<lambda>acc d. acc * base + d) 0 ds)"

definition parse_ip :: "str \<Rightarrow> ip option" where
  "parse_ip s =
     (case read_ipv4 s of
        Some (ds, r) \<Rightarrow> if r = [] then Some (V4 (word_of_parts 256 ds)) else None
      | None \<Rightarrow> (case read_ipv6 s of
            Some (gs, r) \<Rightarrow> if r = [] then Some (V6 (word_of_parts 65536 gs)) else None
          | None \<Rightarrow> None))"

subsection \<open>The checks and a delivery\<close>

record url =
  u_scheme :: str
  u_host :: "str option"  \<comment> \<open>IPv6 literals in brackets\<close>
  u_port :: "nat option"  \<comment> \<open>\<open>port_or_known_default\<close>\<close>

datatype lookup = LookupTimeout | LookupFailed | Addresses "ip list"

record net =
  n_url :: "str \<Rightarrow> url option"
  n_lookup :: "nat \<Rightarrow> str \<Rightarrow> lookup"
  n_wire :: "nat \<Rightarrow> http_request \<Rightarrow> (http_request \<times> ip) list"  \<comment> \<open>what the client puts on the wire for one \<open>send\<close>\<close>
  n_redirects :: "nat \<Rightarrow> http_request \<Rightarrow> bool"  \<comment> \<open>the endpoint answers it with a redirect\<close>

definition unbracket :: "str \<Rightarrow> str" where
  "unbracket host =
     (case strip_prefix ''['' host of
        Some s \<Rightarrow> if ends_with '']'' s then butlast s else host
      | None \<Rightarrow> host)"

definition is_safe_url :: "net \<Rightarrow> str \<Rightarrow> bool" where
  "is_safe_url N url_text =
     (case n_url N url_text of
        None \<Rightarrow> False
      | Some u \<Rightarrow>
          if u_scheme u \<noteq> ''https'' then False
          else (case u_host u of
              None \<Rightarrow> False
            | Some h \<Rightarrow>
                let host = to_ascii_lowercase h in
                if host = ''localhost'' \<or> ends_with ''.localhost'' host then False
                else (case parse_ip (unbracket host) of Some p \<Rightarrow> is_safe_ip p | None \<Rightarrow> True)))"

record webhook_failure =
  wf_message :: str
  wf_terminal :: bool

definition private_reason :: str where
  "private_reason = ''resolved to a private or loopback address''"

definition lookup_target :: "net \<Rightarrow> str \<Rightarrow> (str, str) result" where
  "lookup_target N url_text =
     (case n_url N url_text of
        None \<Rightarrow> Inl ''invalid URL''
      | Some u \<Rightarrow> (case u_host u of
          None \<Rightarrow> Inl ''missing host''
        | Some h \<Rightarrow> Inr (h @ '':'' @ show_nat (unwrap_or (u_port u) 443))))"

definition check_addresses :: "lookup \<Rightarrow> (str, unit) result" where
  "check_addresses l = (case l of
       LookupTimeout \<Rightarrow> Inl ''DNS resolution timed out''
     | LookupFailed \<Rightarrow> Inl ''DNS resolution failed''
     | Addresses ps \<Rightarrow>
         if \<not> list_all is_safe_ip ps then Inl private_reason
         else if ps = [] then Inl ''hostname did not resolve to any address''
         else Inr ())"

definition resolve_and_check :: "net \<Rightarrow> str \<Rightarrow> world \<Rightarrow> (str, unit) result \<times> world" where
  "resolve_and_check N url_text w =
     (case lookup_target N url_text of
        Inl e \<Rightarrow> (Inl e, w)
      | Inr target \<Rightarrow> (check_addresses (n_lookup N (w_tick w) target), w\<lparr>w_tick := w_tick w + 1\<rparr>))"

definition webhook_request :: "str \<Rightarrow> json \<Rightarrow> http_request" where
  "webhook_request url_text body =
     \<lparr>hr_method = ''POST'', hr_url = url_text, hr_query = [], hr_headers = [], hr_body = body\<rparr>"

definition status_terminal :: "nat \<Rightarrow> bool" where
  "status_terminal st \<longleftrightarrow> (400 \<le> st \<and> st < 500) \<and> st \<noteq> 408 \<and> st \<noteq> 429"

definition deliver_once ::
  "env \<Rightarrow> net \<Rightarrow> str \<Rightarrow> json \<Rightarrow> world \<Rightarrow> (webhook_failure, unit) result \<times> world" where
  "deliver_once E N url_text body w =
     (if \<not> is_safe_url N url_text then
        (Inl \<lparr>wf_message = ''URL rejected: must be https with a public host'', wf_terminal = True\<rparr>, w)
      else case resolve_and_check N url_text w of
        (Inl reason, w1) \<Rightarrow>
          (Inl \<lparr>wf_message = ''DNS check: '' @ reason, wf_terminal = (reason = private_reason)\<rparr>, w1)
      | (Inr _, w1) \<Rightarrow>
          (case http_send E (webhook_request url_text body)
              (w1\<lparr>w_wire := w_wire w1 @ n_wire N (w_tick w1) (webhook_request url_text body)\<rparr>) of
             (HttpFailed m, w2) \<Rightarrow> (Inl \<lparr>wf_message = ''request failed: '' @ m, wf_terminal = False\<rparr>, w2)
           | (HttpReply st _, w2) \<Rightarrow>
               if is_success st then (Inr (), w2)
               else (Inl \<lparr>wf_message = ''webhook returned '' @ e_status_text E st,
                          wf_terminal = status_terminal st\<rparr>, w2)))"

text \<open>\<open>show_time\<close> prints the instant of the call.\<close>

definition build_payload ::
  "(int \<Rightarrow> str) \<Rightarrow> int \<Rightarrow> str \<Rightarrow> str \<Rightarrow> str \<Rightarrow> str \<Rightarrow> str \<Rightarrow> int option \<Rightarrow> str \<Rightarrow> json" where
  "build_payload show_time now form_title form_slug member_name discord_id response_id total_score base_url =
     (let score_line = (case total_score of Some s \<Rightarrow> CHR 0x0A # ''Score: '' @ show_int s | None \<Rightarrow> []);
          content = ''**New submission to '' @ [CHR 0x22] @ form_title @ [CHR 0x22] @ ''**'' @ [CHR 0x0A]
            @ ''From: <@'' @ discord_id @ ''> ('' @ member_name @ '')'' @ score_line @ [CHR 0x0A]
            @ base_url @ ''/f/'' @ form_slug
      in JObj [(''content'', JStr content), (''discord_id'', JStr discord_id),
           (''form_slug'', JStr form_slug), (''form_title'', JStr form_title),
           (''member_name'', JStr member_name), (''response_id'', JStr response_id),
           (''submitted_at'', JStr (show_time now)),
           (''total_score'', case total_score of Some s \<Rightarrow> json_of_i64 s | None \<Rightarrow> JNull)])"

subsection \<open>The blocked networks\<close>

definition in_net :: "'a::len word \<Rightarrow> 'a word \<times> nat \<Rightarrow> bool" where
  "in_net a net = (case net of (base, len) \<Rightarrow> drop_bit (LENGTH('a) - len) a = drop_bit (LENGTH('a) - len) base)"

definition blocked_v4 :: "(32 word \<times> nat) list" where
  "blocked_v4 = [(0, 32), (0x0a000000, 8), (0x7f000000, 8), (0xa9fe0000, 16), (0xac100000, 12),
     (0xc0a80000, 16), (0xe0000000, 4)]"

definition blocked_v6 :: "(128 word \<times> nat) list" where
  "blocked_v6 = [(0, 128), (1, 128), (push_bit 112 0xfc00, 7), (push_bit 112 0xfe80, 10), (push_bit 112 0xff00, 8)]"

lemma octet_nat: "octet 0 a = unat a div 16777216" "octet 1 a = unat a div 65536 mod 256"
proof -
  have ff: "(0xff :: 32 word) = mask 8" by (simp add: mask_eq_exp_minus_1)
  have octet: "octet i a = unat a div 2 ^ (24 - 8 * i) mod 2 ^ 8" for i
    unfolding octet_def ff take_bit_eq_mask [symmetric] unsigned_take_bit_eq unsigned_drop_bit_eq
    using unsigned_less [where 'a = nat, of a] by (simp only: drop_bit_eq_div take_bit_eq_mod mod_less)
  have "unat a < 2 ^ 32" using unsigned_less [where 'a = nat, of a] by simp
  then show "octet 0 a = unat a div 16777216" unfolding octet by simp
  show "octet 1 a = unat a div 65536 mod 256" unfolding octet by simp
qed

lemma in_net4_nat: "in_net (a :: 32 word) (base, len) \<longleftrightarrow> unat a div 2 ^ (32 - len) = unat base div 2 ^ (32 - len)"
  unfolding in_net_def prod.case word_unat_eq_iff unat_drop_bit_eq by (simp add: drop_bit_eq_div)

lemma div_high:
  "n div 16777216 = n div 65536 div 256" "n div 1048576 = n div 65536 div 16"
  "n div 268435456 = n div 65536 div 256 div 16" for n :: nat
  by (simp_all add: div_mult2_eq [symmetric])

lemma div_eq_iff_bounds: "0 < k \<Longrightarrow> n div k = m \<longleftrightarrow> m * k \<le> n \<and> n < (m + 1) * k" for n k m :: nat
  by (simp only: less_eq_div_iff_mult_less_eq [symmetric] div_less_iff_less_mult [symmetric]) auto

lemma mod_of_div: "h div 256 = q \<Longrightarrow> h mod 256 = h - 256 * q" for h :: nat
  by (simp add: minus_mult_div_eq_mod [symmetric])

lemma split_high:
  "(h div 256 = 172 \<and> 16 \<le> h mod 256 \<and> h mod 256 \<le> 31) \<longleftrightarrow> h div 16 = (2753 :: nat)"
  "(h div 256 = 192 \<and> h mod 256 = 168) \<longleftrightarrow> h = (49320 :: nat)"
  "(h div 256 = 169 \<and> h mod 256 = 254) \<longleftrightarrow> h = (43518 :: nat)"
  "(224 \<le> b \<and> b \<le> 239) \<longleftrightarrow> b div 16 = (14 :: nat)"
proof -
  have mod: "(h div 256 = q \<and> P (h mod 256)) \<longleftrightarrow> (q * 256 \<le> h \<and> h < (q + 1) * 256) \<and> P (h - 256 * q)" for q P
    using mod_of_div [of h q] div_eq_iff_bounds [of 256 h q] by auto
  show "(h div 256 = 172 \<and> 16 \<le> h mod 256 \<and> h mod 256 \<le> 31) \<longleftrightarrow> h div 16 = (2753 :: nat)"
    by (subst mod [where P = "\<lambda>x. 16 \<le> x \<and> x \<le> 31"]) (auto simp: div_eq_iff_bounds)
  show "(h div 256 = 192 \<and> h mod 256 = 168) \<longleftrightarrow> h = (49320 :: nat)"
    by (subst mod [where P = "\<lambda>x. x = 168"]) auto
  show "(h div 256 = 169 \<and> h mod 256 = 254) \<longleftrightarrow> h = (43518 :: nat)"
    by (subst mod [where P = "\<lambda>x. x = 254"]) auto
  show "(224 \<le> b \<and> b \<le> 239) \<longleftrightarrow> b div 16 = (14 :: nat)"
    by (auto simp: div_eq_iff_bounds)
qed

lemma safe_v4: "is_safe_ip (V4 a) \<longleftrightarrow> \<not> list_ex (in_net a) blocked_v4"
proof -
  define n where "n = unat a"
  have n: "n < 4294967296" using unsigned_less [where 'a = nat, of a] by (simp add: n_def)
  have z: "a = 0 \<longleftrightarrow> n = 0" by (simp add: n_def unat_eq_0)
  have net: "(n div 16777216 = 172 \<and> 16 \<le> n div 65536 mod 256 \<and> n div 65536 mod 256 \<le> 31) \<longleftrightarrow> n div 1048576 = 2753"
    "(n div 16777216 = 192 \<and> n div 65536 mod 256 = 168) \<longleftrightarrow> n div 65536 = 49320"
    "(n div 16777216 = 169 \<and> n div 65536 mod 256 = 254) \<longleftrightarrow> n div 65536 = 43518"
    "(224 \<le> n div 16777216 \<and> n div 16777216 \<le> 239) \<longleftrightarrow> n div 268435456 = 14"
    using div_high [of n] by (simp_all add: split_high)
  let ?o = "n div 16777216"
  have "is_safe_ip (V4 a) \<longleftrightarrow> \<not> (?o = 127 \<or> n = 0
     \<or> (?o = 10 \<or> n div 1048576 = 2753 \<or> n div 65536 = 49320) \<or> n div 65536 = 43518 \<or> n div 268435456 = 14)"
    unfolding is_safe_ip_def ip_loopback.simps ip_unspecified.simps ip.case v4_loopback_def v4_unspecified_def
      v4_private_def v4_link_local_def v4_multicast_def octet_nat n_def [symmetric] z net
    by (simp only: if_bool_eq_conj) blast
  moreover have "list_ex (in_net a) blocked_v4 \<longleftrightarrow> n = 0 \<or> ?o = 10 \<or> ?o = 127 \<or> n div 65536 = 43518
     \<or> n div 1048576 = 2753 \<or> n div 65536 = 49320 \<or> n div 268435456 = 14"
    by (simp add: blocked_v4_def in_net4_nat n_def)
  ultimately show ?thesis by argo
qed

lemma segment_take_bit: "segment i a = take_bit 16 (drop_bit (112 - 16 * i) a)"
proof -
  have "(0xffff :: 128 word) = mask 16" by (simp add: mask_eq_exp_minus_1)
  then show ?thesis unfolding segment_def take_bit_eq_mask by simp
qed

lemma segment0: "segment 0 a = drop_bit 112 a"
  unfolding segment_take_bit by (rule bit_word_eqI) (auto simp: bit_simps dest: bit_imp_le_length)

lemma and_prefix:
  assumes "m = take_bit 16 (NOT (mask n))" and "x = take_bit 16 (y :: 128 word)"
  shows "x AND m = push_bit n (drop_bit n x)"
  unfolding assms by (rule bit_word_eqI) (auto simp: bit_simps)

lemma unat_push_drop: "unat (push_bit n (drop_bit n x)) = unat x div 2 ^ n * 2 ^ n" for x :: "128 word"
proof -
  have "unat x div 2 ^ n * 2 ^ n < 2 ^ 128"
    by (rule le_less_trans [OF div_times_less_eq_dividend]) (use unsigned_less [where 'a = nat, of x] in simp)
  then show ?thesis
    unfolding unsigned_push_bit_eq unsigned_drop_bit_eq
    unfolding push_bit_eq_mult drop_bit_eq_div using unsigned_less [where 'a = nat, of x]
    by (simp add: take_bit_nat_eq_self)
qed

lemma and_0xfe00: "x AND 0xfe00 = push_bit 9 (drop_bit 9 x)"
  and and_0xffc0: "x AND 0xffc0 = push_bit 6 (drop_bit 6 x)"
  and and_0xff00: "x AND 0xff00 = push_bit 8 (drop_bit 8 x)"
  if "x = take_bit 16 y" for x y :: "128 word"
proof -
  have m: "(0xfe00 :: 128 word) = take_bit 16 (NOT (mask 9))" "(0xffc0 :: 128 word) = take_bit 16 (NOT (mask 6))"
    "(0xff00 :: 128 word) = take_bit 16 (NOT (mask 8))"
    by (simp_all add: mask_eq_exp_minus_1)
  show "x AND 0xfe00 = push_bit 9 (drop_bit 9 x)" "x AND 0xffc0 = push_bit 6 (drop_bit 6 x)"
    "x AND 0xff00 = push_bit 8 (drop_bit 8 x)"
    unfolding m using that by (simp_all only: and_prefix [OF refl])
qed

lemma prefix_nat: "push_bit n (drop_bit n (x :: 128 word)) = c \<longleftrightarrow> unat x div 2 ^ n * 2 ^ n = unat c"
  unfolding word_unat_eq_iff unat_push_drop ..

lemma in_net6_nat:
  "in_net (a :: 128 word) (base, len) \<longleftrightarrow> unat a div 2 ^ (128 - len) = unat base div 2 ^ (128 - len)"
  unfolding in_net_def prod.case word_unat_eq_iff unat_drop_bit_eq by (simp add: drop_bit_eq_div)

lemma segment_nat: "unat (segment i a) = unat a div 2 ^ (112 - 16 * i) mod 65536"
  unfolding segment_take_bit unsigned_take_bit_eq unsigned_drop_bit_eq
  unfolding take_bit_eq_mod drop_bit_eq_div using unsigned_less [where 'a = nat, of a] by simp

lemma v6_class_nat:
  "v6_unique_local a \<longleftrightarrow> unat a div 2 ^ 121 = 126"
  "v6_link_local a \<longleftrightarrow> unat a div 2 ^ 118 = 1018"
  "v6_multicast a \<longleftrightarrow> unat a div 2 ^ 120 = 255"
proof -
  have s: "segment 0 a = take_bit 16 (drop_bit 112 a)" by (simp add: segment_take_bit)
  have n: "unat (segment 0 a) = unat a div 2 ^ 112"
    unfolding segment0 unat_drop_bit_eq by (simp add: drop_bit_eq_div)
  have d: "unat a div 2 ^ 112 div 2 ^ k = unat a div 2 ^ (112 + k)" for k
    by (simp add: div_mult2_eq power_add)
  show "v6_unique_local a \<longleftrightarrow> unat a div 2 ^ 121 = 126"
    unfolding v6_unique_local_def and_0xfe00 [OF s] prefix_nat n d by simp
  show "v6_link_local a \<longleftrightarrow> unat a div 2 ^ 118 = 1018"
    unfolding v6_link_local_def and_0xffc0 [OF s] prefix_nat n d by simp
  show "v6_multicast a \<longleftrightarrow> unat a div 2 ^ 120 = 255"
    unfolding v6_multicast_def and_0xff00 [OF s] prefix_nat n d by simp
qed

lemma blocked_v6_nat:
  "list_ex (in_net a) blocked_v6 \<longleftrightarrow> a = 0 \<or> a = 1 \<or> v6_unique_local a \<or> v6_link_local a \<or> v6_multicast a"
proof -
  have "in_net a (push_bit 112 0xfc00, 7) \<longleftrightarrow> v6_unique_local a"
    "in_net a (push_bit 112 0xfe80, 10) \<longleftrightarrow> v6_link_local a"
    "in_net a (push_bit 112 0xff00, 8) \<longleftrightarrow> v6_multicast a"
    unfolding in_net6_nat v6_class_nat by (simp_all add: push_bit_eq_mult)
  then show ?thesis by (simp add: blocked_v6_def in_net_def [of a "(_, 128)"])
qed

text \<open>The embedded IPv4 address of a mapped or compatible address.\<close>

lemma to_ipv4_exact:
  "to_ipv4 a = (if drop_bit 32 a = 0 \<or> drop_bit 32 a = 0xffff then Some (ucast a) else None)"
proof -
  define m where "m = unat a div 2 ^ 32"
  have m: "m < 2 ^ 96" using unsigned_less [where 'a = nat, of a] by (simp add: m_def div_less_iff_less_mult)
  have seg: "segment i a = c \<longleftrightarrow> m div 2 ^ (80 - 16 * i) mod 65536 = unat c" if "i \<le> 5" for i c
  proof -
    have "112 - 16 * i = 32 + (80 - 16 * i)" using that by simp
    then show ?thesis by (simp only: word_unat_eq_iff segment_nat m_def power_add div_mult2_eq)
  qed
  have step: "n = 0 \<longleftrightarrow> n div 65536 = 0 \<and> n mod 65536 = 0" for n :: nat
    using div_mult_mod_eq [of n 65536] by (auto simp: div_eq_0_iff)
  have top: "m div 65536 = 0 \<longleftrightarrow> m div 2 ^ 16 mod 65536 = 0 \<and> m div 2 ^ 32 mod 65536 = 0 \<and> m div 2 ^ 48 mod 65536 = 0
      \<and> m div 2 ^ 64 mod 65536 = 0 \<and> m div 2 ^ 80 mod 65536 = 0"
  proof -
    have z: "m div 2 ^ 80 div 65536 = 0" using m by (simp add: div_mult2_eq [symmetric])
    have e: "m div 2 ^ 16 = m div 65536" "m div 2 ^ 32 = m div 65536 div 65536"
      "m div 2 ^ 48 = m div 65536 div 65536 div 65536" "m div 2 ^ 64 = m div 65536 div 65536 div 65536 div 65536"
      "m div 2 ^ 80 = m div 65536 div 65536 div 65536 div 65536 div 65536"
      by (simp_all add: div_mult2_eq [symmetric])
    show ?thesis using z unfolding e by (metis step)
  qed
  have "m = c \<longleftrightarrow> m div 65536 = 0 \<and> m mod 65536 = c" if "c < 65536" for c
    using div_mult_mod_eq [of m 65536] that by (auto simp: div_eq_0_iff)
  from this [of 0] this [of 65535]
  have "m = 0 \<or> m = 65535 \<longleftrightarrow> m div 65536 = 0 \<and> (m mod 65536 = 0 \<or> m mod 65536 = 65535)" by auto
  moreover have "drop_bit 32 a = c \<longleftrightarrow> m = unat c" for c :: "128 word"
    unfolding word_unat_eq_iff unat_drop_bit_eq m_def by (simp add: drop_bit_eq_div)
  ultimately show ?thesis
    unfolding to_ipv4_def using top by (simp add: seg)
qed

subsection \<open>Dotted addresses\<close>

definition v4_text :: "32 word \<Rightarrow> str" where
  "v4_text a = show_nat (octet 0 a) @ ''.'' @ show_nat (octet 1 a) @ ''.'' @ show_nat (octet 2 a) @ ''.''
     @ show_nat (octet 3 a)"

lemma show_octet: "d < 256 \<Longrightarrow> show_nat d =
    (if d < 10 then [digit_char d] else if d < 100 then [digit_char (d div 10), digit_char (d mod 10)]
     else [digit_char (d div 100), digit_char (d div 10 mod 10), digit_char (d mod 10)])"
proof -
  assume "d < 256"
  moreover have "d div 10 < 10 \<longleftrightarrow> d < 100" "d div 100 < 10 \<longleftrightarrow> d < 1000"
    by (simp_all add: div_less_iff_less_mult)
  ultimately show ?thesis
    by (simp add: show_nat.simps [of d] show_nat.simps [of "d div 10"] show_nat.simps [of "d div 100"]
        div_mult2_eq [symmetric])
qed

lemma radix_digit_char [simp]: "k < 10 \<Longrightarrow> radix_digit 10 (digit_char k) = Some k"
  by (simp add: radix_digit_def hex_digit_def)

lemma char_zero: "char_of (48 :: nat) = CHR ''0''" by code_simp

lemma digit_char_zero [simp]: "k < 10 \<Longrightarrow> digit_char k = CHR ''0'' \<longleftrightarrow> k = 0"
  using of_char_digit_char [of k] by (metis add_cancel_right_right digit_char_def of_char_digit_char zero_less_numeral char_zero)

lemma digit_div_mod: "d div 10 * 10 + d mod 10 = d" "(d div 100 * 10 + d div 10 mod 10) * 10 + d mod 10 = d" for d :: nat
  using div_mult_mod_eq [of d 10] div_mult_mod_eq [of "d div 10" 10] by (simp_all add: div_mult2_eq [symmetric])

lemma octets_read: "d < 256 \<Longrightarrow> read_octet (show_nat d) = Some (d, [])"
proof -
  assume d: "d < 256"
  then have "d div 100 < 10" "d div 10 mod 10 < 10" "d mod 10 < 10" "d < 100 \<Longrightarrow> d div 10 < 10"
    by (simp_all add: div_less_iff_less_mult)
  then show ?thesis
    using d digit_div_mod [of d]
    by (simp add: show_octet read_number_def div_eq_0_iff div_greater_zero_iff del: mult_Suc_right)
qed

lemma takeWhile_radix: "list_all is_ascii_digit s \<Longrightarrow> takeWhile (\<lambda>c. radix_digit 10 c \<noteq> None) (s @ r) =
    s @ takeWhile (\<lambda>c. radix_digit 10 c \<noteq> None) r"
  by (induction s) (auto simp: radix_digit_def hex_digit_def is_ascii_digit_def Let_def)

lemma read_octet_show:
  assumes "d < 256" and "r = [] \<or> radix_digit 10 (hd r) = None"
  shows "read_octet (show_nat d @ r) = Some (d, r)"
proof -
  have closed: "read_octet (show_nat d) = Some (d, [])" using octets_read assms(1) .
  have t: "takeWhile (\<lambda>c. radix_digit 10 c \<noteq> None) r = []" using assms(2) by (cases r) auto
  note w = takeWhile_radix [OF show_nat_digits [of d], of r, unfolded t append_Nil2]
    takeWhile_radix [OF show_nat_digits [of d], of "[]", unfolded append_Nil2 takeWhile.simps]
  show ?thesis
    using closed unfolding read_number_def Let_def w by (simp split: if_splits)
qed

lemma octet_bound: "octet i a < 256"
proof -
  have "(0xff :: 32 word) = mask 8" by (simp add: mask_eq_exp_minus_1)
  then have "octet i a = take_bit 8 (unat (drop_bit (24 - 8 * i) a))"
    by (simp only: octet_def take_bit_eq_mask [symmetric] unsigned_take_bit_eq)
  then show ?thesis by (simp add: take_bit_eq_mod)
qed

lemma radix_dot [simp]: "radix_digit 10 CHR ''.'' = None" by code_simp

lemma read_octets_first: "then_read (Some s) read_octet = Some (d, r) \<Longrightarrow> read_octets 3 r = Some (ds, r') \<Longrightarrow>
    read_octets 4 s = Some (d # ds, r')"
  using read_octets.simps(2) [of 3 s] by simp

lemma read_octets_next: "m = Suc n \<Longrightarrow> n \<noteq> 3 \<Longrightarrow> read_octet s = Some (d, r) \<Longrightarrow> read_octets n r = Some (ds, r') \<Longrightarrow>
    read_octets m (CHR ''.'' # s) = Some (d # ds, r')"
  by (erule ssubst)
    (unfold read_octets.simps then_read_def read_char_def, simp only: if_False list.case option.case prod.case if_True simp_thms)

lemma read_ipv4_text: "read_ipv4 (v4_text a) = Some ([octet 0 a, octet 1 a, octet 2 a, octet 3 a], [])"
proof -
  note oct = read_octet_show [OF octet_bound [of _ a]]
  have 1: "read_octets 1 (CHR ''.'' # show_nat (octet 3 a)) = Some ([octet 3 a], [])"
    by (rule read_octets_next [of _ 0]) (use oct [of "[]" 3] in simp_all)
  have 2: "read_octets 2 (CHR ''.'' # show_nat (octet 2 a) @ CHR ''.'' # show_nat (octet 3 a))
      = Some ([octet 2 a, octet 3 a], [])"
    by (rule read_octets_next [OF _ _ oct 1]) simp_all
  have 3: "read_octets 3 (CHR ''.'' # show_nat (octet 1 a) @ CHR ''.'' # show_nat (octet 2 a) @ CHR ''.'' # show_nat (octet 3 a))
      = Some ([octet 1 a, octet 2 a, octet 3 a], [])"
    by (rule read_octets_next [OF _ _ oct 2]) simp_all
  show ?thesis
    unfolding read_ipv4_def v4_text_def append_Cons append_Nil
    by (rule read_octets_first [OF _ 3]) (simp add: then_read_def oct)
qed

lemma word_of_octets: "word_of_parts 256 [octet 0 a, octet 1 a, octet 2 a, octet 3 a] = a"
proof -
  have ff: "(0xff :: 32 word) = mask 8" by (simp add: mask_eq_exp_minus_1)
  have octet: "octet i a = unat a div 2 ^ (24 - 8 * i) mod 2 ^ 8" for i
    unfolding octet_def ff take_bit_eq_mask [symmetric] unsigned_take_bit_eq unsigned_drop_bit_eq
    using unsigned_less [where 'a = nat, of a] by (simp only: drop_bit_eq_div take_bit_eq_mod mod_less)
  define n where "n = unat a"
  have n: "n < 256 * (256 * (256 * 256))" using unsigned_less [where 'a = nat, of a] by (simp add: n_def)
  have "n div 256 div 256 div 256 < 256" using n by (simp add: div_less_iff_less_mult)
  then have n_eq: "((n div 2 ^ 24 mod 2 ^ 8 * 256 + n div 2 ^ 16 mod 2 ^ 8) * 256 + n div 2 ^ 8 mod 2 ^ 8) * 256 + n mod 2 ^ 8 = n"
    using div_mult_mod_eq [of n 256] div_mult_mod_eq [of "n div 256" 256] div_mult_mod_eq [of "n div 256 div 256" 256]
    by (simp add: div_mult2_eq [symmetric])
  have "(word_of_parts 256 [octet 0 a, octet 1 a, octet 2 a, octet 3 a] :: 32 word) = word_of_nat
      (((n div 2 ^ 24 mod 2 ^ 8 * 256 + n div 2 ^ 16 mod 2 ^ 8) * 256 + n div 2 ^ 8 mod 2 ^ 8) * 256 + n mod 2 ^ 8)"
    unfolding word_of_parts_def foldl.simps octet n_def [symmetric] by (rule arg_cong [where f = word_of_nat]) simp
  then show ?thesis unfolding n_eq by (simp add: n_def)
qed

lemma parse_v4_text: "parse_ip (v4_text a) = Some (V4 a)"
  unfolding parse_ip_def read_ipv4_text by (simp only: option.case prod.case word_of_octets simp_thms if_True)

lemma v4_text_digits: "set (v4_text a) \<subseteq> insert CHR ''.'' {c. is_ascii_digit c}"
  using show_nat_digits by (auto simp: v4_text_def list_all_iff)

lemma v4_host:
  "to_ascii_lowercase (v4_text a) = v4_text a" "unbracket (v4_text a) = v4_text a"
  "v4_text a \<noteq> ''localhost''" "\<not> ends_with ''.localhost'' (v4_text a)"
proof -
  have low: "ascii_lower_char c = c" if "c \<in> set (v4_text a)" for c
    using that v4_text_digits [of a] by (auto simp: ascii_lower_char_def is_ascii_upper_def is_ascii_digit_def)
  then show "to_ascii_lowercase (v4_text a) = v4_text a"
    by (simp add: to_ascii_lowercase_def map_idI)
  have no: "c \<notin> set (v4_text a)" if "c \<in> {CHR ''['', CHR ''t''}" for c
    using that v4_text_digits [of a] by (auto simp: is_ascii_digit_def)
  show "unbracket (v4_text a) = v4_text a"
    using no [of "CHR ''[''"] by (auto simp: unbracket_def strip_prefix_Some_iff split: option.split)
  show "v4_text a \<noteq> ''localhost''" using no [of "CHR ''t''"] by auto
  have "CHR ''t'' \<notin> set (rev (v4_text a))" using no [of "CHR ''t''"] by simp
  then show "\<not> ends_with ''.localhost'' (v4_text a)"
    by (auto simp: ends_with_def starts_with_iff)
qed

subsection \<open>Properties\<close>

text \<open>C39: the address check blocks exactly the networks 0.0.0.0/32, 10/8, 127/8, 169.254/16, 172.16/12,
  192.168/16 and 224/4, and for IPv6 ::/128, ::1/128, fc00::/7, fe80::/10, ff00::/8 and every address that
  embeds a blocked IPv4 address (mapped or compatible).\<close>

theorem safe_ip_exact:
  "(is_safe_ip (V4 a) \<longleftrightarrow> \<not> list_ex (in_net a) blocked_v4)
   \<and> (is_safe_ip (V6 b) \<longleftrightarrow> \<not> list_ex (in_net b) blocked_v6
        \<and> (if drop_bit 32 b = 0 \<or> drop_bit 32 b = 0xffff then is_safe_ip (V4 (ucast b)) else True))"
  unfolding safe_v4 blocked_v6_nat
  by (simp add: is_safe_ip_def to_ipv4_exact safe_v4 [symmetric])

text \<open>An \<open>https\<close> URL whose host is a dotted IPv4 address is accepted exactly when the address is in
  no blocked network: the text of every address reads back as that address.\<close>

lemma literal_hosts_checked:
  assumes "n_url N u = Some \<lparr>u_scheme = ''https'', u_host = Some (v4_text a), u_port = p\<rparr>"
  shows "is_safe_url N u \<longleftrightarrow> \<not> list_ex (in_net a) blocked_v4"
  using assms by (simp add: is_safe_url_def v4_host parse_v4_text safe_v4)




text \<open>A client, a resolver that changes its answer between the check and the connection, and an
  endpoint that redirects to the loopback address.\<close>

definition public_ip :: ip where "public_ip = V4 0x08080808"
definition loopback_ip :: ip where "loopback_ip = V4 0x7F000001"

definition sample_net :: net where
  "sample_net = \<lparr>n_url = (\<lambda>u. Some \<lparr>u_scheme = ''https'', u_host = Some u, u_port = None\<rparr>),
     n_lookup = (\<lambda>t target. if target = ''rebind.example:443'' \<and> t \<noteq> 0 then Addresses [loopback_ip] else Addresses [public_ip]),
     n_wire = (\<lambda>t rq. if hr_url rq = ''rebind.example'' \<and> t \<noteq> 0 then [(rq, loopback_ip)]
       else if hr_url rq = ''redirect.example'' then [(rq, public_ip), (rq\<lparr>hr_url := ''127.0.0.1''\<rparr>, loopback_ip)]
       else [(rq, public_ip)]),
     n_redirects = (\<lambda>t rq. hr_url rq = ''redirect.example'')\<rparr>"

lemma sample_target: "lookup_target sample_net h = Inr (h @ '':443'')"
  by (simp add: lookup_target_def sample_net_def) code_simp


lemma parse_ip_name:
  assumes "radix_digit 10 c = None" "radix_digit 16 c = None" "c \<noteq> CHR '':''"
  shows "parse_ip (c # s) = None"
proof -
  have n: "read_number r k z m (c # s) = None" if "radix_digit r c = None" for r k z m
    using that by (simp add: read_number_def)
  have o4: "read_ipv4 (c # s) = None"
    using read_octets.simps(2) [of 3 "c # s"] n [OF assms(1)] by (simp add: read_ipv4_def then_read_def)
  have "read_groups (Suc k) True (c # s) = ([], False, c # s)" for k
    using n [OF assms(2)] o4 by (simp add: read_sep_def then_read_def)
  from this [of 7] have "read_ipv6 (c # s) = None" using assms(3) by (simp add: read_ipv6_def)
  then show ?thesis using o4 by (simp add: parse_ip_def)
qed

lemma named_host_safe:
  assumes "to_ascii_lowercase (c # s) = c # s" "unbracket (c # s) = c # s" "c # s \<noteq> ''localhost''" "\<not> ends_with ''.localhost'' (c # s)"
    and "radix_digit 10 c = None" "radix_digit 16 c = None" "c \<noteq> CHR '':''"
  shows "is_safe_url sample_net (c # s)"
  using assms parse_ip_name [OF assms(5-7), of s] by (simp add: is_safe_url_def sample_net_def Let_def)

lemma sample_hosts:
  "is_safe_url sample_net ''ok.example''" "is_safe_url sample_net ''rebind.example''" "is_safe_url sample_net ''redirect.example''"
  by (rule named_host_safe; code_simp)+

lemma sample_addresses: "is_safe_ip public_ip" "\<not> is_safe_ip loopback_ip"
  by (simp_all add: is_safe_ip_def public_ip_def loopback_ip_def v4_loopback_def v4_unspecified_def v4_private_def
      v4_link_local_def v4_multicast_def octet_def)

lemma sample_delivery:
  assumes "h \<in> {''ok.example'', ''rebind.example'', ''redirect.example''}"
  shows "deliver_once (sample_env (HttpReply 200 [])) sample_net h JNull (sample_world empty_db) =
    (Inr (), (sample_world empty_db)\<lparr>w_tick := 2, w_sent := [webhook_request h JNull], w_wire := n_wire sample_net 1 (webhook_request h JNull)\<rparr>)"
proof -
  have "n_lookup sample_net 0 t = Addresses [public_ip]" for t by (simp add: sample_net_def)
  then show ?thesis using assms sample_hosts sample_addresses
    by (auto simp: deliver_once_def resolve_and_check_def sample_target check_addresses_def http_send_def sample_world_def
        sample_env_def is_success_def)
qed


text \<open>The checks do not bind the client: with a resolver that changes its answer, or an endpoint that
  redirects, a delivery that passed them posts to the loopback address.\<close>

lemma unchecked_address_reached:
  assumes "h \<in> {''rebind.example'', ''redirect.example''}"
  shows "\<exists>w'. deliver_once (sample_env (HttpReply 200 [])) sample_net h JNull (sample_world empty_db) = (Inr (), w')
    \<and> (\<exists>(rq, p) \<in> set (w_wire w'). hr_method rq = ''POST'' \<and> \<not> is_safe_ip p)"
proof -
  have "\<exists>(rq, p) \<in> set (n_wire sample_net 1 (webhook_request h JNull)). hr_method rq = ''POST'' \<and> \<not> is_safe_ip p"
    using assms sample_addresses by (auto simp: sample_net_def webhook_request_def)
  then show ?thesis using sample_delivery [of h] assms by auto
qed

text \<open>A failed delivery is terminal exactly when the URL is refused, it resolves to a blocked address,
  or the endpoint answers 4xx other than 408 and 429; every other failure is retried.\<close>

lemma webhook_terminal_exact:
  "(\<exists>f. fst (deliver_once E N u b w) = Inl f \<and> wf_terminal f) \<longleftrightarrow>
     (if is_safe_url N u then
        fst (resolve_and_check N u w) = Inl private_reason
        \<or> fst (resolve_and_check N u w) = Inr ()
          \<and> (\<exists>st body. e_http E (w_tick w + 1) (webhook_request u b) = HttpReply st body
               \<and> 400 \<le> st \<and> st \<le> 499 \<and> st \<noteq> 408 \<and> st \<noteq> 429)
      else True)"
proof -
  obtain r w1 where r: "resolve_and_check N u w = (r, w1)" by fastforce
  show ?thesis
  proof (cases r)
    case (Inl e)
    then show ?thesis using r by (auto simp: deliver_once_def)
  next
    case (Inr x)
    then have "w_tick w1 = w_tick w + 1" using r by (auto simp: resolve_and_check_def split: sum.splits)
    then show ?thesis
      using r Inr by (cases "e_http E (w_tick w1) (webhook_request u b)")
        (auto simp: deliver_once_def http_send_def status_terminal_def is_success_def)
  qed
qed

end
