(* ===== verification/Site.thy ===== *)
theory Site
  imports FormJson QuizGrader Retry Guard Sync Webhook
begin

text \<open>
  What the HTTP handlers share: the server's configuration and the functions of libraries they
  call, small actions, the rows of a form, and the pages. A handler is an action; a page keeps what
  the code substitutes into its markup.
\<close>

text \<open>
  \<open>st_new_uuid\<close> is the database's \<open>gen_random_uuid()\<close> at a statement, \<open>st_parse_uuid\<close> reads a UUID in
  any accepted spelling and gives its canonical text, \<open>st_show_time\<close> prints an instant as RFC 3339,
  \<open>st_schema_error\<close> is serde's text for a value that is no form, \<open>st_pick\<close> the numbers the random
  generator draws at a tick, \<open>st_b64\<close>, \<open>st_url_encode\<close> and \<open>st_cookie_text\<close> (of a session cookie) the encoders, \<open>st_template\<close> the text of a file
  of \<open>templates/\<close>, and \<open>st_shuffle\<close> the random reorderings: at a tick, for the questions of a page
  or the options of a question, given by its position.
\<close>

record site =
  st_base_url :: str
  st_secret :: str
  st_origins :: "str list"
  st_dashboard :: "str option"
  st_config :: sync_config
  st_crypto :: crypto
  st_net :: net
  st_show_time :: "int \<Rightarrow> str"
  st_schema_error :: "json \<Rightarrow> str"
  st_new_uuid :: "nat \<Rightarrow> str"
  st_parse_uuid :: "str \<Rightarrow> str option"
  st_pick :: "nat \<Rightarrow> nat \<Rightarrow> nat"
  st_b64 :: "str \<Rightarrow> str"
  st_url_encode :: "str \<Rightarrow> str"
  st_cookie_text :: "str \<Rightarrow> str"
  st_template :: "str \<Rightarrow> str"
  st_shuffle :: "nat \<Rightarrow> nat list \<Rightarrow> json list \<Rightarrow> json list"

subsection \<open>Actions\<close>

definition act_now :: "int act" where "act_now w = (Inr (w_now w), w)"

definition act_tick :: "nat act" where "act_tick w = (Inr (w_tick w), w)"

text \<open>\<open>r?\<close> for a pure result.\<close>

definition act_result :: "'a app_result \<Rightarrow> 'a act" where "act_result r w = (r, w)"

definition act_require :: "bool \<Rightarrow> app_error \<Rightarrow> unit act" where
  "act_require b e = (if b then act_ok () else act_fail e)"

text \<open>An instant in whole seconds, as \<open>timestamp()\<close>.\<close>

definition unix_secs :: "int \<Rightarrow> int" where "unix_secs now = now div nanos_per_sec"

definition session_of :: "site \<Rightarrow> int \<Rightarrow> str \<Rightarrow> (str \<times> str) option" where
  "session_of S now cookie = verify_session (st_crypto S) (unix_secs now) cookie (st_secret S)"

lemma act_require_Inr: "act_require b e w = (Inr x, w') \<longleftrightarrow> b \<and> w' = w"
  by (auto simp: act_require_def)

lemma act_result_Inr: "act_result r w = (Inr x, w') \<longleftrightarrow> r = Inr x \<and> w' = w"
  by (auto simp: act_result_def)

lemma act_now_Inr: "act_now w = (Inr x, w') \<longleftrightarrow> x = w_now w \<and> w' = w"
  by (auto simp: act_now_def)

lemma act_tick_Inr: "act_tick w = (Inr x, w') \<longleftrightarrow> x = w_tick w \<and> w' = w"
  by (auto simp: act_tick_def)

lemma act_ok_Inr: "act_ok x w = (Inr y, w') \<longleftrightarrow> y = x \<and> w' = w"
  by auto

text \<open>A statement that succeeds took one tick and did what it says.\<close>

lemma query_done:
  "db_query E f w = (Inr x, w') \<longleftrightarrow>
     e_db_fault E (w_tick w) = None \<and> x = f (w_db w) \<and> w' = w\<lparr>w_tick := w_tick w + 1\<rparr>"
  by (cases w) (auto simp: db_query_def db_stmt_def Let_def split: option.splits)

lemma exec_done:
  "db_exec E f w = (Inr x, w') \<longleftrightarrow>
     e_db_fault E (w_tick w) = None \<and> w' = w\<lparr>w_tick := w_tick w + 1, w_db := f (w_db w)\<rparr>"
  by (cases w) (auto simp: db_exec_def db_stmt_def Let_def split: option.splits)

lemma stmt_done:
  "db_stmt E f w = (Inr x, w') \<longleftrightarrow>
     e_db_fault E (w_tick w) = None \<and> (\<exists>d. f (w_db w) = Inr (x, d) \<and> w' = w\<lparr>w_tick := w_tick w + 1, w_db := d\<rparr>)"
  by (auto simp: db_stmt_def Let_def split: option.splits sum.splits)

lemmas act_Inr = act_bind_Inr act_require_Inr act_result_Inr act_now_Inr act_tick_Inr act_ok_Inr
  query_done exec_done stmt_done

lemma keeps_require [simp, intro]: "keeps P (act_require b e)"
  by (simp add: act_require_def)

lemma keeps_result [simp, intro]: "keeps P (act_result r)"
  by (simp add: keeps_def act_result_def)

lemma keeps_now [simp, intro]: "keeps P act_now"
  by (simp add: keeps_def act_now_def)

lemma keeps_tick [simp, intro]: "keeps P act_tick"
  by (simp add: keeps_def act_tick_def)

text \<open>An action that reads only: it leaves the tables and the clock alone.\<close>

definition reads_only :: "'a act \<Rightarrow> bool" where
  "reads_only m \<longleftrightarrow> (\<forall>w. w_db (snd (m w)) = w_db w \<and> w_now (snd (m w)) = w_now w \<and> w_tick w \<le> w_tick (snd (m w)))"

lemma reads_onlyD: "reads_only m \<Longrightarrow> m w = (r, w') \<Longrightarrow> w_db w' = w_db w \<and> w_now w' = w_now w \<and> w_tick w \<le> w_tick w'"
  unfolding reads_only_def by (metis snd_conv)

lemma reads_only_simps [simp, intro]:
  "reads_only (act_ok x)" "reads_only (act_fail e)" "reads_only (act_require b e)" "reads_only (act_result r)"
  "reads_only act_now" "reads_only act_tick" "reads_only (db_query E f)"
  by (auto simp: reads_only_def act_require_def act_result_def act_now_def act_tick_def db_query_def db_stmt_def
      Let_def split: option.split)

lemma reads_only_bind [intro]:
  assumes "reads_only m" and "\<And>x. reads_only (f x)"
  shows "reads_only (act_bind m f)"
  using assms unfolding reads_only_def act_bind_def
  by (auto split: prod.split sum.split) (metis snd_conv order_trans)+

lemma reads_only_fetch [simp, intro]:
  "reads_only (fetch_user_guild_ids E base key d)" "reads_only (fetch_guild_optout_ids E base key g)"
  by (simp_all add: reads_only_def fetch_user_guild_ids_def fetch_guild_optout_ids_def gateway_call_state)

subsection \<open>Rows\<close>

definition find_form_by_slug :: "str \<Rightarrow> db \<Rightarrow> form_row option" where
  "find_form_by_slug slug d = find (\<lambda>f. fm_slug f = slug) (db_forms d)"

text \<open>\<open>ORDER BY last_edited_at DESC LIMIT 1\<close>; of rows edited at the same instant the first.\<close>

fun newest :: "response_row list \<Rightarrow> response_row option" where
  "newest [] = None"
| "newest (r # rs) = (case newest rs of
       None \<Rightarrow> Some r
     | Some r' \<Rightarrow> if fr_last_edited_at r < fr_last_edited_at r' then Some r' else Some r)"

definition canonical_attempt :: "str \<Rightarrow> str \<Rightarrow> db \<Rightarrow> response_row option" where
  "canonical_attempt form_id discord_id d = newest (user_responses form_id discord_id d)"

definition existing_of :: "response_row \<Rightarrow> existing_attempt" where
  "existing_of r = \<lparr>ea_attempt_count = fr_attempt_count r, ea_last_attempt_at = fr_last_edited_at r,
     ea_total_score = fr_total_score r, ea_passed = fr_passed r\<rparr>"

definition retry_config_from_form :: "form_row \<Rightarrow> retry_config" where
  "retry_config_from_form f = \<lparr>rc_max_attempts = fm_max_attempts f, rc_cooldown_seconds = fm_retry_cooldown_seconds f,
     rc_policy = policy_from_str_or_default (fm_retry_policy f), rc_lock_on_pass = fm_lock_on_pass f\<rparr>"

subsection \<open>Text\<close>

text \<open>\<open>s.replace(from, to)\<close> for a non-empty pattern, left to right without overlap.\<close>

function str_replace :: "str \<Rightarrow> str \<Rightarrow> str \<Rightarrow> str" where
  "str_replace p by s = (case s of
       [] \<Rightarrow> []
     | c # r \<Rightarrow> (case strip_prefix p s of
           Some rest \<Rightarrow> if p = [] then s else by @ str_replace p by rest
         | None \<Rightarrow> c # str_replace p by r))"
  by pat_completeness auto
termination
  by (relation "measure (\<lambda>(p, by, s). length s)") (auto simp: strip_prefix_Some_iff)

declare str_replace.simps [simp del]

definition escape_html :: "str \<Rightarrow> str" where
  "escape_html s = replace_char (CHR 0x27) ''&#39;'' (replace_char (CHR 0x22) ''&quot;''
     (replace_char (CHR ''>'') ''&gt;'' (replace_char (CHR ''<'') ''&lt;'' (replace_char (CHR ''&'') ''&amp;'' s))))"

lemma set_replace_char: "set (replace_char c by s) \<subseteq> (set s - {c}) \<union> set by"
  by (auto simp: replace_char_def split: if_splits)

text \<open>Escaped text has no character that opens markup or closes a quoted attribute.\<close>

lemma escape_html_safe:
  "set (escape_html s) \<inter> {CHR ''<'', CHR ''>'', CHR 0x22, CHR 0x27} = {}"
proof -
  define a b c d where defs: "a = replace_char (CHR ''&'') ''&amp;'' s" "b = replace_char (CHR ''<'') ''&lt;'' a"
    "c = replace_char (CHR ''>'') ''&gt;'' b" "d = replace_char (CHR 0x22) ''&quot;'' c"
  have "CHR ''<'' \<notin> set b" using set_replace_char [of "CHR ''<''" "''&lt;''" a] by (auto simp: defs)
  then have "CHR ''<'' \<notin> set c" "CHR ''>'' \<notin> set c"
    using set_replace_char [of "CHR ''>''" "''&gt;''" b] by (auto simp: defs)
  then have "CHR ''<'' \<notin> set d" "CHR ''>'' \<notin> set d" "CHR 0x22 \<notin> set d"
    using set_replace_char [of "CHR 0x22" "''&quot;''" c] by (auto simp: defs)
  then show ?thesis
    using set_replace_char [of "CHR 0x27" "''&#39;''" d] by (auto simp: escape_html_def defs)
qed

end
