(* ===== verification/Access.thy ===== *)
theory Access
  imports Site
begin

text \<open>
  \<open>routes/admin.rs\<close>, who may do what: the manager check through the Auth Gateway, the read-only
  entry of pages and of read endpoints, the access of the role-config endpoints, the dashboard's
  iframe entry, and the admin pages themselves. A page keeps its status, headers and what is
  substituted into its markup.
\<close>

subsection \<open>Pages\<close>

datatype admin_body =
    AdminSignin str  \<comment> \<open>base URL\<close>
  | AccessDenied str str  \<comment> \<open>base URL, escaped message\<close>
  | IframeError str str
  | FilledTemplate str

record admin_page =
  ap_status :: nat
  ap_headers :: "(str \<times> str) list"
  ap_body :: admin_body

definition admin_html :: "site \<Rightarrow> nat \<Rightarrow> admin_body \<Rightarrow> str \<Rightarrow> admin_page" where
  "admin_html S status body cache_control =
     \<lparr>ap_status = status,
      ap_headers = [(''content-type'', ''text/html; charset=utf-8''),
        (''content-security-policy'', admin_iframe_csp (st_dashboard S)), (''cache-control'', cache_control)],
      ap_body = body\<rparr>"

definition no_store :: str where "no_store = ''private, no-store''"

text \<open>The three replacements of the error pages.\<close>

definition escape_text :: "str \<Rightarrow> str" where
  "escape_text s = replace_char (CHR ''>'') ''&gt;'' (replace_char (CHR ''<'') ''&lt;'' (replace_char (CHR ''&'') ''&amp;'' s))"

definition admin_signin_page :: "site \<Rightarrow> admin_page" where
  "admin_signin_page S = admin_html S 200 (AdminSignin (st_base_url S)) no_store"

definition render_access_denied :: "site \<Rightarrow> str \<Rightarrow> admin_page" where
  "render_access_denied S message = admin_html S 403 (AccessDenied (st_base_url S) (escape_text message)) no_store"

definition render_iframe_error :: "site \<Rightarrow> str \<Rightarrow> admin_page" where
  "render_iframe_error S message = admin_html S 403 (IframeError (st_base_url S) (escape_text message)) no_store"

definition with_read_only_placeholders :: "str \<Rightarrow> str option \<Rightarrow> str" where
  "with_read_only_placeholders body ro_token =
     str_replace ''__READ_ONLY__'' (if ro_token \<noteq> None then ''1'' else ''0'')
       (str_replace ''__IFS_TOKEN__'' (unwrap_or ro_token []) body)"

subsection \<open>The manager check\<close>

definition permission_request :: "site \<Rightarrow> str \<Rightarrow> str \<Rightarrow> http_request" where
  "permission_request S cookie_value guild_id =
     \<lparr>hr_method = ''GET'',
      hr_url = sc_gateway (st_config S) @ ''/auth/guild_permission?guild_id='' @ st_url_encode S guild_id,
      hr_query = [], hr_headers = [(''cookie'', st_cookie_text S cookie_value)], hr_body = JNull\<rparr>"

definition json_true :: "json \<Rightarrow> str \<Rightarrow> bool" where
  "json_true v k = unwrap_or (Option.bind (jget v k) as_bool) False"

text \<open>The gateway's answer for a cookie and a guild; a page and an API endpoint share it.\<close>

definition guild_permission :: "env \<Rightarrow> site \<Rightarrow> str \<Rightarrow> str \<Rightarrow> json act" where
  "guild_permission E S cookie_value guild_id w =
     (case http_send E (permission_request S cookie_value guild_id) w of
        (HttpFailed m, w') \<Rightarrow> (Inl (EInternal (''auth_gateway request failed: '' @ m)), w')
      | (HttpReply st body, w') \<Rightarrow>
          if \<not> is_success st then (Inl (EForbidden ''Could not verify your permissions for this guild.''), w')
          else (ok_or (e_parse_json E body) (EInternal (''auth_gateway response not JSON: '' @ e_json_error E body)), w'))"

definition check_manager :: "env \<Rightarrow> site \<Rightarrow> str \<Rightarrow> str \<Rightarrow> unit act" where
  "check_manager E S cookie_value guild_id =
     act_bind (guild_permission E S cookie_value guild_id) (\<lambda>perm.
     act_require (json_true perm ''is_manager'')
       (EForbidden ''Only server managers can edit forms for this server.''))"

definition require_session :: "site \<Rightarrow> str option \<Rightarrow> str \<Rightarrow> str \<Rightarrow> (str \<times> str) act" where
  "require_session S cookie missing invalid =
     act_bind (act_result (ok_or cookie (EUnauthorizedWith missing))) (\<lambda>c.
     act_bind act_now (\<lambda>now.
     act_bind (act_result (ok_or (session_of S now c) (EUnauthorizedWith invalid))) (\<lambda>(caller_id, _).
     act_ok (c, caller_id))))"

definition require_manager :: "env \<Rightarrow> site \<Rightarrow> str option \<Rightarrow> str \<Rightarrow> str act" where
  "require_manager E S cookie guild_id =
     act_bind (require_session S cookie ''Sign in with Discord first.''
         ''Your session is invalid or expired. Sign in again.'') (\<lambda>(c, caller_id).
     act_bind (check_manager E S c guild_id) (\<lambda>_. act_ok caller_id))"

definition require_manager_html :: "env \<Rightarrow> site \<Rightarrow> str option \<Rightarrow> str \<Rightarrow> world \<Rightarrow> (admin_page, str) result \<times> world" where
  "require_manager_html E S cookie guild_id w =
     (case cookie of
        None \<Rightarrow> (Inl (admin_signin_page S), w)
      | Some c \<Rightarrow> (case session_of S (w_now w) c of
            None \<Rightarrow> (Inl (admin_signin_page S), w)
          | Some (caller_id, _) \<Rightarrow> (case check_manager E S c guild_id w of
                (Inr _, w') \<Rightarrow> (Inr caller_id, w')
              | (Inl (EForbidden msg), w') \<Rightarrow> (Inl (render_access_denied S msg), w')
              | (Inl _, w') \<Rightarrow> (Inl (render_access_denied S
                  ''Could not verify your permissions for this guild. Try reloading.''), w'))))"

subsection \<open>Read-only views\<close>

definition iframe_session_of :: "site \<Rightarrow> int \<Rightarrow> str \<Rightarrow> iframe_session option" where
  "iframe_session_of S now token = verify_iframe_session (st_crypto S) (unix_secs now) token (st_secret S)"

definition check_read_only_page_entry :: "site \<Rightarrow> int \<Rightarrow> str \<Rightarrow> str option \<Rightarrow> (admin_page, str option) result" where
  "check_read_only_page_entry S now guild_id ifs =
     (case ifs of
        None \<Rightarrow> Inr None
      | Some token \<Rightarrow>
          if token = [] then Inr None
          else (case iframe_session_of S now token of
              None \<Rightarrow> Inl (render_iframe_error S
                ''This read-only view has expired. Reopen it from the RoleLogic dashboard.'')
            | Some session \<Rightarrow>
                if \<not> is_read_only session \<or> is_guild_id session \<noteq> guild_id
                then Inl (render_iframe_error S ''This link does not grant access to this page.'')
                else Inr (Some token)))"

definition extract_bearer :: "request \<Rightarrow> str option" where
  "extract_bearer rq = (case header_str rq ''authorization'' of
       None \<Rightarrow> None | Some v \<Rightarrow> strip_prefix ''Bearer '' v)"

definition session_expired :: app_error where
  "session_expired = EUnauthorizedWith ''Your session expired. Reopen the plugin in the RoleLogic dashboard.''"

definition require_guild_view_access :: "env \<Rightarrow> site \<Rightarrow> request \<Rightarrow> str option \<Rightarrow> str \<Rightarrow> unit act" where
  "require_guild_view_access E S rq cookie guild_id =
     (case extract_bearer rq of
        Some bearer \<Rightarrow>
          act_bind act_now (\<lambda>now.
          act_bind (act_result (ok_or (iframe_session_of S now bearer) session_expired)) (\<lambda>session.
          act_require (is_read_only session \<and> is_guild_id session = guild_id)
            (EForbidden ''Token does not grant access to this page.'')))
      | None \<Rightarrow> act_bind (require_manager E S cookie guild_id) (\<lambda>_. act_ok ()))"

record role_config_access =
  rca_discord_id :: str
  rca_read_only :: bool

definition require_role_config_access ::
  "env \<Rightarrow> site \<Rightarrow> request \<Rightarrow> str option \<Rightarrow> str \<Rightarrow> str \<Rightarrow> role_config_access act" where
  "require_role_config_access E S rq cookie guild_id role_id =
     (case extract_bearer rq of
        Some bearer \<Rightarrow>
          act_bind act_now (\<lambda>now.
          act_bind (act_result (ok_or (iframe_session_of S now bearer) session_expired)) (\<lambda>s.
          act_bind (act_require (is_guild_id s = guild_id \<and> is_role_id s = role_id)
            (EForbidden ''Token does not grant access to this role link.'')) (\<lambda>_.
          act_ok \<lparr>rca_discord_id = is_discord_id s, rca_read_only = is_read_only s\<rparr>)))
      | None \<Rightarrow>
          act_bind (require_manager E S cookie guild_id) (\<lambda>discord_id.
          act_ok \<lparr>rca_discord_id = discord_id, rca_read_only = False\<rparr>))"

subsection \<open>The dashboard's iframe entry\<close>

fun token_error_text :: "rl_token_error \<Rightarrow> str" where
  "token_error_text Expired = ''Your session expired. Reopen the plugin in the RoleLogic dashboard.''"
| "token_error_text BadSignature = ''Invalid auth token.''"
| "token_error_text Malformed = ''Invalid auth token.''"
| "token_error_text WrongAudience = ''Token is for a different plugin.''"
| "token_error_text WrongIssuer = ''Token was not issued by RoleLogic.''"

definition verify_iframe_entry ::
  "env \<Rightarrow> site \<Rightarrow> str \<Rightarrow> str \<Rightarrow> str \<Rightarrow> world \<Rightarrow> (admin_page, str \<times> bool) result \<times> world" where
  "verify_iframe_entry E S guild_id role_id rl_token w =
     (case db_query E (\<lambda>d. map_option rl_api_token (find_link guild_id role_id d)) w of
        (Inl e, w') \<Rightarrow> (Inl (render_iframe_error S (''Database error: ''
            @ (case e of EDatabase d \<Rightarrow> db_error_text d | _ \<Rightarrow> []))), w')
      | (Inr None, w') \<Rightarrow> (Inl (render_iframe_error S
            (''This role link isn'' @ [CHR 0x27] @ ''t registered with this plugin yet.'')), w')
      | (Inr (Some api_token), w') \<Rightarrow>
          (case verify (st_crypto S) (unix_secs (w_now w')) rl_token api_token (st_base_url S) of
             Inl e \<Rightarrow> (Inl (render_iframe_error S (token_error_text e)), w')
           | Inr v \<Rightarrow>
               if v_guild_id v \<noteq> guild_id \<or> v_role_id v \<noteq> role_id
               then (Inl (render_iframe_error S ''Token does not match this role link.''), w')
               else (Inr (mint_iframe_session (st_crypto S) (unix_secs (w_now w')) (v_discord_id v) guild_id role_id
                       (v_read_only v) (v_actor_id v) (st_secret S), v_read_only v), w')))"

subsection \<open>The pages\<close>

text \<open>The forms list, the builder and the response dashboard differ in their template and its fields.\<close>

definition guild_page ::
  "env \<Rightarrow> site \<Rightarrow> str \<Rightarrow> (str \<Rightarrow> str) \<Rightarrow> str option \<Rightarrow> str \<Rightarrow> str option \<Rightarrow> world \<Rightarrow> admin_page \<times> world" where
  "guild_page E S template fill cookie guild_id ifs w =
     (case check_read_only_page_entry S (w_now w) guild_id ifs of
        Inl page \<Rightarrow> (page, w)
      | Inr ro_token \<Rightarrow>
          (let page = admin_html S 200 (FilledTemplate (with_read_only_placeholders
                 (fill (str_replace ''__GUILD_ID__'' guild_id
                   (str_replace ''__BASE_URL__'' (st_base_url S) (st_template S template)))) ro_token)) no_store
           in if ro_token \<noteq> None then (page, w)
              else (case require_manager_html E S cookie guild_id w of
                (Inl denied, w') \<Rightarrow> (denied, w') | (Inr _, w') \<Rightarrow> (page, w'))))"

definition list_page :: "env \<Rightarrow> site \<Rightarrow> str option \<Rightarrow> str \<Rightarrow> str option \<Rightarrow> world \<Rightarrow> admin_page \<times> world" where
  "list_page E S = guild_page E S ''admin_list.html'' (\<lambda>s. s)"

definition builder_page :: "env \<Rightarrow> site \<Rightarrow> str \<Rightarrow> str option \<Rightarrow> str \<Rightarrow> str option \<Rightarrow> world \<Rightarrow> admin_page \<times> world" where
  "builder_page E S form_id = guild_page E S ''builder.html'' (str_replace ''__FORM_ID__'' form_id)"

definition responses_page :: "env \<Rightarrow> site \<Rightarrow> str \<Rightarrow> str option \<Rightarrow> str \<Rightarrow> str option \<Rightarrow> world \<Rightarrow> admin_page \<times> world" where
  "responses_page E S form_id = guild_page E S ''responses.html'' (str_replace ''__FORM_ID__'' form_id)"

definition role_config_html :: "site \<Rightarrow> str \<Rightarrow> str \<Rightarrow> str option \<Rightarrow> bool \<Rightarrow> admin_page" where
  "role_config_html S guild_id role_id iframe_token read_only = admin_html S 200 (FilledTemplate
     (str_replace ''__READ_ONLY__'' (if read_only then ''1'' else ''0'')
     (str_replace ''__IFRAME_TOKEN__'' (unwrap_or iframe_token [])
     (str_replace ''__ROLE_ID__'' role_id
     (str_replace ''__GUILD_ID__'' guild_id
     (str_replace ''__BASE_URL__'' (st_base_url S) (st_template S ''role_config.html''))))))) ''private, max-age=300, must-revalidate''"

definition role_config_page ::
  "env \<Rightarrow> site \<Rightarrow> str option \<Rightarrow> str \<Rightarrow> str \<Rightarrow> str option \<Rightarrow> world \<Rightarrow> admin_page \<times> world" where
  "role_config_page E S cookie guild_id role_id rl_token w =
     (if unwrap_or rl_token [] \<noteq> [] then
        (case verify_iframe_entry E S guild_id role_id (unwrap_or rl_token []) w of
           (Inl page, w') \<Rightarrow> (page, w')
         | (Inr (token, read_only), w') \<Rightarrow> (role_config_html S guild_id role_id (Some token) read_only, w'))
      else (case require_manager_html E S cookie guild_id w of
           (Inl denied, w') \<Rightarrow> (denied, w')
         | (Inr _, w') \<Rightarrow> (role_config_html S guild_id role_id None False, w')))"

subsection \<open>What passing the checks means\<close>

text \<open>The gateway said, for this cookie and guild, that its user manages the guild.\<close>

definition gateway_confirms :: "env \<Rightarrow> site \<Rightarrow> str \<Rightarrow> str \<Rightarrow> nat \<Rightarrow> bool" where
  "gateway_confirms E S cookie_value guild_id t \<longleftrightarrow>
     (\<exists>st body perm. e_http E t (permission_request S cookie_value guild_id) = HttpReply st body \<and> is_success st
        \<and> e_parse_json E body = Some perm \<and> jget perm ''is_manager'' = Some (JBool True))"

definition is_live_manager :: "env \<Rightarrow> site \<Rightarrow> world \<Rightarrow> str option \<Rightarrow> str \<Rightarrow> str \<Rightarrow> bool" where
  "is_live_manager E S w cookie guild_id caller \<longleftrightarrow> (\<exists>c name t. cookie = Some c
     \<and> session_of S (w_now w) c = Some (caller, name) \<and> gateway_confirms E S c guild_id t)"

lemma json_true_iff: "json_true v k \<longleftrightarrow> jget v k = Some (JBool True)"
  by (cases "jget v k") (auto simp: json_true_def as_bool_def split: json.split)

lemma guild_permission_reads [simp, intro]: "reads_only (guild_permission E S c g)"
  by (auto simp: reads_only_def guild_permission_def http_send_def split: http_reply.split)

lemma check_manager_reads [simp, intro]: "reads_only (check_manager E S c g)"
  unfolding check_manager_def by (intro reads_only_bind reads_only_simps guild_permission_reads)

lemma check_manager_Inr:
  assumes "check_manager E S c g w = (Inr x, w')"
  shows "gateway_confirms E S c g (w_tick w)"
  using assms
  by (auto simp: check_manager_def act_Inr guild_permission_def http_send_def gateway_confirms_def json_true_iff ok_or_Inr_iff
      split: http_reply.splits if_splits)

lemma require_session_reads [simp, intro]: "reads_only (require_session S cookie a b)"
  unfolding require_session_def by (auto intro!: reads_only_bind)

lemma require_manager_reads [simp, intro]: "reads_only (require_manager E S cookie g)"
  unfolding require_manager_def by (auto intro!: reads_only_bind)

lemma require_manager_Inr:
  assumes "require_manager E S cookie g w = (Inr caller, w')"
  shows "is_live_manager E S w cookie g caller"
  using assms check_manager_Inr
  by (fastforce simp: require_manager_def require_session_def act_Inr ok_or_Inr_iff is_live_manager_def)

lemma require_role_config_access_reads [simp, intro]: "reads_only (require_role_config_access E S rq cookie g r)"
  unfolding require_role_config_access_def by (auto intro!: reads_only_bind split: option.split)

lemma require_guild_view_access_reads [simp, intro]: "reads_only (require_guild_view_access E S rq cookie g)"
  unfolding require_guild_view_access_def by (auto intro!: reads_only_bind split: option.split)

end
