(* ===== verification/Submit.thy ===== *)
theory Submit
  imports Site
begin

text \<open>
  \<open>routes/form_render.rs\<close>, the submission: \<open>post_submit\<close> from the request to the reply, with its
  transaction. A submission runs as one step at one instant here, its locks as statements that may
  fail; the interleavings of several, and the two clocks that waiting for a lock sets apart, are the
  subject of \<open>Interleave\<close>.
\<close>

subsection \<open>The checks before the schema\<close>

text \<open>\<open>num_days\<close> truncates toward zero; every 64-bit snowflake is within chrono's range.\<close>

definition whole_days :: "int \<Rightarrow> int" where
  "whole_days d = sgn d * (\<bar>d\<bar> div (86400 * nanos_per_sec))"

definition discord_account_age_days :: "int \<Rightarrow> str \<Rightarrow> int option" where
  "discord_account_age_days now discord_id =
     (case parse_u64 discord_id of
        None \<Rightarrow> None
      | Some snowflake \<Rightarrow>
          (let ms = drop_bit 22 snowflake + 1420070400000; secs = ms div 1000
           in Some (whole_days (now - int secs * nanos_per_sec))))"

definition too_young :: "int \<Rightarrow> form_row \<Rightarrow> str \<Rightarrow> bool" where
  "too_young now f discord_id \<longleftrightarrow> 0 < fm_min_account_age_days f
     \<and> unwrap_or (discord_account_age_days now discord_id) 0 < fm_min_account_age_days f"

definition not_below :: str where "not_below = [CHR 0xE2, CHR 0x89, CHR 0xA5]"

definition check_open :: "int \<Rightarrow> form_row \<Rightarrow> str \<Rightarrow> int \<Rightarrow> str \<Rightarrow> unit app_result" where
  "check_open now f slug version discord_id =
     (if fm_archived f then Inl (EFormNotFound slug)
      else if fm_version f \<noteq> version then Inl EStaleVersion
      else if (case fm_open_at f of Some t \<Rightarrow> t > now | None \<Rightarrow> False)
        \<or> (case fm_close_at f of Some t \<Rightarrow> t < now | None \<Rightarrow> False) then Inl EFormClosed
      else if too_young now f discord_id
      then Inl (EForbidden (''Account must be '' @ not_below @ show_int (fm_min_account_age_days f) @ '' days old.''))
      else Inr ())"

definition check_member :: "env \<Rightarrow> site \<Rightarrow> form_row \<Rightarrow> str \<Rightarrow> unit act" where
  "check_member E S f discord_id =
     (if fm_require_verified f then
        act_bind (fetch_user_guild_ids E (sc_gateway (st_config S)) (sc_internal_key (st_config S)) discord_id)
          (\<lambda>guild_ids. act_require (fm_guild_id f \<in> set guild_ids)
             (EForbidden ''You must be a member of the server first.''))
      else act_ok ())"

subsection \<open>Grading\<close>

record grading =
  gr_answers :: verified_answers
  gr_score :: "int option"
  gr_passed :: "bool option"

definition stored_passed :: "form_row \<Rightarrow> int option \<Rightarrow> bool option" where
  "stored_passed f total_score = (case (fm_is_quiz f, total_score, fm_passing_score f) of
       (True, Some s, Some t) \<Rightarrow> Some (s \<ge> t)
     | _ \<Rightarrow> None)"

definition grade :: "env \<Rightarrow> site \<Rightarrow> form_row \<Rightarrow> json \<Rightarrow> grading app_result" where
  "grade E S f answers =
     try_bind (ok_or (form_schema_from_json (fm_schema f))
         (EInternal (''form schema invalid: '' @ st_schema_error S (fm_schema f)))) (\<lambda>schema.
     case validate (e_crates E) schema answers of
       Inl errs \<Rightarrow> Inl (EValidationFailed errs)
     | Inr verified \<Rightarrow>
         (let total = (if fm_is_quiz f then Some (compute_quiz_score (e_crates E) schema verified) else None)
          in Inr \<lparr>gr_answers = verified, gr_score = total, gr_passed = stored_passed f total\<rparr>))"

subsection \<open>Storing\<close>

definition is_single :: "form_row \<Rightarrow> bool" where
  "is_single f \<longleftrightarrow> fm_single_submission f \<or> fm_is_quiz f"

definition is_editable :: "form_row \<Rightarrow> bool" where
  "is_editable f \<longleftrightarrow> fm_allow_edits f \<and> \<not> fm_is_quiz f"

definition is_retry_governed :: "bool \<Rightarrow> bool \<Rightarrow> bool \<Rightarrow> bool" where
  "is_retry_governed single_submission allow_edits is_quiz =
     (let single = single_submission \<or> is_quiz; editable = allow_edits \<and> \<not> is_quiz in single \<and> \<not> editable)"

definition new_response ::
  "str \<Rightarrow> int \<Rightarrow> form_row \<Rightarrow> str \<Rightarrow> grading \<Rightarrow> int option \<Rightarrow> bool option \<Rightarrow> int \<Rightarrow> response_row" where
  "new_response rid now f discord_id g score passed count =
     \<lparr>fr_id = rid, fr_form_id = fm_id f, fr_guild_id = fm_guild_id f, fr_discord_id = discord_id,
      fr_answers = JObj (gr_answers g), fr_total_score = score, fr_submitted_at = now, fr_last_edited_at = now,
      fr_schema_version = fm_version f, fr_attempt_count = count, fr_passed = passed\<rparr>"

definition insert_response :: "env \<Rightarrow> site \<Rightarrow> (str \<Rightarrow> response_row) \<Rightarrow> str act" where
  "insert_response E S row w =
     db_stmt E (\<lambda>d. let rid = st_new_uuid S (w_tick w) in
       Inr (rid, d\<lparr>db_responses := db_responses d @ [row rid]\<rparr>)) w"

definition update_response :: "env \<Rightarrow> str \<Rightarrow> (response_row \<Rightarrow> response_row) \<Rightarrow> str act" where
  "update_response E rid f =
     act_bind (db_exec E (\<lambda>d. d\<lparr>db_responses := map (\<lambda>r. if fr_id r = rid then f r else r) (db_responses d)\<rparr>))
       (\<lambda>_. act_ok rid)"

text \<open>The retained row of an accepted further attempt.\<close>

definition apply_accepted :: "int \<Rightarrow> form_row \<Rightarrow> grading \<Rightarrow> accepted_attempt \<Rightarrow> response_row \<Rightarrow> response_row" where
  "apply_accepted now f g a r =
     (if aa_overwrite_answers a
      then r\<lparr>fr_answers := JObj (gr_answers g), fr_total_score := aa_total_score a, fr_passed := aa_passed a,
             fr_attempt_count := aa_attempt_count a, fr_schema_version := fm_version f, fr_last_edited_at := now\<rparr>
      else r\<lparr>fr_total_score := aa_total_score a, fr_passed := aa_passed a,
             fr_attempt_count := aa_attempt_count a, fr_last_edited_at := now\<rparr>)"

fun deny_error :: "deny_reason \<Rightarrow> app_error" where
  "deny_error DenyAlreadyPassed = EAlreadyPassed"
| "deny_error (DenyAttemptsExhausted mx) = (if mx \<le> 1 then EDuplicateSubmission else EAttemptsExhausted mx)"
| "deny_error (DenyCooldown secs _) = ERetryCooldown secs"

record stored =
  so_id :: str
  so_attempts_left :: "int option"
  so_next_attempt_at :: "int option"

definition store_fresh :: "env \<Rightarrow> site \<Rightarrow> form_row \<Rightarrow> str \<Rightarrow> grading \<Rightarrow> int \<Rightarrow> stored act" where
  "store_fresh E S f discord_id g now =
     act_bind (insert_response E S (\<lambda>rid. new_response rid now f discord_id g (gr_score g) (gr_passed g) 1))
       (\<lambda>rid. act_ok \<lparr>so_id = rid, so_attempts_left = None, so_next_attempt_at = None\<rparr>)"

definition store_edit :: "env \<Rightarrow> site \<Rightarrow> form_row \<Rightarrow> str \<Rightarrow> grading \<Rightarrow> int \<Rightarrow> stored act" where
  "store_edit E S f discord_id g now =
     act_bind (db_query E (canonical_attempt (fm_id f) discord_id)) (\<lambda>existing.
     case existing of
       None \<Rightarrow> store_fresh E S f discord_id g now
     | Some r \<Rightarrow>
         act_bind (update_response E (fr_id r) (\<lambda>r. r\<lparr>fr_answers := JObj (gr_answers g), fr_total_score := gr_score g,
             fr_passed := gr_passed g, fr_schema_version := fm_version f, fr_last_edited_at := now\<rparr>))
           (\<lambda>rid. act_ok \<lparr>so_id = rid, so_attempts_left = None, so_next_attempt_at = None\<rparr>))"

definition store_attempt :: "env \<Rightarrow> site \<Rightarrow> form_row \<Rightarrow> str \<Rightarrow> grading \<Rightarrow> int \<Rightarrow> stored act" where
  "store_attempt E S f discord_id g now =
     (let c = retry_config_from_form f in
      act_bind (db_query E (canonical_attempt (fm_id f) discord_id)) (\<lambda>existing.
      case decide now c (map_option existing_of existing) \<lparr>ns_total_score = gr_score g, ns_passed = gr_passed g\<rparr> of
        Inl deny \<Rightarrow> act_fail (deny_error deny)
      | Inr a \<Rightarrow>
          act_bind (case existing of
              Some r \<Rightarrow> update_response E (fr_id r) (apply_accepted now f g a)
            | None \<Rightarrow> insert_response E S (\<lambda>rid.
                new_response rid now f discord_id g (aa_total_score a) (aa_passed a) (aa_attempt_count a)))
          (\<lambda>rid. act_ok \<lparr>so_id = rid,
             so_attempts_left = (if rc_max_attempts c > 0
               then Some (max (rc_max_attempts c - aa_attempt_count a) 0) else None),
             so_next_attempt_at = (if rc_cooldown_seconds c > 0
               then Some (now + rc_cooldown_seconds c * nanos_per_sec) else None)\<rparr>)))"

definition store_response :: "env \<Rightarrow> site \<Rightarrow> form_row \<Rightarrow> str \<Rightarrow> grading \<Rightarrow> int \<Rightarrow> stored act" where
  "store_response E S f discord_id g now =
     (if \<not> is_single f then store_fresh E S f discord_id g now
      else act_bind (db_query E (\<lambda>_. ())) (\<lambda>_.  \<comment> \<open>the advisory lock\<close>
        if is_editable f then store_edit E S f discord_id g now else store_attempt E S f discord_id g now))"

subsection \<open>The handler\<close>

definition enqueue_follow_up :: "env \<Rightarrow> site \<Rightarrow> form_row \<Rightarrow> str \<Rightarrow> str \<Rightarrow> str \<Rightarrow> grading \<Rightarrow> stored \<Rightarrow> int \<Rightarrow> unit act" where
  "enqueue_follow_up E S f slug discord_id display_name g st now =
     act_bind (enqueue_player_sync E (Updated discord_id)) (\<lambda>_.
     case fm_webhook_url f of
       Some url \<Rightarrow> if str_trim url \<noteq> [] then
           enqueue_webhook E url (build_payload (st_show_time S) now (fm_title f) slug display_name discord_id
             (so_id st) (gr_score g) (st_base_url S))
         else act_ok ()
     | None \<Rightarrow> act_ok ())"

definition json_opt :: "('a \<Rightarrow> json) \<Rightarrow> 'a option \<Rightarrow> json" where
  "json_opt f x = (case x of Some v \<Rightarrow> f v | None \<Rightarrow> JNull)"

definition submit_reply :: "site \<Rightarrow> form_row \<Rightarrow> grading \<Rightarrow> stored \<Rightarrow> json" where
  "submit_reply S f g st =
     (let retries = is_single f \<and> \<not> is_editable f \<and> retries_enabled (retry_config_from_form f);
          left = json_opt json_of_i64 (so_attempts_left st);
          nxt = json_opt (\<lambda>t. JStr (st_show_time S t)) (so_next_attempt_at st);
          passed = (case (gr_score g, fm_passing_score f) of
              (Some s, Some t) \<Rightarrow> s \<ge> t | (Some _, None) \<Rightarrow> True | _ \<Rightarrow> False)
      in if fm_is_quiz f then
           JObj [(''attempts_left'', left), (''message'', JStr (fm_success_message f)), (''next_attempt_at'', nxt),
             (''passed'', JBool passed), (''retries_enabled'', JBool retries), (''success'', JBool True)]
         else
           JObj [(''attempts_left'', left), (''message'', JStr (fm_success_message f)), (''next_attempt_at'', nxt),
             (''response_id'', JStr (so_id st)), (''retries_enabled'', JBool retries), (''success'', JBool True)])"

definition submit_in_tx :: "env \<Rightarrow> site \<Rightarrow> str \<Rightarrow> str \<Rightarrow> str \<Rightarrow> json \<Rightarrow> int \<Rightarrow> json act" where
  "submit_in_tx E S discord_id display_name slug answers version =
     act_bind (db_query E (find_form_by_slug slug)) (\<lambda>row.
     act_bind (act_result (ok_or row (EFormNotFound slug))) (\<lambda>f.
     act_bind act_now (\<lambda>now.
     act_bind (act_result (check_open now f slug version discord_id)) (\<lambda>_.
     act_bind (check_member E S f discord_id) (\<lambda>_.
     act_bind (act_result (grade E S f answers)) (\<lambda>g.
     act_bind (store_response E S f discord_id g now) (\<lambda>st.
     act_bind (enqueue_follow_up E S f slug discord_id display_name g st now) (\<lambda>_.
     act_ok (submit_reply S f g st)))))))))"

definition post_submit :: "env \<Rightarrow> site \<Rightarrow> request \<Rightarrow> str option \<Rightarrow> str \<Rightarrow> json \<Rightarrow> int \<Rightarrow> json act" where
  "post_submit E S rq cookie slug answers version =
     (if header_str rq ''x-rl-preview'' = Some ''1''
      then act_fail (EForbidden ''Preview mode does not accept submissions.'')
      else act_bind (act_result (verify_origin rq (st_origins S))) (\<lambda>_.
        act_bind (act_result (ok_or cookie (EUnauthorizedWith ''Sign in with Discord to submit.''))) (\<lambda>c.
        act_bind act_now (\<lambda>now.
        act_bind (act_result (ok_or (session_of S now c)
            (EUnauthorizedWith ''Your session expired. Sign in again.''))) (\<lambda>(discord_id, display_name).
        db_transaction E (submit_in_tx E S discord_id display_name slug answers version))))))"

subsection \<open>What a stored submission does to the rows\<close>

text \<open>One row of the member is added under a fresh id, or one is replaced in place.\<close>

definition same_keys :: "(response_row \<Rightarrow> response_row) \<Rightarrow> bool" where
  "same_keys h \<longleftrightarrow> (\<forall>r. fr_id (h r) = fr_id r \<and> fr_form_id (h r) = fr_form_id r \<and> fr_discord_id (h r) = fr_discord_id r)"

definition replaced :: "str \<Rightarrow> (response_row \<Rightarrow> response_row) \<Rightarrow> response_row list \<Rightarrow> response_row list" where
  "replaced rid h rs = map (\<lambda>r. if fr_id r = rid then h r else r) rs"

definition rows_step :: "site \<Rightarrow> str \<Rightarrow> str \<Rightarrow> world \<Rightarrow> world \<Rightarrow> bool" where
  "rows_step S form_id u w w' \<longleftrightarrow> w_tick w \<le> w_tick w' \<and>
     ((\<exists>t row. w_tick w \<le> t \<and> t < w_tick w' \<and> fr_id row = st_new_uuid S t \<and> fr_form_id row = form_id
         \<and> fr_discord_id row = u \<and> w_db w' = (w_db w)\<lparr>db_responses := db_responses (w_db w) @ [row]\<rparr>)
      \<or> (\<exists>r h. r \<in> set (user_responses form_id u (w_db w)) \<and> same_keys h
         \<and> w_db w' = (w_db w)\<lparr>db_responses := replaced (fr_id r) h (db_responses (w_db w))\<rparr>))"

lemma insert_response_Inr:
  "insert_response E S row w = (Inr rid, w') \<longleftrightarrow> e_db_fault E (w_tick w) = None \<and> rid = st_new_uuid S (w_tick w)
     \<and> w' = w\<lparr>w_tick := w_tick w + 1, w_db := (w_db w)\<lparr>db_responses := db_responses (w_db w) @ [row rid]\<rparr>\<rparr>"
  by (auto simp: insert_response_def stmt_done Let_def)

lemma update_response_Inr:
  "update_response E i h w = (Inr rid, w') \<longleftrightarrow> e_db_fault E (w_tick w) = None \<and> rid = i
     \<and> w' = w\<lparr>w_tick := w_tick w + 1, w_db := (w_db w)\<lparr>db_responses := replaced i h (db_responses (w_db w))\<rparr>\<rparr>"
  by (auto simp: update_response_def act_Inr replaced_def)

lemma newest_in: "newest rs = Some r \<Longrightarrow> r \<in> set rs"
  by (induction rs arbitrary: r) (auto split: option.splits if_splits)

lemma newest_None: "newest rs = None \<longleftrightarrow> rs = []"
  by (cases rs) (auto split: option.split)

lemma canonical_in: "canonical_attempt i u d = Some r \<Longrightarrow> r \<in> set (user_responses i u d)"
  unfolding canonical_attempt_def by (rule newest_in)

lemma same_keys_simps [simp]:
  "same_keys (apply_accepted now f g a)"
  "same_keys (\<lambda>r. r\<lparr>fr_answers := an, fr_total_score := sc, fr_passed := p, fr_schema_version := v, fr_last_edited_at := t\<rparr>)"
  by (auto simp: same_keys_def apply_accepted_def)

lemma new_response_keys [simp]:
  "fr_id (new_response rid now f u g sc p c) = rid" "fr_form_id (new_response rid now f u g sc p c) = fm_id f"
  "fr_discord_id (new_response rid now f u g sc p c) = u"
  by (simp_all add: new_response_def)

lemma rows_step_insert:
  assumes "insert_response E S row w1 = (Inr rid, w')" and "w_db w1 = w_db w" and "w_tick w \<le> w_tick w1"
    and "fr_id (row rid) = rid" "fr_form_id (row rid) = i" "fr_discord_id (row rid) = u"
  shows "rows_step S i u w w'"
  unfolding rows_step_def using assms
  by (auto simp: insert_response_Inr intro!: exI [of _ "w_tick w1"] exI [of _ "row rid"])

lemma rows_step_update:
  assumes "update_response E (fr_id r) h w1 = (Inr rid, w')" and "w_db w1 = w_db w" and "w_tick w \<le> w_tick w1"
    and "r \<in> set (user_responses i u (w_db w))" and "same_keys h"
  shows "rows_step S i u w w'"
  unfolding rows_step_def using assms by (auto simp: update_response_Inr)

lemma store_fresh_rows:
  assumes "store_fresh E S f u g now w1 = (Inr st, w')" and "w_db w1 = w_db w" and "w_tick w \<le> w_tick w1"
  shows "rows_step S (fm_id f) u w w'"
  using assms by (auto simp: store_fresh_def act_Inr intro!: rows_step_insert [of E S _ w1])

lemma store_edit_rows:
  assumes "store_edit E S f u g now w1 = (Inr st, w')" and "w_db w1 = w_db w" and "w_tick w \<le> w_tick w1"
  shows "rows_step S (fm_id f) u w w'"
proof -
  let ?w2 = "w1\<lparr>w_tick := Suc (w_tick w1)\<rparr>"
  have run: "(case canonical_attempt (fm_id f) u (w_db w) of None \<Rightarrow> store_fresh E S f u g now
      | Some r \<Rightarrow> act_bind (update_response E (fr_id r) (\<lambda>r. r\<lparr>fr_answers := JObj (gr_answers g), fr_total_score := gr_score g,
             fr_passed := gr_passed g, fr_schema_version := fm_version f, fr_last_edited_at := now\<rparr>))
           (\<lambda>rid. act_ok \<lparr>so_id = rid, so_attempts_left = None, so_next_attempt_at = None\<rparr>)) ?w2 = (Inr st, w')"
    using assms by (auto simp: store_edit_def act_Inr)
  show ?thesis
  proof (cases "canonical_attempt (fm_id f) u (w_db w)")
    case None
    then show ?thesis using run assms(2,3) by (auto intro: store_fresh_rows)
  next
    case (Some r)
    then show ?thesis using run assms(2,3) canonical_in [OF Some]
      by (auto simp: act_Inr intro!: rows_step_update [of E _ _ ?w2])
  qed
qed

text \<open>An accepted attempt, its decision and the row it leaves.\<close>

definition attempt_of :: "grading \<Rightarrow> new_submission" where
  "attempt_of g = \<lparr>ns_total_score = gr_score g, ns_passed = gr_passed g\<rparr>"

lemma store_attempt_Inr:
  assumes "store_attempt E S f u g now w1 = (Inr st, w')"
  shows "\<exists>a rid.
    decide now (retry_config_from_form f) (map_option existing_of (canonical_attempt (fm_id f) u (w_db w1)))
       (attempt_of g) = Inr a \<and>
    (case canonical_attempt (fm_id f) u (w_db w1) of
         Some r \<Rightarrow> update_response E (fr_id r) (apply_accepted now f g a)
       | None \<Rightarrow> insert_response E S (\<lambda>rid.
           new_response rid now f u g (aa_total_score a) (aa_passed a) (aa_attempt_count a)))
      (w1\<lparr>w_tick := Suc (w_tick w1)\<rparr>) = (Inr rid, w')"
  using assms by (auto simp: store_attempt_def Let_def act_Inr attempt_of_def split: sum.splits)

lemma store_attempt_rows:
  assumes "store_attempt E S f u g now w1 = (Inr st, w')" and "w_db w1 = w_db w" and "w_tick w \<le> w_tick w1"
  shows "rows_step S (fm_id f) u w w'"
proof -
  let ?w2 = "w1\<lparr>w_tick := Suc (w_tick w1)\<rparr>"
  obtain a rid where
    run: "(case canonical_attempt (fm_id f) u (w_db w1) of
         Some r \<Rightarrow> update_response E (fr_id r) (apply_accepted now f g a)
       | None \<Rightarrow> insert_response E S (\<lambda>rid.
           new_response rid now f u g (aa_total_score a) (aa_passed a) (aa_attempt_count a))) ?w2 = (Inr rid, w')"
    using store_attempt_Inr [OF assms(1)] by blast
  show ?thesis
  proof (cases "canonical_attempt (fm_id f) u (w_db w1)")
    case None
    then show ?thesis using run assms by (auto intro!: rows_step_insert [of E S _ ?w2])
  next
    case (Some r)
    then show ?thesis using run assms canonical_in [OF Some]
      by (auto intro!: rows_step_update [of E _ _ ?w2])
  qed
qed

lemma store_response_rows:
  assumes "store_response E S f u g now w = (Inr st, w')"
  shows "rows_step S (fm_id f) u w w'"
  using assms store_fresh_rows [of E S f u g now w] store_edit_rows [of E S f u g now _ st w' w]
    store_attempt_rows [of E S f u g now _ st w' w]
  by (auto simp: store_response_def act_Inr split: if_splits)

subsection \<open>A whole submission\<close>

lemma on_jobs_Inr: "on_jobs E f w = (Inr x, w') \<longleftrightarrow> e_db_fault E (w_tick w) = None
    \<and> w' = w\<lparr>w_tick := w_tick w + 1, w_db := (w_db w)\<lparr>db_jobs := f (w_now w) (db_jobs (w_db w))\<rparr>\<rparr>"
  by (auto simp: on_jobs_def exec_done)

definition webhook_job :: "site \<Rightarrow> form_row \<Rightarrow> str \<Rightarrow> str \<Rightarrow> str \<Rightarrow> grading \<Rightarrow> stored \<Rightarrow> int \<Rightarrow> str \<Rightarrow> json" where
  "webhook_job S f slug u name g st now url = JObj [(''body'', build_payload (st_show_time S) now (fm_title f) slug name u
     (so_id st) (gr_score g) (st_base_url S)), (''url'', JStr url)]"

definition follow_up_jobs ::
  "site \<Rightarrow> form_row \<Rightarrow> str \<Rightarrow> str \<Rightarrow> str \<Rightarrow> grading \<Rightarrow> stored \<Rightarrow> int \<Rightarrow> job_table \<Rightarrow> job_table" where
  "follow_up_jobs S f slug u name g st now t =
     (let t1 = insert_job now PlayerSync (player_sync_to_json (Updated u)) 0 t in
      case fm_webhook_url f of
        Some url \<Rightarrow> if str_trim url \<noteq> [] then insert_job now Webhook (webhook_job S f slug u name g st now url) 0 t1 else t1
      | None \<Rightarrow> t1)"

lemma enqueue_follow_up_Inr:
  assumes "enqueue_follow_up E S f slug u name g st (w_now w) w = (Inr x, w')"
  shows "w_db w' = (w_db w)\<lparr>db_jobs := follow_up_jobs S f slug u name g st (w_now w) (db_jobs (w_db w))\<rparr>
    \<and> w_now w' = w_now w \<and> w_tick w \<le> w_tick w'"
  using assms
  by (auto simp: enqueue_follow_up_def follow_up_jobs_def webhook_job_def enqueue_player_sync_def enqueue_webhook_def
      act_Inr on_jobs_Inr split: option.splits if_splits)

lemma check_member_reads [simp, intro]: "reads_only (check_member E S f u)"
  by (auto simp: check_member_def intro!: reads_only_bind)

lemma store_response_now: "store_response E S f u g now w = (Inr st, w') \<Longrightarrow> w_now w' = w_now w"
  by (auto simp: store_response_def store_fresh_def store_edit_def store_attempt_def Let_def act_Inr
      insert_response_Inr update_response_Inr split: if_splits option.splits sum.splits)

lemma submit_in_tx_Inr:
  assumes "submit_in_tx E S u name slug answers version w = (Inr reply, w')"
  shows "\<exists>f g st wa wb. find_form_by_slug slug (w_db w) = Some f \<and> check_open (w_now w) f slug version u = Inr ()
    \<and> grade E S f answers = Inr g \<and> w_db wa = w_db w \<and> w_now wa = w_now w \<and> w_tick w \<le> w_tick wa
    \<and> store_response E S f u g (w_now w) wa = (Inr st, wb)
    \<and> w_db w' = (w_db wb)\<lparr>db_jobs := follow_up_jobs S f slug u name g st (w_now w) (db_jobs (w_db wb))\<rparr>
    \<and> w_tick wb \<le> w_tick w' \<and> reply = submit_reply S f g st"
proof -
  let ?w1 = "w\<lparr>w_tick := w_tick w + 1\<rparr>"
  obtain f g st wa wb where f: "find_form_by_slug slug (w_db w) = Some f" "check_open (w_now w) f slug version u = Inr ()"
      "grade E S f answers = Inr g" and m: "check_member E S f u ?w1 = (Inr (), wa)"
    and s: "store_response E S f u g (w_now w) wa = (Inr st, wb)"
    and e: "enqueue_follow_up E S f slug u name g st (w_now w) wb = (Inr (), w')" and r: "reply = submit_reply S f g st"
    using assms by (auto simp: submit_in_tx_def act_Inr ok_or_Inr_iff)
  have wa: "w_db wa = w_db w" "w_now wa = w_now w" "w_tick w \<le> w_tick wa"
    using reads_onlyD [OF check_member_reads m] by auto
  then have "w_now wb = w_now w" using store_response_now [OF s] by simp
  then show ?thesis using f wa s r enqueue_follow_up_Inr [of E S f slug u name g st wb "()" w'] e by metis
qed

lemma transaction_done:
  assumes "db_transaction E m w = (Inr x, w')"
  shows "\<exists>w2. m (w\<lparr>w_tick := w_tick w + 1\<rparr>) = (Inr x, w2) \<and> w' = w2\<lparr>w_tick := w_tick w2 + 1\<rparr>"
  using assms
  by (auto simp: db_transaction_def act_Inr split: prod.splits sum.splits)

text \<open>What an accepted submission found and did: the sender, the form, the graded answers, what was
  stored between the worlds \<open>wa\<close> and \<open>wb\<close>, the follow-up jobs and the reply.\<close>

definition submitted :: "env \<Rightarrow> site \<Rightarrow> request \<Rightarrow> str option \<Rightarrow> str \<Rightarrow> json \<Rightarrow> int \<Rightarrow> world \<Rightarrow> json \<Rightarrow> world
    \<Rightarrow> str \<Rightarrow> str \<Rightarrow> str \<Rightarrow> form_row \<Rightarrow> grading \<Rightarrow> stored \<Rightarrow> world \<Rightarrow> world \<Rightarrow> bool" where
  "submitted E S rq cookie slug answers version w reply w' c u name f g st wa wb \<longleftrightarrow>
     cookie = Some c \<and> session_of S (w_now w) c = Some (u, name)
     \<and> verify_origin rq (st_origins S) = Inr ()
     \<and> find_form_by_slug slug (w_db w) = Some f \<and> check_open (w_now w) f slug version u = Inr ()
     \<and> grade E S f answers = Inr g \<and> w_db wa = w_db w \<and> w_now wa = w_now w \<and> w_tick w \<le> w_tick wa
     \<and> store_response E S f u g (w_now w) wa = (Inr st, wb)
     \<and> w_db w' = (w_db wb)\<lparr>db_jobs := follow_up_jobs S f slug u name g st (w_now w) (db_jobs (w_db wb))\<rparr>
     \<and> w_tick wb \<le> w_tick w' \<and> reply = submit_reply S f g st"

lemma post_submit_Inr:
  assumes "post_submit E S rq cookie slug answers version w = (Inr reply, w')"
  shows "\<exists>c u name f g st wa wb. submitted E S rq cookie slug answers version w reply w' c u name f g st wa wb"
proof -
  obtain c u name w2 where c: "cookie = Some c" "session_of S (w_now w) c = Some (u, name)"
      "verify_origin rq (st_origins S) = Inr ()"
    and run: "submit_in_tx E S u name slug answers version (w\<lparr>w_tick := w_tick w + 1\<rparr>) = (Inr reply, w2)"
    and w': "w' = w2\<lparr>w_tick := w_tick w2 + 1\<rparr>"
    using assms by (auto simp: post_submit_def act_Inr ok_or_Inr_iff dest!: transaction_done split: if_splits)
  obtain f g st wa wb where f: "find_form_by_slug slug (w_db w) = Some f" "check_open (w_now w) f slug version u = Inr ()"
      "grade E S f answers = Inr g" "w_db wa = w_db w" "w_now wa = w_now w"
      "store_response E S f u g (w_now w) wa = (Inr st, wb)"
      "w_db w2 = (w_db wb)\<lparr>db_jobs := follow_up_jobs S f slug u name g st (w_now w) (db_jobs (w_db wb))\<rparr>"
      "reply = submit_reply S f g st" and t: "w_tick w + 1 \<le> w_tick wa" "w_tick wb \<le> w_tick w2"
    using submit_in_tx_Inr [OF run] by auto
  have "w_tick w \<le> w_tick wa" "w_tick wb \<le> w_tick w'" "w_db w' = w_db w2" using t w' by simp_all
  with f c have "submitted E S rq cookie slug answers version w reply w' c u name f g st wa wb"
    unfolding submitted_def by simp
  then show ?thesis by blast
qed

lemma post_submit_error_keeps_db:
  assumes "post_submit E S rq cookie slug answers version w = (Inl e, w')"
  shows "w_db w' = w_db w"
  using assms
  by (auto simp: post_submit_def act_bind_def act_result_def act_now_def split: if_splits sum.splits prod.splits
      dest: transaction_error_keeps_db)


subsection \<open>Invariants of the responses\<close>

text \<open>Every id of a response was drawn at an earlier statement, and none twice.\<close>

definition ids_ok :: "site \<Rightarrow> world \<Rightarrow> bool" where
  "ids_ok S w \<longleftrightarrow> distinct (map fr_id (db_responses (w_db w)))
     \<and> fr_id ` set (db_responses (w_db w)) \<subseteq> st_new_uuid S ` {..<w_tick w}"

definition one_row :: "str \<Rightarrow> str \<Rightarrow> db \<Rightarrow> bool" where
  "one_row form_id u d \<longleftrightarrow> length (user_responses form_id u d) \<le> 1"

lemma same_keysD:
  "same_keys h \<Longrightarrow> fr_id (h r) = fr_id r" "same_keys h \<Longrightarrow> fr_form_id (h r) = fr_form_id r"
  "same_keys h \<Longrightarrow> fr_discord_id (h r) = fr_discord_id r"
  by (simp_all add: same_keys_def)

lemma replaced_ids [simp]: "same_keys h \<Longrightarrow> map fr_id (replaced i h rs) = map fr_id rs"
  by (auto simp: replaced_def same_keysD)

lemma user_responses_replaced:
  assumes "same_keys h"
  shows "user_responses i u (d\<lparr>db_responses := replaced k h (db_responses d)\<rparr>) = replaced k h (user_responses i u d)"
proof -
  have "(\<lambda>r. fr_form_id r = i \<and> fr_discord_id r = u) \<circ> (\<lambda>r. if fr_id r = k then h r else r)
      = (\<lambda>r. fr_form_id r = i \<and> fr_discord_id r = u)"
    using same_keysD [OF assms] by (auto simp: fun_eq_iff)
  then show ?thesis by (simp add: user_responses_def replaced_def filter_map)
qed

lemma user_responses_append:
  "user_responses i u (d\<lparr>db_responses := db_responses d @ [r]\<rparr>)
     = user_responses i u d @ (if fr_form_id r = i \<and> fr_discord_id r = u then [r] else [])"
  by (simp add: user_responses_def)

lemma user_responses_jobs [simp]: "user_responses i u (d\<lparr>db_jobs := t\<rparr>) = user_responses i u d"
  by (simp add: user_responses_def)

lemma rows_step_cases [consumes 1, case_names added kept]:
  assumes "rows_step S i u w w'"
  obtains (added) t row where "w_tick w \<le> t" "t < w_tick w'" "fr_id row = st_new_uuid S t" "fr_form_id row = i"
      "fr_discord_id row = u" "w_db w' = (w_db w)\<lparr>db_responses := db_responses (w_db w) @ [row]\<rparr>"
    | (kept) r h where "r \<in> set (user_responses i u (w_db w))" "same_keys h"
      "w_db w' = (w_db w)\<lparr>db_responses := replaced (fr_id r) h (db_responses (w_db w))\<rparr>"
  using assms unfolding rows_step_def by metis

lemma rows_step_ids_ok:
  assumes "inj (st_new_uuid S)" and "rows_step S i u w w'" and "ids_ok S w"
  shows "ids_ok S w'"
proof -
  have ids: "distinct (map fr_id (db_responses (w_db w)))"
      "fr_id ` set (db_responses (w_db w)) \<subseteq> st_new_uuid S ` {..<w_tick w}" and le: "w_tick w \<le> w_tick w'"
    using assms(2,3) by (simp_all add: ids_ok_def rows_step_def)
  have sub: "st_new_uuid S ` {..<w_tick w} \<subseteq> st_new_uuid S ` {..<w_tick w'}" using le by auto
  from assms(2) show ?thesis
  proof (cases rule: rows_step_cases)
    case (added t row)
    have "st_new_uuid S t \<notin> st_new_uuid S ` {..<w_tick w}"
      using assms(1) added(1) by (auto simp: inj_eq)
    then show ?thesis using ids sub added by (auto simp: ids_ok_def)
  next
    case (kept r h)
    then have "map fr_id (db_responses (w_db w')) = map fr_id (db_responses (w_db w))" by simp
    then show ?thesis using ids sub unfolding ids_ok_def by (metis list.set_map order_trans)
  qed
qed

lemma rows_step_other:
  assumes "rows_step S i u w w'" and "i' \<noteq> i \<or> u' \<noteq> u" and "ids_ok S w"
  shows "user_responses i' u' (w_db w') = user_responses i' u' (w_db w)"
proof -
  from assms(1) show ?thesis
  proof (cases rule: rows_step_cases)
    case (added t row)
    then show ?thesis using assms(2) by (auto simp: user_responses_append)
  next
    case (kept r h)
    have inj: "inj_on fr_id (set (db_responses (w_db w)))" using assms(3) by (simp add: ids_ok_def distinct_map)
    have "fr_id x \<noteq> fr_id r" if x: "x \<in> set (user_responses i' u' (w_db w))" for x
    proof
      assume "fr_id x = fr_id r"
      with inj have "x = r" using x kept(1) by (auto simp: user_responses_def dest: inj_onD)
      then show False using x kept(1) assms(2) by (auto simp: user_responses_def)
    qed
    then have "replaced (fr_id r) h (user_responses i' u' (w_db w)) = user_responses i' u' (w_db w)"
      unfolding replaced_def by (auto intro: map_idI)
    then show ?thesis using kept by (simp add: user_responses_replaced)
  qed
qed

subsection \<open>Ticks\<close>

definition ticks_on :: "'a act \<Rightarrow> bool" where
  "ticks_on m \<longleftrightarrow> (\<forall>w. w_tick w \<le> w_tick (snd (m w)))"

lemma ticks_on_simps [simp, intro]:
  "ticks_on (act_ok x)" "ticks_on (act_fail e)" "ticks_on (act_require b e)" "ticks_on (act_result r)"
  "ticks_on act_now" "ticks_on (db_stmt E h)" "ticks_on (db_query E q)" "ticks_on (db_exec E k)"
  "ticks_on (insert_response E S row)" "ticks_on (on_jobs E j)" "ticks_on (check_member E S f u)"
  using check_member_reads [of E S f u] unfolding reads_only_def
  by (auto simp: ticks_on_def act_require_def act_result_def act_now_def db_stmt_def db_query_def db_exec_def
      insert_response_def on_jobs_def Let_def split: option.split sum.split)

lemma ticks_on_bind [intro]:
  assumes "ticks_on m" and "\<And>x. ticks_on (f x)"
  shows "ticks_on (act_bind m f)"
  using assms unfolding ticks_on_def act_bind_def
  by (auto split: prod.split sum.split) (metis snd_conv order_trans)+

lemma ticks_on_if [intro]: "ticks_on m \<Longrightarrow> ticks_on n \<Longrightarrow> ticks_on (if b then m else n)"
  by simp

lemma ticks_on_transaction [intro]:
  assumes "ticks_on m"
  shows "ticks_on (db_transaction E m)"
proof -
  have "ticks_on (act_bind (db_query E (\<lambda>_. ())) (\<lambda>_. act_bind m (\<lambda>x. act_bind (db_query E (\<lambda>_. ())) (\<lambda>_. act_ok x))))"
    (is "ticks_on ?m") by (intro ticks_on_bind ticks_on_simps assms)
  then have t: "w_tick w \<le> w_tick (snd (?m w))" for w by (simp add: ticks_on_def)
  have "w_tick w \<le> w_tick (snd (db_transaction E m w))" for w
    using t [of w] unfolding db_transaction_def by (auto split: prod.split sum.split)
  then show ?thesis by (simp add: ticks_on_def)
qed

lemma post_submit_ticks: "ticks_on (post_submit E S rq cookie slug answers version)"
proof -
  have "ticks_on (submit_in_tx E S u name slug answers version)" for u name
    unfolding submit_in_tx_def store_response_def store_fresh_def store_edit_def store_attempt_def
      enqueue_follow_up_def update_response_def enqueue_player_sync_def enqueue_webhook_def Let_def
    by (auto intro!: ticks_on_bind split: option.split sum.split)
  then show ?thesis
    unfolding post_submit_def by (auto intro!: ticks_on_bind)
qed

subsection \<open>Refinement of the retry gate\<close>

definition attempt_state :: "form_row \<Rightarrow> str \<Rightarrow> db \<Rightarrow> existing_attempt option" where
  "attempt_state f u d = map_option existing_of (canonical_attempt (fm_id f) u d)"

definition governed :: "form_row \<Rightarrow> bool" where
  "governed f \<longleftrightarrow> is_retry_governed (fm_single_submission f) (fm_allow_edits f) (fm_is_quiz f)"

lemma governed_iff: "governed f \<longleftrightarrow> is_single f \<and> \<not> is_editable f"
  by (simp add: governed_def is_retry_governed_def is_single_def is_editable_def)

lemma one_row_canonical:
  "one_row i u d \<Longrightarrow> user_responses i u d = (case canonical_attempt i u d of None \<Rightarrow> [] | Some r \<Rightarrow> [r])"
  by (cases "user_responses i u d") (auto simp: one_row_def canonical_attempt_def)

lemma existing_after [simp]:
  "existing_of (apply_accepted now f g a r) = row_after now a"
  "existing_of (new_response rid now f u g (aa_total_score a) (aa_passed a) (aa_attempt_count a)) = row_after now a"
  by (simp_all add: existing_of_def apply_accepted_def row_after_def new_response_def)

lemma store_response_refines:
  assumes "store_response E S f u g now w = (Inr st, w')" and "governed f" and "one_row (fm_id f) u (w_db w)"
  shows "\<exists>a. decide now (retry_config_from_form f) (attempt_state f u (w_db w)) (attempt_of g) = Inr a
    \<and> attempt_state f u (w_db w') = Some (row_after now a) \<and> one_row (fm_id f) u (w_db w')"
proof -
  let ?w1 = "w\<lparr>w_tick := w_tick w + 1\<rparr>"
  have "store_attempt E S f u g now ?w1 = (Inr st, w')"
    using assms by (simp add: store_response_def governed_iff act_Inr)
  then obtain a rid where a: "decide now (retry_config_from_form f) (attempt_state f u (w_db w)) (attempt_of g) = Inr a"
    and run: "(case canonical_attempt (fm_id f) u (w_db w) of
         Some r \<Rightarrow> update_response E (fr_id r) (apply_accepted now f g a)
       | None \<Rightarrow> insert_response E S (\<lambda>rid.
           new_response rid now f u g (aa_total_score a) (aa_passed a) (aa_attempt_count a)))
       (?w1\<lparr>w_tick := Suc (w_tick ?w1)\<rparr>) = (Inr rid, w')"
    using store_attempt_Inr [of E S f u g now ?w1 st w'] by (auto simp: attempt_state_def)
  note rows = one_row_canonical [OF assms(3)]
  have "\<exists>r. user_responses (fm_id f) u (w_db w') = [r] \<and> existing_of r = row_after now a"
  proof (cases "canonical_attempt (fm_id f) u (w_db w)")
    case None
    then show ?thesis using run rows by (auto simp: insert_response_Inr user_responses_append)
  next
    case (Some r)
    then show ?thesis using run rows by (auto simp: update_response_Inr user_responses_replaced) (simp add: replaced_def)
  qed
  then show ?thesis using a by (auto simp: attempt_state_def canonical_attempt_def one_row_def)
qed

subsection \<open>Sequences of submissions\<close>

record submission =
  sb_at :: int
  sb_request :: request
  sb_cookie :: "str option"
  sb_slug :: str
  sb_answers :: json
  sb_version :: int

definition submit_at :: "env \<Rightarrow> site \<Rightarrow> submission \<Rightarrow> json act" where
  "submit_at E S ev w = post_submit E S (sb_request ev) (sb_cookie ev) (sb_slug ev) (sb_answers ev) (sb_version ev)
     (w\<lparr>w_now := sb_at ev\<rparr>)"

text \<open>Who sends it, by the session cookie.\<close>

definition sender :: "site \<Rightarrow> submission \<Rightarrow> str option" where
  "sender S ev = (case sb_cookie ev of None \<Rightarrow> None | Some c \<Rightarrow> map_option fst (session_of S (sb_at ev) c))"

text \<open>The instants at which a member's submissions to a form were accepted.\<close>

fun accepted_from :: "env \<Rightarrow> site \<Rightarrow> str \<Rightarrow> str \<Rightarrow> submission list \<Rightarrow> world \<Rightarrow> int list" where
  "accepted_from E S slug u [] w = []"
| "accepted_from E S slug u (ev # evs) w =
     (case submit_at E S ev w of (r, w') \<Rightarrow>
        (if \<not> isl r \<and> sb_slug ev = slug \<and> sender S ev = Some u then [sb_at ev] else [])
        @ accepted_from E S slug u evs w')"

text \<open>The form, its single row for the member, and the ids, as they stand between submissions.\<close>

definition submit_inv :: "site \<Rightarrow> form_row \<Rightarrow> str \<Rightarrow> str \<Rightarrow> world \<Rightarrow> bool" where
  "submit_inv S f slug u w \<longleftrightarrow> find_form_by_slug slug (w_db w) = Some f \<and> distinct (map fm_id (db_forms (w_db w)))
     \<and> ids_ok S w \<and> one_row (fm_id f) u (w_db w)"

lemma find_form_Some: "find_form_by_slug slug d = Some f \<Longrightarrow> f \<in> set (db_forms d) \<and> fm_slug f = slug"
  by (auto simp: find_form_by_slug_def find_Some_iff in_set_conv_nth)

lemma ids_ok_later: "ids_ok S w \<Longrightarrow> db_responses (w_db w') = db_responses (w_db w) \<Longrightarrow> w_tick w \<le> w_tick w' \<Longrightarrow> ids_ok S w'"
  unfolding ids_ok_def by auto

lemma rows_step_forms: "rows_step S i u w w' \<Longrightarrow> db_forms (w_db w') = db_forms (w_db w)"
  by (auto elim!: rows_step_cases)

lemma attempt_state_cong: "user_responses (fm_id f) u d = user_responses (fm_id f) u d' \<Longrightarrow> attempt_state f u d = attempt_state f u d'"
  by (simp add: attempt_state_def canonical_attempt_def)

lemma attempt_state_world [simp]: "attempt_state f u (d\<lparr>db_jobs := t\<rparr>) = attempt_state f u d"
  by (rule attempt_state_cong) simp

lemma submit_step:
  assumes "inj (st_new_uuid S)" and inv: "submit_inv S f slug u w" and gov: "governed f"
    and run: "submit_at E S ev w = (r, w')"
  shows "submit_inv S f slug u w'
    \<and> (if \<not> isl r \<and> sb_slug ev = slug \<and> sender S ev = Some u
       then \<exists>n a. decide (sb_at ev) (retry_config_from_form f) (attempt_state f u (w_db w)) n = Inr a
         \<and> attempt_state f u (w_db w') = Some (row_after (sb_at ev) a)
       else attempt_state f u (w_db w') = attempt_state f u (w_db w))"
proof -
  let ?w = "w\<lparr>w_now := sb_at ev\<rparr>"
  note run = run [unfolded submit_at_def]
  have tick: "w_tick w \<le> w_tick w'"
    using post_submit_ticks [of E S "sb_request ev" "sb_cookie ev" "sb_slug ev" "sb_answers ev" "sb_version ev"] run
    unfolding ticks_on_def by (metis snd_conv world.select_convs(3) world.surjective world.update_convs(2))
  show ?thesis
  proof (cases r)
    case (Inl e)
    have "w_db w' = w_db w" using post_submit_error_keeps_db run Inl by fastforce
    then show ?thesis using inv Inl tick ids_ok_later [of S w w'] by (simp add: submit_inv_def)
  next
    case (Inr reply)
    obtain c v name f' g st wa wb where eff: "submitted E S (sb_request ev) (sb_cookie ev) (sb_slug ev)
        (sb_answers ev) (sb_version ev) ?w reply w' c v name f' g st wa wb"
      using post_submit_Inr [OF run [unfolded Inr]] by blast
    have c: "sb_cookie ev = Some c" "session_of S (sb_at ev) c = Some (v, name)"
      and f': "find_form_by_slug (sb_slug ev) (w_db w) = Some f'"
      and wa: "w_db wa = w_db w" "w_now wa = sb_at ev" "w_tick w \<le> w_tick wa"
      and st: "store_response E S f' v g (sb_at ev) wa = (Inr st, wb)"
      and db: "w_db w' = (w_db wb)\<lparr>db_jobs := follow_up_jobs S f' (sb_slug ev) v name g st (sb_at ev) (db_jobs (w_db wb))\<rparr>"
      and le: "w_tick wb \<le> w_tick w'"
      using eff unfolding submitted_def by simp_all
    have rows: "rows_step S (fm_id f') v wa wb" by (rule store_response_rows [OF st])
    have "ids_ok S wa" using inv wa by (auto simp: submit_inv_def intro: ids_ok_later)
    then have "ids_ok S wb" and ids: "ids_ok S wa" using rows_step_ids_ok [OF assms(1) rows] by simp_all
    then have ids': "ids_ok S w'" using db le by (auto intro: ids_ok_later)
    have forms: "db_forms (w_db w') = db_forms (w_db w)" using rows_step_forms [OF rows] wa db by simp
    have here: "f' = f" if "sb_slug ev = slug" using that f' inv by (simp add: submit_inv_def)
    have f: "f \<in> set (db_forms (w_db w))" "fm_slug f = slug"
      using inv find_form_Some unfolding submit_inv_def by blast+
    have f'2: "f' \<in> set (db_forms (w_db w))" "fm_slug f' = sb_slug ev" using f' find_form_Some by blast+
    have inj: "inj_on fm_id (set (db_forms (w_db w)))" using inv by (simp add: submit_inv_def distinct_map)
    have key: "fm_id f' = fm_id f \<longleftrightarrow> sb_slug ev = slug"
      using here f f'2 inj_onD [OF inj _ f'2(1) f(1)] by metis
    have snd: "sender S ev = Some v" using c by (simp add: sender_def)
    show ?thesis
    proof (cases "sb_slug ev = slug \<and> v = u")
      case True
      have "one_row (fm_id f) u (w_db wa)" using inv wa by (simp add: submit_inv_def)
      from store_response_refines [OF st [unfolded here [OF conjunct1 [OF True]] conjunct2 [OF True]] gov this]
      obtain a where a: "decide (sb_at ev) (retry_config_from_form f) (attempt_state f u (w_db w)) (attempt_of g) = Inr a"
          "attempt_state f u (w_db wb) = Some (row_after (sb_at ev) a)" "one_row (fm_id f) u (w_db wb)"
        using wa by auto
      have "submit_inv S f slug u w'" using inv ids' forms db a(3)
        by (simp add: submit_inv_def find_form_by_slug_def one_row_def)
      then show ?thesis using Inr snd True a db by auto
    next
      case False
      then have "user_responses (fm_id f) u (w_db wb) = user_responses (fm_id f) u (w_db wa)"
        using key by (intro rows_step_other [OF rows _ ids]) auto
      then have same: "user_responses (fm_id f) u (w_db w') = user_responses (fm_id f) u (w_db w)" using wa db by simp
      then have "submit_inv S f slug u w'" using inv ids' forms
        by (simp add: submit_inv_def find_form_by_slug_def one_row_def)
      then show ?thesis using False snd attempt_state_cong [OF same] by auto
    qed
  qed
qed

lemma submissions_refine:
  assumes "inj (st_new_uuid S)" and "governed f" and "submit_inv S f slug u w"
  shows "\<exists>gs. accepted_from E S slug u evs w
     = accepted_times decide (retry_config_from_form f) (attempt_state f u (w_db w)) gs"
  using assms(3)
proof (induction evs arbitrary: w)
  case Nil
  then show ?case by (intro exI [of _ "[]"]) simp
next
  case (Cons ev evs)
  obtain r w' where run: "submit_at E S ev w = (r, w')" by fastforce
  note step = submit_step [OF assms(1) Cons.prems assms(2) run]
  obtain gs where gs: "accepted_from E S slug u evs w'
      = accepted_times decide (retry_config_from_form f) (attempt_state f u (w_db w')) gs"
    using Cons.IH step by blast
  show ?case
  proof (cases "\<not> isl r \<and> sb_slug ev = slug \<and> sender S ev = Some u")
    case True
    then obtain n a where "decide (sb_at ev) (retry_config_from_form f) (attempt_state f u (w_db w)) n = Inr a"
        "attempt_state f u (w_db w') = Some (row_after (sb_at ev) a)" using step by auto
    then show ?thesis using run gs True by (intro exI [of _ "(sb_at ev, n) # gs"]) simp
  next
    case False
    then show ?thesis using run gs step by (intro exI [of _ gs]) auto
  qed
qed

subsection \<open>A server, a form and submissions, for examples\<close>

definition sample_site :: site where
  "sample_site = \<lparr>st_base_url = ''https://p'', st_secret = ''k'', st_origins = [''https://p''], st_dashboard = None,
     st_config = sample_sync_config, st_crypto = sample_crypto,
     st_net = \<lparr>n_url = (\<lambda>_. None), n_lookup = (\<lambda>_ _. LookupFailed), n_wire = (\<lambda>_ _. []), n_redirects = (\<lambda>_ _. False)\<rparr>, st_show_time = show_int,
     st_schema_error = (\<lambda>_. ''bad''), st_new_uuid = show_nat, st_parse_uuid = Some,
     st_pick = (\<lambda>t i. t + i), st_b64 = (\<lambda>s. s), st_url_encode = (\<lambda>s. s),
     st_cookie_text = (\<lambda>c. ''rl_session='' @ c), st_template = (\<lambda>_. []), st_shuffle = (\<lambda>_ _ xs. rev xs)\<rparr>"

definition sample_form_row :: form_row where
  "sample_form_row = \<lparr>fm_id = ''f'', fm_guild_id = ''g'', fm_slug = ''join'', fm_title = ''T'', fm_description = [],
     fm_version = 1, fm_schema = form_schema_to_json sample_form, fm_is_quiz = False, fm_open_at = None,
     fm_close_at = None, fm_allow_edits = False, fm_single_submission = True, fm_require_verified = False,
     fm_min_account_age_days = 0, fm_success_message = ''ok'', fm_preview_token = ''p'', fm_webhook_url = None,
     fm_archived = False, fm_passing_score = None, fm_max_attempts = 2, fm_retry_cooldown_seconds = 60,
     fm_retry_policy = ''keep_best'', fm_lock_on_pass = True, fm_updated_at = 0\<rparr>"

definition form_world :: world where
  "form_world = sample_world (empty_db\<lparr>db_forms := [sample_form_row]\<rparr>)"

definition sample_cookie :: str where
  "sample_cookie = ''ann:Ann:9999:'' @ mac_hex sample_crypto ''k'' ''ann:Ann:9999''"

definition sample_submission :: "int \<Rightarrow> submission" where
  "sample_submission now = \<lparr>sb_at = now, sb_request = sample_request ''POST'' [(''origin'', ''https://p'')] None,
     sb_cookie = Some sample_cookie, sb_slug = ''join'',
     sb_answers = JObj [(''q1'', JStr ''Ann''), (''q2'', JArr [JStr ''b''])], sb_version = 1\<rparr>"

lemma show_nat_inj: "inj show_nat"
  by (rule injI) (metis parse_nat_show_nat option.inject)

lemma form_world_inv: "submit_inv sample_site sample_form_row ''join'' ''ann'' form_world"
  by (simp add: submit_inv_def find_form_by_slug_def form_world_def sample_world_def sample_form_row_def ids_ok_def
      one_row_def user_responses_def empty_db_def)



lemma session_sample: "now \<le> 9999 * nanos_per_sec \<Longrightarrow> session_of sample_site now sample_cookie = Some (''ann'', ''Ann'')"
proof -
  assume "now \<le> 9999 * nanos_per_sec"
  then have n: "unix_secs now \<le> 9999" by (simp add: unix_secs_def)
  have s: "splitn 4 colon sample_cookie = [''ann'', ''Ann'', ''9999'', mac_hex sample_crypto ''k'' ''ann:Ann:9999'']"
    and e: "parse_i64 ''9999'' = Some 9999" and c: "colon_join [''ann'', ''Ann'', ''9999''] = ''ann:Ann:9999''"
    and u: "url_decode sample_crypto ''Ann'' = Some ''Ann''"
    by code_simp+
  show ?thesis
    using n by (simp add: session_of_def verify_session_def s e c u sample_site_def constant_time_eq_iff del: colon_join_simps)
qed

lemma sample_origin: "verify_origin (sample_request ''POST'' [(''origin'', ''https://p'')] None) [''https://p''] = Inr ()"
  "header_str (sample_request ''POST'' [(''origin'', ''https://p'')] None) ''x-rl-preview'' = None"
  by code_simp+

definition sample_graded :: grading where
  "sample_graded = \<lparr>gr_answers = [(''q1'', JStr ''Ann''), (''q2'', JArr [JStr ''b''])], gr_score = None, gr_passed = None\<rparr>"

lemma sample_grade: "grade (sample_env rp) sample_site sample_form_row
    (JObj [(''q1'', JStr ''Ann''), (''q2'', JArr [JStr ''b''])]) = Inr sample_graded"
  by code_simp

lemma sample_open: "check_open now sample_form_row ''join'' 1 u = Inr ()"
  by (simp add: check_open_def too_young_def sample_form_row_def)

lemma sample_row: "is_single sample_form_row" "\<not> is_editable sample_form_row"
   "fm_require_verified sample_form_row = False" "fm_webhook_url sample_form_row = None" "fm_id sample_form_row = ''f''"
   "fm_slug sample_form_row = ''join''"
  by (simp_all add: sample_form_row_def is_single_def is_editable_def)

lemma sample_selectors: "st_origins sample_site = [''https://p'']" "st_new_uuid sample_site = show_nat" "e_db_fault (sample_env rp) t = None"
  by (simp_all add: sample_site_def sample_env_def)

lemma sample_submission_accepted:
  assumes "now \<le> 9999 * nanos_per_sec"
  shows "\<exists>reply w'. submit_at (sample_env (HttpReply 200 [])) sample_site (sample_submission now) form_world = (Inr reply, w')"
  using assms sample_row
  by (simp add: submit_at_def sample_submission_def post_submit_def act_bind_def act_result_def act_now_def
      sample_origin session_sample db_transaction_def db_query_def db_stmt_def submit_in_tx_def sample_selectors
      sample_open sample_grade check_member_def find_form_by_slug_def form_world_def sample_world_def empty_db_def
      store_response_def store_attempt_def canonical_attempt_def user_responses_def insert_response_def
      enqueue_follow_up_def enqueue_player_sync_def on_jobs_def db_exec_def Let_def)

lemma sample_limits: "fm_max_attempts sample_form_row = 2" "fm_retry_cooldown_seconds sample_form_row = 60" "in_i32 2"
  by (simp_all add: sample_form_row_def in_i32_def)

lemma sample_empty: "user_responses i u (w_db form_world) = []" "attempt_state f u (w_db form_world) = None"
  by (simp_all add: user_responses_def attempt_state_def canonical_attempt_def form_world_def sample_world_def empty_db_def)

text \<open>The same form with the defaults of a new one: one attempt, no cooldown.\<close>

definition one_shot_row :: form_row where
  "one_shot_row = sample_form_row\<lparr>fm_max_attempts := 1, fm_retry_cooldown_seconds := 0\<rparr>"

definition one_shot_world :: world where
  "one_shot_world = sample_world (empty_db\<lparr>db_forms := [one_shot_row]\<rparr>)"

lemma one_shot_limits: "fm_max_attempts one_shot_row = 1" "fm_retry_cooldown_seconds one_shot_row = 0" "in_i32 1"
  by (simp_all add: one_shot_row_def in_i32_def)

lemma one_shot_row_simps: "is_single one_shot_row" "\<not> is_editable one_shot_row" "fm_slug one_shot_row = ''join''"
  by (simp_all add: one_shot_row_def sample_form_row_def is_single_def is_editable_def)

lemma one_shot_world_inv: "submit_inv sample_site one_shot_row ''join'' ''ann'' one_shot_world"
  by (simp add: submit_inv_def find_form_by_slug_def one_shot_world_def sample_world_def one_shot_row_simps ids_ok_def
      one_row_def user_responses_def empty_db_def)

lemma one_shot_empty: "user_responses i u (w_db one_shot_world) = []"
  by (simp add: user_responses_def one_shot_world_def sample_world_def empty_db_def)

subsection \<open>Properties\<close>

text \<open>C11: a submission is all or nothing: when it is refused or anything fails, the tables are as they
  were; when it succeeds, from an allowed origin and a live session, one row of the member's for
  this form is added or replaced, and exactly the follow-up jobs are added, the member's sync first.\<close>

theorem submit_atomic:
  assumes "post_submit E S rq cookie slug answers version w = (res, w')"
  shows "case res of
      Inl e \<Rightarrow> w_db w' = w_db w
    | Inr reply \<Rightarrow> \<exists>c u name f g st wb. cookie = Some c \<and> session_of S (w_now w) c = Some (u, name)
        \<and> verify_origin rq (st_origins S) = Inr ()
        \<and> find_form_by_slug slug (w_db w) = Some f \<and> check_open (w_now w) f slug version u = Inr ()
        \<and> grade E S f answers = Inr g \<and> rows_step S (fm_id f) u w wb
        \<and> w_db w' = (w_db wb)\<lparr>db_jobs := follow_up_jobs S f slug u name g st (w_now w) (db_jobs (w_db w))\<rparr>
        \<and> reply = submit_reply S f g st"
proof (cases res)
  case (Inl e)
  then show ?thesis using assms post_submit_error_keeps_db by fastforce
next
  case (Inr reply)
  obtain c u name f g st wa wb where eff: "submitted E S rq cookie slug answers version w reply w' c u name f g st wa wb"
    using post_submit_Inr [OF assms [unfolded Inr]] by blast
  then have "rows_step S (fm_id f) u wa wb" and "w_db wa = w_db w" and "w_tick w \<le> w_tick wa"
    using store_response_rows unfolding submitted_def by blast+
  then have "rows_step S (fm_id f) u w wb" and "db_jobs (w_db wb) = db_jobs (w_db w)"
    by (auto simp: rows_step_def intro: order_trans)
  then show ?thesis using eff Inr unfolding submitted_def by auto
qed

theorem submit_atomic_witness:
  "\<exists>reply w' wb. submit_at (sample_env (HttpReply 200 [])) sample_site (sample_submission 0) form_world = (Inr reply, w')
     \<and> rows_step sample_site ''f'' ''ann'' (form_world\<lparr>w_now := 0\<rparr>) wb \<and> db_responses (w_db w') = db_responses (w_db wb)"
proof -
  obtain reply w' where r: "submit_at (sample_env (HttpReply 200 [])) sample_site (sample_submission 0) form_world = (Inr reply, w')"
    using sample_submission_accepted [of 0] by auto
  note e = submit_atomic [OF r [unfolded submit_at_def]]
  then show ?thesis using r session_sample [of 0]
    by (auto simp: sample_submission_def find_form_by_slug_def form_world_def sample_world_def sample_row)
qed

text \<open>C5: the limit holds for whole submissions: on a form that keeps one response, not being saved in
  between, whatever members submit to whatever forms, in any order and with any failures, of the
  submissions to it of a member without a response at most \<open>max_attempts\<close> succeed, unless that is
  zero (unlimited), and, when the form has a cooldown, they are at least the cooldown apart. The two
  bounds do not need each other: the default form, one attempt and no cooldown, is covered.\<close>

theorem submissions_within_limit:
  assumes "inj (st_new_uuid S)" and "submit_inv S f slug u w" and "governed f"
    and "user_responses (fm_id f) u (w_db w) = []"
    and "in_i32 (fm_max_attempts f)"
  shows "(0 < fm_max_attempts f \<longrightarrow> int (length (accepted_from E S slug u evs w)) \<le> fm_max_attempts f)
    \<and> (0 < fm_retry_cooldown_seconds f \<longrightarrow>
         successively (\<lambda>a b. a + fm_retry_cooldown_seconds f * nanos_per_sec \<le> b) (accepted_from E S slug u evs w))"
proof -
  have "attempt_state f u (w_db w) = None" using assms(4) by (simp add: attempt_state_def canonical_attempt_def)
  then obtain gs where "accepted_from E S slug u evs w = accepted_times decide (retry_config_from_form f) None gs"
    using submissions_refine [OF assms(1,3,2)] by metis
  then show ?thesis
    using assms(5) gate.accepted_limit [of "retry_config_from_form f" gs]
      gate.accepted_spaced [of "retry_config_from_form f" gs]
    by (simp add: retry_config_from_form_def)
qed

theorem submissions_within_limit_witness:
  "int (length (accepted_from (sample_env (HttpReply 200 [])) sample_site ''join'' ''ann''
      (map sample_submission [0, 30000000000, 60000000000, 200000000000]) form_world)) \<le> 2
   \<and> int (length (accepted_from (sample_env (HttpReply 200 [])) sample_site ''join'' ''ann''
      (map sample_submission [0, 0]) one_shot_world)) \<le> 1
   \<and> accepted_from (sample_env (HttpReply 200 [])) sample_site ''join'' ''ann'' [sample_submission 0] form_world = [0]"
proof (intro conjI)
  note rows = sample_limits one_shot_limits governed_iff sample_row one_shot_row_simps sample_selectors show_nat_inj
  have "governed sample_form_row" "governed one_shot_row" "inj (st_new_uuid sample_site)" "in_i32 (fm_max_attempts sample_form_row)"
    "in_i32 (fm_max_attempts one_shot_row)"
    by (simp_all add: rows)
  note c = this
  show "int (length (accepted_from (sample_env (HttpReply 200 [])) sample_site ''join'' ''ann''
      (map sample_submission [0, 30000000000, 60000000000, 200000000000]) form_world)) \<le> 2"
    using submissions_within_limit [OF c(3) form_world_inv c(1) sample_empty(1) c(4),
      of "sample_env (HttpReply 200 [])" "map sample_submission [0, 30000000000, 60000000000, 200000000000]"]
    unfolding sample_limits by linarith
  show "int (length (accepted_from (sample_env (HttpReply 200 [])) sample_site ''join'' ''ann''
      (map sample_submission [0, 0]) one_shot_world)) \<le> 1"
    using submissions_within_limit [OF c(3) one_shot_world_inv c(2) one_shot_empty c(5),
      of "sample_env (HttpReply 200 [])" "map sample_submission [0, 0]"]
    unfolding one_shot_limits by linarith
  show "accepted_from (sample_env (HttpReply 200 [])) sample_site ''join'' ''ann'' [sample_submission 0] form_world = [0]"
    using sample_submission_accepted [of 0] session_sample [of 0] by (auto simp: sender_def sample_submission_def)
qed

text \<open>C10: a submission to a form that keeps one response refines the retry gate: a success is a
  decision of the gate on the member's row, with the graded answers as the new attempt, and the row
  then is what the gate made of it; a failure leaves the row as it was.\<close>

theorem submit_refines_gate:
  assumes "find_form_by_slug slug (w_db w) = Some f" and "governed f"
    and "session_of S (w_now w) c = Some (u, name)" and "one_row (fm_id f) u (w_db w)"
    and "post_submit E S rq (Some c) slug answers version w = (res, w')"
  shows "attempt_state f u (w_db w') =
     (case res of
        Inl e \<Rightarrow> attempt_state f u (w_db w)
      | Inr reply \<Rightarrow> (case grade E S f answers of
          Inr g \<Rightarrow> attempt_step decide (retry_config_from_form f) (attempt_state f u (w_db w)) (w_now w, attempt_of g)))
    \<and> (case res of Inl e \<Rightarrow> True
      | Inr reply \<Rightarrow> \<exists>g a. grade E S f answers = Inr g
          \<and> decide (w_now w) (retry_config_from_form f) (attempt_state f u (w_db w)) (attempt_of g) = Inr a)"
proof (cases res)
  case (Inl e)
  then show ?thesis using assms(5) post_submit_error_keeps_db by fastforce
next
  case (Inr reply)
  obtain c' u' name' f' g st wa wb where "submitted E S rq (Some c) slug answers version w reply w' c' u' name' f' g st wa wb"
    using post_submit_Inr [OF assms(5) [unfolded Inr]] by blast
  then have st: "store_response E S f u g (w_now w) wa = (Inr st, wb)" and wa: "w_db wa = w_db w"
    and g: "grade E S f answers = Inr g"
    and db: "w_db w' = (w_db wb)\<lparr>db_jobs := follow_up_jobs S f slug u name g st (w_now w) (db_jobs (w_db wb))\<rparr>"
    using assms(1,3) unfolding submitted_def by auto
  show ?thesis using store_response_refines [OF st assms(2)] assms(4) wa db g Inr
    by (auto simp: attempt_step_def)
qed

theorem submit_refines_gate_witness:
  "\<exists>reply w'. submit_at (sample_env (HttpReply 200 [])) sample_site (sample_submission 0) form_world = (Inr reply, w')
     \<and> attempt_state sample_form_row ''ann'' (w_db w')
       = attempt_step decide (retry_config_from_form sample_form_row) None (0, attempt_of sample_graded)"
proof -
  obtain reply w' where r: "submit_at (sample_env (HttpReply 200 [])) sample_site (sample_submission 0) form_world = (Inr reply, w')"
    using sample_submission_accepted [of 0] by auto
  have "attempt_state sample_form_row ''ann'' (w_db form_world) = None" by (simp add: sample_empty)
  then have "attempt_state sample_form_row ''ann'' (w_db w')
       = attempt_step decide (retry_config_from_form sample_form_row) None (0, attempt_of sample_graded)"
    using submit_refines_gate [OF _ _ _ _ r [unfolded submit_at_def sample_submission_def submission.select_convs],
        of sample_form_row "''ann''" "''Ann''"] form_world_inv session_sample [of 0]
    by (simp add: submit_inv_def sample_row governed_iff sample_grade)
  then show ?thesis using r by blast
qed

text \<open>The reply to a quiz submission is a function of the success message, the pass mark's outcome
  and the retry status: two submissions that agree on them get the same reply, whatever their scores
  and answers.\<close>

lemma quiz_reply_hides_score:
  assumes "fm_is_quiz f" and "so_attempts_left st = so_attempts_left st'" "so_next_attempt_at st = so_next_attempt_at st'"
    and "gr_score g = Some s" "gr_score g' = Some s'"
    and "\<forall>t. fm_passing_score f = Some t \<longrightarrow> (s \<ge> t \<longleftrightarrow> s' \<ge> t)"
  shows "submit_reply S f g st = submit_reply S f g' st'"
  using assms by (auto simp: submit_reply_def Let_def split: option.split)

end
