(* ===== verification/FormSanity.thy ===== *)
theory FormSanity
  imports QuizGrader
begin

text \<open>
  \<open>sanity_check\<close> of \<open>services/form_validator.rs\<close>: the structural check of a form definition at
  save time. Errors are collected in the code's order; the sets of seen ids are threaded
  through the pages and their questions. \<open>sane_form\<close> is the specification: the check passes
  exactly for these forms.
\<close>

definition le_sign :: str where "le_sign = [CHR 0xE2, CHR 0x89, CHR 0xA4]"

definition is_safe_image_url :: "str \<Rightarrow> bool" where
  "is_safe_image_url url =
     (let lower = to_ascii_lowercase (str_trim url) in
      if starts_with ''javascript:'' lower \<or> starts_with ''data:'' lower
         \<or> starts_with ''vbscript:'' lower \<or> starts_with ''file:'' lower
      then False
      else starts_with ''http://'' lower \<or> starts_with ''https://'' lower)"

subsection \<open>One question\<close>

definition push_if :: "bool \<Rightarrow> str \<Rightarrow> str list" where
  "push_if b m = (if b then [m] else [])"

fun option_errors :: "question \<Rightarrow> str list \<Rightarrow> question_option list \<Rightarrow> str list" where
  "option_errors q seen [] = []"
| "option_errors q seen (o' # os) =
     (if str_trim (o_id o') = [] then [''Question \"'' @ q_id q @ ''\" has an option with no id.'']
      else push_if (o_id o' \<in> set seen)
        (''Question \"'' @ q_id q @ ''\" has duplicate option id \"'' @ o_id o' @ ''\".''))
     @ push_if (chars_count (o_label o') > 200)
        (''Question \"'' @ q_id q @ ''\" option \"'' @ o_id o' @ ''\" label is too long.'')
     @ option_errors q (if str_trim (o_id o') = [] then seen else o_id o' # seen) os"

definition url_errors :: "str \<Rightarrow> str \<Rightarrow> question \<Rightarrow> str list" where
  "url_errors element what q =
     (let url = str_trim (unwrap_or (q_image_url q) []) in
      if url = [] then [element @ '' element \"'' @ q_id q @ ''\" needs '' @ what @ '' URL.'']
      else if \<not> is_safe_image_url url then
        [element @ '' element \"'' @ q_id q
         @ ''\" URL must start with http:// or https:// (data: and javascript: URLs are not allowed).'']
      else push_if (chars_count url > 2048)
        (element @ '' element \"'' @ q_id q @ ''\" URL is too long (max 2048 characters).''))"

definition choice_errors :: "question \<Rightarrow> str list" where
  "choice_errors q =
     (let opts = unwrap_or (q_options q) [] in
      push_if (opts = []) (''Question \"'' @ q_id q @ ''\" needs at least one option.'')
      @ push_if (length opts > MAX_OPTIONS_PER_QUESTION)
          (''Question \"'' @ q_id q @ ''\" has too many options (max ''
           @ show_nat MAX_OPTIONS_PER_QUESTION @ '').'')
      @ option_errors q [] opts)"

definition check_question_kind :: "question \<Rightarrow> str list" where
  "check_question_kind q =
     (let k = q_kind q in
      if k = SingleChoice \<or> k = MultiChoice \<or> k = Dropdown then choice_errors q
      else if k = Scale \<or> k = QNumber then
        (case (q_min q, q_max q) of
           (Some mn, Some mx) \<Rightarrow> push_if (f64_gt mn mx) (''Question \"'' @ q_id q @ ''\" has min > max.'')
         | _ \<Rightarrow> [])
      else if k = Agreement \<and> \<not> q_required q then
        [''Agreement question \"'' @ q_id q @ ''\" must be marked required.'']
      else if k = Image then
        url_errors ''Image'' ''an image'' q
        @ (case q_alt_text q of
             Some alt \<Rightarrow> push_if (chars_count alt > 200)
               (''Image element \"'' @ q_id q @ ''\" alt text is too long (max 200 characters).'')
           | None \<Rightarrow> [])
      else if k = Video then url_errors ''Video'' ''a video'' q
      else [])"

subsection \<open>The whole form\<close>

fun question_errors ::
  "nat \<Rightarrow> nat \<Rightarrow> str list \<Rightarrow> question list \<Rightarrow> str list \<times> str list" where
  "question_errors pno qno seen [] = ([], seen)"
| "question_errors pno qno seen (q # qs) =
     (let blank = str_trim (q_id q) = [];
          e1 = (if blank then [''Question #'' @ show_nat (qno + 1) @ '' on page '' @ show_nat (pno + 1) @ '' has no id.'']
                else push_if (q_id q \<in> set seen) (''Duplicate question id \"'' @ q_id q @ ''\".''));
          e2 = push_if (str_trim (q_title q) = [] \<and> \<not> (q_kind q = Info \<or> q_kind q = Image \<or> q_kind q = Video))
                 (''Question \"'' @ q_id q @ ''\" needs a title.'');
          (es, seen') = question_errors pno (qno + 1) (if blank then seen else q_id q # seen) qs
      in (e1 @ e2 @ check_question_kind q @ es, seen'))"

fun page_errors :: "nat \<Rightarrow> str list \<Rightarrow> str list \<Rightarrow> page list \<Rightarrow> str list" where
  "page_errors pno pids qids [] = []"
| "page_errors pno pids qids (p # ps) =
     (let blank = str_trim (p_id p) = [];
          e1 = (if blank then [''Page #'' @ show_nat (pno + 1) @ '' has no id.'']
                else push_if (p_id p \<in> set pids)
                  (''Page #'' @ show_nat (pno + 1) @ '' has duplicate id \"'' @ p_id p @ ''\".''));
          (qe, qids') = question_errors pno 0 qids (p_questions p)
      in e1 @ qe @ page_errors (pno + 1) (if blank then pids else p_id p # pids) qids' ps)"

definition total_questions :: "form_schema \<Rightarrow> nat" where
  "total_questions s = length (concat (map p_questions (s_pages s)))"

definition sanity_errors :: "form_schema \<Rightarrow> str list" where
  "sanity_errors s =
     push_if (str_trim (s_title s) = []) ''Form title is required.''
     @ push_if (chars_count (s_title s) > 200) (''Form title must be '' @ le_sign @ ''200 characters.'')
     @ push_if (chars_count (s_description s) > 2000)
         (''Form description must be '' @ le_sign @ ''2000 characters.'')
     @ push_if (s_pages s = []) ''Form must have at least one page.''
     @ push_if (length (s_pages s) > MAX_PAGES)
         (''Form has too many pages (max '' @ show_nat MAX_PAGES @ '').'')
     @ page_errors 0 [] [] (s_pages s)
     @ push_if (total_questions s > MAX_QUESTIONS)
         (''Form has '' @ show_nat (total_questions s) @ '' questions; max is ''
          @ show_nat MAX_QUESTIONS @ ''.'')"

definition sanity_check :: "form_schema \<Rightarrow> (str list, unit) result" where
  "sanity_check s = (let errors = sanity_errors s in if errors = [] then Inr () else Inl errors)"

subsection \<open>The specification\<close>

definition nonblank :: "str \<Rightarrow> bool" where "nonblank s \<longleftrightarrow> str_trim s \<noteq> []"

definition sane_url :: "question \<Rightarrow> bool" where
  "sane_url q \<longleftrightarrow> (let url = str_trim (unwrap_or (q_image_url q) []) in
     url \<noteq> [] \<and> is_safe_image_url url \<and> chars_count url \<le> 2048)"

definition sane_question :: "question \<Rightarrow> bool" where
  "sane_question q \<longleftrightarrow>
     (is_answerable (q_kind q) \<longrightarrow> nonblank (q_title q))
     \<and> (q_kind q \<in> {SingleChoice, MultiChoice, Dropdown} \<longrightarrow>
          (let os = unwrap_or (q_options q) [] in
           os \<noteq> [] \<and> length os \<le> MAX_OPTIONS_PER_QUESTION \<and> distinct (map o_id os)
           \<and> (\<forall>o' \<in> set os. nonblank (o_id o') \<and> chars_count (o_label o') \<le> 200)))
     \<and> (q_kind q \<in> {Scale, QNumber} \<longrightarrow>
          (\<forall>mn mx. q_min q = Some mn \<and> q_max q = Some mx \<longrightarrow> \<not> f64_gt mn mx))
     \<and> (q_kind q = Agreement \<longrightarrow> q_required q)
     \<and> (q_kind q \<in> {Image, Video} \<longrightarrow> sane_url q)
     \<and> (q_kind q = Image \<longrightarrow> (\<forall>alt. q_alt_text q = Some alt \<longrightarrow> chars_count alt \<le> 200))"

definition sane_form :: "form_schema \<Rightarrow> bool" where
  "sane_form s \<longleftrightarrow>
     nonblank (s_title s) \<and> chars_count (s_title s) \<le> 200 \<and> chars_count (s_description s) \<le> 2000
     \<and> s_pages s \<noteq> [] \<and> length (s_pages s) \<le> MAX_PAGES
     \<and> distinct (map p_id (s_pages s)) \<and> (\<forall>p \<in> set (s_pages s). nonblank (p_id p))
     \<and> (let qs = concat (map p_questions (s_pages s)) in
         length qs \<le> MAX_QUESTIONS \<and> distinct (map q_id qs)
         \<and> (\<forall>q \<in> set qs. nonblank (q_id q) \<and> sane_question q))"

subsection \<open>The check decides the specification\<close>

lemma push_if_Nil [simp]: "push_if b m = [] \<longleftrightarrow> \<not> b"
  by (simp add: push_if_def)

lemma option_errors_Nil:
  "option_errors q seen os = [] \<longleftrightarrow>
     (\<forall>o' \<in> set os. nonblank (o_id o') \<and> chars_count (o_label o') \<le> 200)
     \<and> distinct (map o_id os) \<and> set seen \<inter> o_id ` set os = {}"
  by (induction q seen os rule: option_errors.induct) (auto simp: nonblank_def)

lemma url_errors_Nil: "url_errors el w q = [] \<longleftrightarrow> sane_url q"
  by (auto simp: url_errors_def sane_url_def Let_def)

lemma check_question_kind_Nil:
  "check_question_kind q = [] \<and> (str_trim (q_title q) = [] \<longrightarrow> \<not> is_answerable (q_kind q))
     \<longleftrightarrow> sane_question q"
  by (cases "q_kind q")
    (auto simp: check_question_kind_def sane_question_def choice_errors_def Let_def
      option_errors_Nil url_errors_Nil is_answerable_def nonblank_def split: option.splits)

lemma question_errors_Nil:
  "fst (question_errors pno qno seen qs) = [] \<longleftrightarrow>
     (\<forall>q \<in> set qs. nonblank (q_id q) \<and> sane_question q)
     \<and> distinct (map q_id qs) \<and> set seen \<inter> q_id ` set qs = {}"
proof (induction pno qno seen qs rule: question_errors.induct)
  case (2 pno qno seen q qs)
  show ?case
    using 2 check_question_kind_Nil [of q]
    by (auto simp: Let_def split_beta nonblank_def is_answerable_def)
qed simp

lemma question_errors_seen:
  "fst (question_errors pno qno seen qs) = [] \<Longrightarrow>
     set (snd (question_errors pno qno seen qs)) = set seen \<union> q_id ` set qs"
  by (induction pno qno seen qs rule: question_errors.induct) (auto simp: Let_def split_beta)

lemma page_errors_Nil:
  "page_errors pno pids qids ps = [] \<longleftrightarrow>
     (\<forall>p \<in> set ps. nonblank (p_id p)) \<and> distinct (map p_id ps) \<and> set pids \<inter> p_id ` set ps = {}
     \<and> (let qs = concat (map p_questions ps) in
         (\<forall>q \<in> set qs. nonblank (q_id q) \<and> sane_question q)
         \<and> distinct (map q_id qs) \<and> set qids \<inter> q_id ` set qs = {})"
proof (induction pno pids qids ps rule: page_errors.induct)
  case (2 pno pids qids p ps)
  let ?q = "question_errors pno 0 qids (p_questions p)"
  show ?case
  proof (cases "fst ?q = [] \<and> nonblank (p_id p)")
    case True
    let ?Q = "concat (map p_questions ps)"
    note qs = question_errors_Nil [of pno 0 qids "p_questions p", THEN iffD1, OF conjunct1 [OF True]]
    have seen: "set (snd ?q) = set qids \<union> q_id ` set (p_questions p)"
      using True question_errors_seen by simp
    have IH: "page_errors (pno + 1) (p_id p # pids) (snd ?q) ps = [] \<longleftrightarrow>
       (\<forall>p \<in> set ps. nonblank (p_id p)) \<and> distinct (map p_id ps)
       \<and> set (p_id p # pids) \<inter> p_id ` set ps = {}
       \<and> (\<forall>q \<in> set ?Q. nonblank (q_id q) \<and> sane_question q)
       \<and> distinct (map q_id ?Q) \<and> set (snd ?q) \<inter> q_id ` set ?Q = {}"
      using 2 [OF refl refl prod.collapse] True by (simp add: nonblank_def Let_def)
    have step: "page_errors pno pids qids (p # ps) = [] \<longleftrightarrow>
       p_id p \<notin> set pids \<and> page_errors (pno + 1) (p_id p # pids) (snd ?q) ps = []"
      using True by (simp add: Let_def split_beta nonblank_def)
    have 1: "p_id p \<notin> set pids \<and> set (p_id p # pids) \<inter> p_id ` set ps = {} \<longleftrightarrow>
       p_id p \<notin> p_id ` set ps \<and> set pids \<inter> p_id ` set (p # ps) = {}" by auto
    have 2: "set (snd ?q) \<inter> q_id ` set ?Q = {} \<longleftrightarrow>
       q_id ` set (p_questions p) \<inter> q_id ` set ?Q = {} \<and> set qids \<inter> q_id ` set (p_questions p @ ?Q) = {}"
      unfolding seen set_append image_Un Int_Un_distrib Int_Un_distrib2 Un_empty
      using conjunct2 [OF conjunct2 [OF qs]] by blast
    have 3: "distinct (map q_id (p_questions p @ ?Q)) \<longleftrightarrow>
       distinct (map q_id ?Q) \<and> q_id ` set (p_questions p) \<inter> q_id ` set ?Q = {}"
      using qs by auto
    have 4: "(\<forall>q \<in> set (p_questions p @ ?Q). nonblank (q_id q) \<and> sane_question q) \<longleftrightarrow>
       (\<forall>q \<in> set ?Q. nonblank (q_id q) \<and> sane_question q)"
      using qs by auto
    have 5: "(\<forall>p' \<in> set (p # ps). nonblank (p_id p')) \<longleftrightarrow> (\<forall>p' \<in> set ps. nonblank (p_id p'))"
      and 6: "distinct (map p_id (p # ps)) \<longleftrightarrow> p_id p \<notin> p_id ` set ps \<and> distinct (map p_id ps)"
      and e: "concat (map p_questions (p # ps)) = p_questions p @ ?Q"
      using True by simp_all
    show ?thesis
      unfolding Let_def e step IH 2 3 4 5 6 using 1 by argo
  next
    case False
    then show ?thesis
      using question_errors_Nil [of pno 0 qids "p_questions p"]
      by (auto simp: Let_def split_beta nonblank_def)
  qed
qed (simp add: Let_def)

lemma sanity_errors_Nil: "sanity_errors s = [] \<longleftrightarrow> sane_form s"
  by (auto simp: sanity_errors_def sane_form_def page_errors_Nil total_questions_def Let_def nonblank_def)

lemma sanity_check_Inr: "sanity_check s = Inr () \<longleftrightarrow> sane_form s"
  by (auto simp: sanity_check_def Let_def sanity_errors_Nil)

subsection \<open>What the check does not read\<close>

text \<open>
  The fields the check reads of a question, and the form with only these. A field set on a kind
  that does not use it is not among them, and no pattern is compiled.
\<close>

definition checked_fields :: "question \<Rightarrow> question" where
  "checked_fields q =
     \<lparr>q_id = q_id q, q_kind = q_kind q, q_title = q_title q, q_description = [], q_required = q_required q,
      q_max_length = None,
      q_min = (if q_kind q \<in> {Scale, QNumber} then q_min q else None),
      q_max = (if q_kind q \<in> {Scale, QNumber} then q_max q else None),
      q_options = (if q_kind q \<in> {SingleChoice, MultiChoice, Dropdown} then q_options q else None),
      q_correct = None, q_points = None, q_placeholder = None, q_help_text = None,
      q_image_url = (if q_kind q \<in> {Image, Video} then q_image_url q else None),
      q_alt_text = (if q_kind q = Image then q_alt_text q else None)\<rparr>"

definition checked_page :: "page \<Rightarrow> page" where
  "checked_page p = p\<lparr>p_title := [], p_description := [], p_questions := map checked_fields (p_questions p)\<rparr>"

definition checked_form :: "form_schema \<Rightarrow> form_schema" where
  "checked_form s = s\<lparr>s_settings := default_form_settings, s_pages := map checked_page (s_pages s)\<rparr>"

lemma checked_fields_simps [simp]:
  "q_id (checked_fields q) = q_id q" "q_kind (checked_fields q) = q_kind q"
  "q_title (checked_fields q) = q_title q" "q_required (checked_fields q) = q_required q"
  by (simp_all add: checked_fields_def)

lemma option_errors_cong: "q_id q = q_id q' \<Longrightarrow> option_errors q seen os = option_errors q' seen os"
  by (induction q seen os rule: option_errors.induct) simp_all

lemma check_checked_fields [simp]: "check_question_kind (checked_fields q) = check_question_kind q"
  using option_errors_cong [of "checked_fields q" q]
  by (cases "q_kind q")
    (simp_all add: check_question_kind_def choice_errors_def url_errors_def checked_fields_def Let_def
      split: option.split)

lemma question_errors_checked [simp]:
  "question_errors pno qno seen (map checked_fields qs) = question_errors pno qno seen qs"
  by (induction qs arbitrary: qno seen) (simp_all add: Let_def split_beta)

lemma page_errors_checked [simp]:
  "page_errors pno pids qids (map checked_page ps) = page_errors pno pids qids ps"
  by (induction ps arbitrary: pno pids qids) (simp_all add: checked_page_def Let_def split_beta)

lemma sanity_check_checked_form: "sanity_check (checked_form s) = sanity_check s"
  by (simp add: sanity_check_def sanity_errors_def checked_form_def total_questions_def checked_page_def
      comp_def length_concat)

subsection \<open>The questions of a sane form\<close>

lemma sane_form_iter:
  assumes "sane_form s"
  shows "length (iter_questions s) \<le> MAX_QUESTIONS" and "distinct (map q_id (iter_questions s))"
    and "q \<in> set (iter_questions s) \<Longrightarrow> nonblank (q_id q) \<and> sane_question q"
  using assms
  by (auto simp: sane_form_def iter_questions_def Let_def distinct_map_filter
      intro: order_trans [OF length_filter_le] simp del: length_concat)

lemma sample_form_sane: "sane_form sample_form"
  unfolding sanity_check_Inr [symmetric] by code_simp

lemma sample_form_keys: "validate_quiz_keys sample_crates sample_form = Inr ()"
  by code_simp

subsection \<open>Properties\<close>

text \<open>C23: the save-time check accepts exactly the sane forms: titled, within the size bounds,
  with distinct non-blank page, question and option ids, and every question well-formed for its
  kind; and it reads nothing else. Its answer, errors included, does not depend on a field that
  the kind of a question does not use, on the settings, or on any pattern (no regex is compiled),
  contrary to the comments on \<open>Question\<close> in \<open>models/form.rs\<close> and at the top of
  \<open>services/form_validator.rs\<close>.\<close>

theorem sanity_check_exact:
  "(sanity_check s = Inr () \<longleftrightarrow> sane_form s) \<and> sanity_check (checked_form s) = sanity_check s"
  by (intro conjI sanity_check_Inr sanity_check_checked_form)

text \<open>C24: on a form that passed both save-time checks the quiz score is the exact sum of the
  points of the correctly answered graded questions: it never saturates and never exceeds fifty
  million.\<close>

theorem quiz_score_exact:
  assumes "sane_form s" and "validate_quiz_keys E s = Inr ()"
  shows "compute_quiz_score E s v = (\<Sum>q \<leftarrow> iter_questions s. awarded E v q)
    \<and> 0 \<le> compute_quiz_score E s v
    \<and> compute_quiz_score E s v \<le> int MAX_QUESTIONS * MAX_QUESTION_POINTS"
proof -
  have "points_errors q = []" if "q \<in> set (iter_questions s)" for q
    using validate_quiz_keys_Inr [OF assms(2) that] by simp
  then have "(\<Sum>q \<leftarrow> iter_questions s. awarded E v q)
      \<le> int (length (iter_questions s)) * MAX_QUESTION_POINTS"
    by (intro sum_list_bounded points_errors_bound)
  also have "\<dots> \<le> int MAX_QUESTIONS * MAX_QUESTION_POINTS"
    using sane_form_iter(1) [OF assms(1)] by (intro mult_right_mono) (simp_all add: MAX_QUESTION_POINTS_def)
  finally have "(\<Sum>q \<leftarrow> iter_questions s. awarded E v q) \<le> int MAX_QUESTIONS * MAX_QUESTION_POINTS" .
  moreover have "0 \<le> (\<Sum>q \<leftarrow> iter_questions s. awarded E v q)"
    by (auto intro!: sum_list_nonneg simp: awarded_nonneg)
  ultimately show ?thesis
    by (simp add: compute_quiz_score_sum MAX_QUESTIONS_def MAX_QUESTION_POINTS_def)
qed

theorem quiz_score_exact_witness:
  "compute_quiz_score sample_crates sample_form [(''q1'', JStr ''Ann'')] \<le> 50000000"
  using quiz_score_exact [OF sample_form_sane sample_form_keys, of "[(''q1'', JStr ''Ann'')]"]
  by (simp add: MAX_QUESTIONS_def MAX_QUESTION_POINTS_def)

text \<open>Only graded questions earn points: whatever was submitted, the score is at most the sum
  of the points of the questions that \<open>quiz_graded_count\<close> counts.\<close>

lemma quiz_score_graded_only:
  "compute_quiz_score E s v \<le> (\<Sum>q \<leftarrow> filter (is_graded E) (iter_questions s). unwrap_or (q_points q) 0)"
proof -
  have "(\<Sum>q \<leftarrow> qs. awarded E v q) \<le> (\<Sum>q \<leftarrow> filter (is_graded E) qs. unwrap_or (q_points q) 0)" for qs
  proof (induction qs)
    case (Cons q qs)
    then show ?case using awarded_le_points [of E v q] by auto
  qed simp
  then show ?thesis
    unfolding compute_quiz_score_sum by (rule min.coboundedI2)
qed

end
