(* ===== verification/FormAdmin.thy ===== *)
theory FormAdmin
  imports Access Submit FormSanity
begin

text \<open>
  \<open>routes/admin.rs\<close>, the forms: list, create, read, save, delete, duplicate, the responses and the
  view permission. The guild and the ids are the path's segments, the body is the decoded one. A best
  effort enqueue that fails is only logged. Random slugs and tokens draw from \<open>st_pick\<close>.
\<close>

subsection \<open>Shared pieces\<close>

definition find_form :: "str \<Rightarrow> str \<Rightarrow> db \<Rightarrow> form_row option" where
  "find_form form_id guild_id d = find (\<lambda>f. fm_id f = form_id \<and> fm_guild_id f = guild_id) (db_forms d)"

definition admin_write :: "env \<Rightarrow> site \<Rightarrow> request \<Rightarrow> str option \<Rightarrow> str \<Rightarrow> str act" where
  "admin_write E S rq cookie guild_id =
     act_bind (act_result (verify_origin rq (st_origins S))) (\<lambda>_. require_manager E S cookie guild_id)"

definition parse_form_id :: "site \<Rightarrow> str \<Rightarrow> str act" where
  "parse_form_id S form_id = act_result (ok_or (st_parse_uuid S form_id) (EBadRequest ''Invalid form id.''))"

definition best_effort :: "unit act \<Rightarrow> unit act" where
  "best_effort m = act_match m act_ok (\<lambda>_. act_ok ())"

fun enqueue_links :: "env \<Rightarrow> (str \<times> str) list \<Rightarrow> unit act" where
  "enqueue_links E [] = act_ok ()"
| "enqueue_links E ((g, r) # links) =
     act_bind (best_effort (enqueue_config_sync E g r)) (\<lambda>_. enqueue_links E links)"

definition bound_links :: "str \<Rightarrow> db \<Rightarrow> (str \<times> str) list" where
  "bound_links form_id d = map link_key (filter (\<lambda>l. rl_form_id l = Some form_id) (db_role_links d))"

definition response_count :: "str \<Rightarrow> db \<Rightarrow> nat" where
  "response_count form_id d = length (filter (\<lambda>r. fr_form_id r = form_id) (db_responses d))"

definition json_count :: "nat \<Rightarrow> json" where "json_count n = JNum (PosInt n)"

definition form_not_found :: app_error where "form_not_found = ENotFound ''Form not found.''"

definition require_form :: "env \<Rightarrow> str \<Rightarrow> str \<Rightarrow> form_row act" where
  "require_form E form_id guild_id =
     act_bind (db_query E (find_form form_id guild_id)) (\<lambda>f. act_result (ok_or f form_not_found))"

subsection \<open>Random names\<close>

definition slug_chars :: str where "slug_chars = ''abcdefghijkmnpqrstuvwxyz23456789''"

definition random_slug :: "site \<Rightarrow> nat \<Rightarrow> str" where
  "random_slug S t = map (\<lambda>i. slug_chars ! (st_pick S t i mod length slug_chars)) [12..<20]"

definition random_preview_token :: "site \<Rightarrow> nat \<Rightarrow> str" where
  "random_preview_token S t = st_b64 S (map (\<lambda>i. char_of (st_pick S t i mod 256)) [0..<12])"

subsection \<open>Listing\<close>

definition view_permission_of :: "str \<Rightarrow> db \<Rightarrow> str" where
  "view_permission_of guild_id d = unwrap_or (map_of (db_settings d) guild_id) ''managers''"

definition form_item :: "site \<Rightarrow> db \<Rightarrow> form_row \<Rightarrow> json" where
  "form_item S d f = JObj [(''archived'', JBool (fm_archived f)),
     (''bound_role_links_count'', json_count (length (bound_links (fm_id f) d))), (''id'', JStr (fm_id f)),
     (''is_quiz'', JBool (fm_is_quiz f)), (''response_count'', json_count (response_count (fm_id f) d)),
     (''slug'', JStr (fm_slug f)), (''title'', JStr (fm_title f)),
     (''updated_at'', JStr (st_show_time S (fm_updated_at f)))]"

definition list_data :: "env \<Rightarrow> site \<Rightarrow> request \<Rightarrow> str option \<Rightarrow> str \<Rightarrow> json act" where
  "list_data E S rq cookie guild_id =
     act_bind (require_guild_view_access E S rq cookie guild_id) (\<lambda>_.
     act_bind (db_query E (\<lambda>d. map (form_item S d) (sort_key (\<lambda>f. - fm_updated_at f)
         (filter (\<lambda>f. fm_guild_id f = guild_id) (db_forms d))))) (\<lambda>items.
     act_bind (db_query E (view_permission_of guild_id)) (\<lambda>vp.
     act_ok (JObj [(''forms'', JArr items), (''view_permission'', JStr vp)]))))"

definition upsert_settings :: "str \<Rightarrow> str \<Rightarrow> db \<Rightarrow> db" where
  "upsert_settings guild_id vp d = d\<lparr>db_settings := (guild_id, vp) # filter (\<lambda>(g, _). g \<noteq> guild_id) (db_settings d)\<rparr>"

definition set_view_permission :: "env \<Rightarrow> site \<Rightarrow> request \<Rightarrow> str option \<Rightarrow> str \<Rightarrow> str \<Rightarrow> json act" where
  "set_view_permission E S rq cookie guild_id vp =
     act_bind (admin_write E S rq cookie guild_id) (\<lambda>_.
     if vp = ''members'' \<or> vp = ''managers'' then
       act_bind (db_exec E (upsert_settings guild_id vp)) (\<lambda>_.
       act_ok (JObj [(''success'', JBool True), (''view_permission'', JStr vp)]))
     else act_fail (EBadRequest (''Unknown view_permission '' @ CHR 0x27 # vp @ CHR 0x27 # ''. Use ''
       @ CHR 0x27 # ''members'' @ CHR 0x27 # '' or '' @ CHR 0x27 # ''managers'' @ CHR 0x27 # ''.'')))"

subsection \<open>Creating\<close>

definition template_schema :: "env \<Rightarrow> site \<Rightarrow> str \<Rightarrow> json app_result" where
  "template_schema E S name =
     (let parse = (\<lambda>file. ok_or (e_parse_json E (st_template S file))
            (EInternal (''starter template invalid: '' @ e_json_error E (st_template S file)))) in
      if name = ''application'' then parse ''starter_application.json''
      else if name = ''server_quiz'' then parse ''starter_server_quiz.json''
      else if name = ''blank'' \<or> name = [] then parse ''starter_blank.json''
      else Inl (EBadRequest (''Unknown template '' @ CHR 0x27 # name @ CHR 0x27
        # ''. Use blank, application, or server_quiz.'')))"

definition insert_form :: "env \<Rightarrow> site \<Rightarrow> (str \<Rightarrow> str \<Rightarrow> form_row) \<Rightarrow> str \<Rightarrow> str act" where
  "insert_form E S row slug w =
     db_stmt E (\<lambda>d.
       if slug \<in> fm_slug ` set (db_forms d)
       then Inl (DbReported (Some ''23505'') (Some ''forms_slug_key'') ''duplicate key value violates unique constraint'')
       else let fid = st_new_uuid S (w_tick w) in Inr (fid, d\<lparr>db_forms := db_forms d @ [row fid slug]\<rparr>)) w"

text \<open>At most \<open>n\<close> more draws of a slug.\<close>

fun insert_with_slug :: "nat \<Rightarrow> env \<Rightarrow> site \<Rightarrow> (str \<Rightarrow> str \<Rightarrow> form_row) \<Rightarrow> str \<Rightarrow> json act" where
  "insert_with_slug 0 E S row token = act_fail (EInternal ''slug collision after 5 attempts'')"
| "insert_with_slug (Suc n) E S row token =
     act_bind act_tick (\<lambda>t.
     act_match (insert_form E S row (random_slug S t))
       (\<lambda>fid. act_ok (JObj [(''id'', JStr fid), (''preview_token'', JStr token), (''slug'', JStr (random_slug S t))]))
       (\<lambda>e. case e of
          EDatabase (DbReported code con m) \<Rightarrow>
            if con = Some ''forms_slug_key'' then insert_with_slug n E S row token else act_fail e
        | _ \<Rightarrow> act_fail e))"

definition set_title :: "str \<Rightarrow> json \<Rightarrow> json" where
  "set_title title v = (case v of JObj m \<Rightarrow> JObj (bt_insert ''title'' (JStr title) m) | _ \<Rightarrow> v)"

definition template_passing_score :: "json \<Rightarrow> int option" where
  "template_passing_score v = (case v of
       JObj m \<Rightarrow> (case Option.bind (map_of m ''passing_score'') as_i64 of
           Some n \<Rightarrow> if 0 \<le> n \<and> n \<le> 1000000 then Some n else None
         | None \<Rightarrow> None)
     | _ \<Rightarrow> None)"

definition drop_passing_score :: "json \<Rightarrow> json" where
  "drop_passing_score v = (case v of JObj m \<Rightarrow> JObj (filter (\<lambda>(k, _). k \<noteq> ''passing_score'') m) | _ \<Rightarrow> v)"

text \<open>The columns \<open>create_form\<close> leaves to their defaults.\<close>

definition default_form_row :: "int \<Rightarrow> str \<Rightarrow> str \<Rightarrow> str \<Rightarrow> form_row" where
  "default_form_row now guild_id fid slug =
     \<lparr>fm_id = fid, fm_guild_id = guild_id, fm_slug = slug, fm_title = [], fm_description = [], fm_version = 1,
      fm_schema = JNull, fm_is_quiz = False, fm_open_at = None, fm_close_at = None, fm_allow_edits = False,
      fm_single_submission = True, fm_require_verified = False, fm_min_account_age_days = 0,
      fm_success_message = ''Thanks for your response!'', fm_preview_token = [], fm_webhook_url = None,
      fm_archived = False, fm_passing_score = None, fm_max_attempts = 1, fm_retry_cooldown_seconds = 0,
      fm_retry_policy = ''keep_best'', fm_lock_on_pass = True, fm_updated_at = now\<rparr>"

definition create_form :: "env \<Rightarrow> site \<Rightarrow> request \<Rightarrow> str option \<Rightarrow> str \<Rightarrow> str \<Rightarrow> str option \<Rightarrow> json act" where
  "create_form E S rq cookie guild_id template title =
     act_bind (admin_write E S rq cookie guild_id) (\<lambda>_.
     act_bind (act_result (template_schema E S template)) (\<lambda>raw.
     let titled = (case title of Some t \<Rightarrow> set_title t raw | None \<Rightarrow> raw);
         schema_value = drop_passing_score titled in
     act_bind (act_result (ok_or (form_schema_from_json schema_value)
         (EInternal (''starter template invalid: '' @ st_schema_error S schema_value)))) (\<lambda>parsed.
     act_bind act_now (\<lambda>now.
     act_bind act_tick (\<lambda>t.
     let is_quiz = list_ex (\<lambda>q. q_correct q \<noteq> None \<or> q_points q \<noteq> None) (iter_questions parsed);
         token = random_preview_token S t in
     insert_with_slug 5 E S (\<lambda>fid slug. (default_form_row now guild_id fid slug)\<lparr>
         fm_title := (if str_trim (s_title parsed) = [] then ''Untitled form'' else s_title parsed),
         fm_description := s_description parsed, fm_schema := schema_value, fm_is_quiz := is_quiz,
         fm_passing_score := (if is_quiz then template_passing_score titled else None),
         fm_preview_token := token\<rparr>) token)))))"

definition duplicate_form :: "env \<Rightarrow> site \<Rightarrow> request \<Rightarrow> str option \<Rightarrow> str \<Rightarrow> str \<Rightarrow> json act" where
  "duplicate_form E S rq cookie guild_id form_id =
     act_bind (admin_write E S rq cookie guild_id) (\<lambda>_.
     act_bind (parse_form_id S form_id) (\<lambda>uuid.
     act_bind (require_form E uuid guild_id) (\<lambda>src.
     act_bind act_now (\<lambda>now.
     act_bind act_tick (\<lambda>t.
     let token = random_preview_token S t in
     insert_with_slug 5 E S (\<lambda>fid slug. (default_form_row now guild_id fid slug)\<lparr>
         fm_title := fm_title src @ '' (copy)'', fm_description := fm_description src, fm_schema := fm_schema src,
         fm_is_quiz := fm_is_quiz src, fm_allow_edits := fm_allow_edits src,
         fm_single_submission := fm_single_submission src, fm_passing_score := fm_passing_score src,
         fm_require_verified := fm_require_verified src, fm_min_account_age_days := fm_min_account_age_days src,
         fm_success_message := fm_success_message src, fm_webhook_url := fm_webhook_url src,
         fm_max_attempts := fm_max_attempts src, fm_retry_cooldown_seconds := fm_retry_cooldown_seconds src,
         fm_retry_policy := fm_retry_policy src, fm_lock_on_pass := fm_lock_on_pass src,
         fm_preview_token := token\<rparr>) token)))))"

subsection \<open>Reading\<close>

definition json_time :: "site \<Rightarrow> int option \<Rightarrow> json" where
  "json_time S t = json_opt (\<lambda>x. JStr (st_show_time S x)) t"

definition builder_json :: "site \<Rightarrow> form_row \<Rightarrow> nat \<Rightarrow> nat \<Rightarrow> json" where
  "builder_json S f responses links = JObj
     [(''allow_edits'', JBool (fm_allow_edits f)), (''archived'', JBool (fm_archived f)),
      (''bound_role_links_count'', json_count links), (''close_at'', json_time S (fm_close_at f)),
      (''description'', JStr (fm_description f)), (''id'', JStr (fm_id f)), (''is_quiz'', JBool (fm_is_quiz f)),
      (''lock_on_pass'', JBool (fm_lock_on_pass f)), (''max_attempts'', json_of_i64 (fm_max_attempts f)),
      (''min_account_age_days'', json_of_i64 (fm_min_account_age_days f)), (''open_at'', json_time S (fm_open_at f)),
      (''passing_score'', json_opt json_of_i64 (fm_passing_score f)), (''preview_token'', JStr (fm_preview_token f)),
      (''require_verified'', JBool (fm_require_verified f)), (''response_count'', json_count responses),
      (''retry_cooldown_seconds'', json_of_i64 (fm_retry_cooldown_seconds f)), (''retry_policy'', JStr (fm_retry_policy f)),
      (''schema'', fm_schema f), (''single_submission'', JBool (fm_single_submission f)), (''slug'', JStr (fm_slug f)),
      (''success_message'', JStr (fm_success_message f)), (''title'', JStr (fm_title f)),
      (''version'', json_of_i64 (fm_version f)), (''webhook_url'', json_opt JStr (fm_webhook_url f))]"

text \<open>The counts join the form's own id, so an id in another spelling counts nothing.\<close>

definition builder_data :: "env \<Rightarrow> site \<Rightarrow> request \<Rightarrow> str option \<Rightarrow> str \<Rightarrow> str \<Rightarrow> json act" where
  "builder_data E S rq cookie guild_id form_id =
     act_bind (require_guild_view_access E S rq cookie guild_id) (\<lambda>_.
     act_bind (parse_form_id S form_id) (\<lambda>uuid.
     act_bind (require_form E uuid guild_id) (\<lambda>f.
     act_bind (db_query E (\<lambda>d. if find_form form_id guild_id d = None then 0 else response_count form_id d)) (\<lambda>responses.
     act_bind (db_query E (\<lambda>d. if find_form form_id guild_id d = None then 0 else length (bound_links form_id d))) (\<lambda>links.
     act_ok (builder_json S f responses links))))))"

definition response_json :: "site \<Rightarrow> response_row \<Rightarrow> json" where
  "response_json S r = JObj [(''answers'', fr_answers r), (''attempt_count'', json_of_i64 (fr_attempt_count r)),
     (''discord_id'', JStr (fr_discord_id r)), (''id'', JStr (fr_id r)),
     (''last_edited_at'', JStr (st_show_time S (fr_last_edited_at r))), (''passed'', json_opt JBool (fr_passed r)),
     (''submitted_at'', JStr (st_show_time S (fr_submitted_at r))), (''total_score'', json_opt json_of_i64 (fr_total_score r))]"

definition responses_data :: "env \<Rightarrow> site \<Rightarrow> request \<Rightarrow> str option \<Rightarrow> str \<Rightarrow> str \<Rightarrow> json act" where
  "responses_data E S rq cookie guild_id form_id =
     act_bind (require_guild_view_access E S rq cookie guild_id) (\<lambda>_.
     act_bind (parse_form_id S form_id) (\<lambda>uuid.
     act_bind (require_form E uuid guild_id) (\<lambda>f.
     act_bind (db_query E (\<lambda>d. take 1000 (sort_key (\<lambda>r. - fr_last_edited_at r)
         (filter (\<lambda>r. fr_form_id r = form_id) (db_responses d))))) (\<lambda>rows.
     act_ok (JObj [(''is_quiz'', JBool (fm_is_quiz f)), (''preview_token'', JStr (fm_preview_token f)),
       (''responses'', JArr (map (response_json S) rows)), (''schema'', fm_schema f), (''slug'', JStr (fm_slug f)),
       (''title'', JStr (fm_title f))])))))"

end
