(* ===== verification/Pages.thy ===== *)
theory Pages
  imports Submit "HOL-Library.Multiset"
begin

text \<open>
  \<open>routes/form_render.rs\<close>, the pages: the form page with its redacted and shuffled schema, the retry
  status it shows, the status and sign-in pages. A page keeps what is substituted into its markup,
  already escaped; of the form page also the JSON embedded in it.
\<close>

subsection \<open>The retry status\<close>

record shown_status =
  as_blocked :: bool
  as_reason :: "str option"
  as_next :: "int option"

definition attempt_status :: "retry_config \<Rightarrow> existing_attempt option \<Rightarrow> int \<Rightarrow> shown_status" where
  "attempt_status c existing now =
     (case existing of
        None \<Rightarrow> \<lparr>as_blocked = False, as_reason = None, as_next = None\<rparr>
      | Some e \<Rightarrow>
          if rc_lock_on_pass c \<and> ea_passed e = Some True
          then \<lparr>as_blocked = True, as_reason = Some ''passed'', as_next = None\<rparr>
          else if rc_max_attempts c > 0 \<and> ea_attempt_count e \<ge> rc_max_attempts c
          then \<lparr>as_blocked = True, as_reason = Some ''exhausted'', as_next = None\<rparr>
          else if rc_cooldown_seconds c > 0 \<and> now < next_attempt_at c e
          then \<lparr>as_blocked = False, as_reason = None, as_next = Some (next_attempt_at c e)\<rparr>
          else \<lparr>as_blocked = False, as_reason = None, as_next = None\<rparr>)"

definition build_retry_status :: "(int \<Rightarrow> str) \<Rightarrow> retry_config \<Rightarrow> existing_attempt option \<Rightarrow> int \<Rightarrow> json" where
  "build_retry_status show_time c existing now =
     (let used = (case existing of Some e \<Rightarrow> ea_attempt_count e | None \<Rightarrow> 0);
          left = (if rc_max_attempts c > 0 then Some (max (rc_max_attempts c - used) 0) else None);
          st = attempt_status c existing now;
          passed = (case existing of Some e \<Rightarrow> ea_passed e | None \<Rightarrow> None)
      in JObj [(''attempts_left'', json_opt json_of_i64 left), (''attempts_used'', json_of_i64 used),
           (''blocked'', JBool (as_blocked st)), (''blocked_reason'', json_opt JStr (as_reason st)),
           (''cooldown_seconds'', json_of_i64 (rc_cooldown_seconds c)), (''enabled'', JBool (retries_enabled c)),
           (''max_attempts'', json_of_i64 (rc_max_attempts c)),
           (''next_attempt_at'', json_opt (\<lambda>t. JStr (show_time t)) (as_next st)),
           (''passed'', json_opt JBool passed)])"

subsection \<open>The schema sent to the browser\<close>

text \<open>\<open>if let Some(a) = v.get_mut(k).and_then(as_array_mut)\<close> with a change of the array.\<close>

definition with_array :: "str \<Rightarrow> (json list \<Rightarrow> json list) \<Rightarrow> json \<Rightarrow> json" where
  "with_array k f v = (case v of
       JObj m \<Rightarrow> JObj (map (\<lambda>(k', x). (k', if k' = k then (case x of JArr a \<Rightarrow> JArr (f a) | _ \<Rightarrow> x) else x)) m)
     | _ \<Rightarrow> v)"

definition redact_question :: "json \<Rightarrow> json" where
  "redact_question q = (case q of
       JObj m \<Rightarrow> JObj (filter (\<lambda>(k, _). k \<noteq> ''correct'' \<and> k \<noteq> ''points'') m)
     | _ \<Rightarrow> q)"

definition redact_answer_keys :: "json \<Rightarrow> json" where
  "redact_answer_keys schema = with_array ''pages'' (map (with_array ''questions'' (map redact_question))) schema"

definition shuffles_options :: "json \<Rightarrow> bool" where
  "shuffles_options q \<longleftrightarrow> (case Option.bind (jget q ''kind'') as_str of
       Some k \<Rightarrow> k = ''single_choice'' \<or> k = ''multi_choice'' \<or> k = ''dropdown''
     | None \<Rightarrow> False)"

text \<open>\<open>sh [i]\<close> reorders the questions of page \<open>i\<close>, \<open>sh [i, j]\<close> the options of its question \<open>j\<close>.\<close>

definition shuffle_questions :: "(nat list \<Rightarrow> json list \<Rightarrow> json list) \<Rightarrow> bool \<Rightarrow> nat \<Rightarrow> json list \<Rightarrow> json list" where
  "shuffle_questions sh shuffle_options i qs =
     (if shuffle_options
      then map (\<lambda>(j, q). if shuffles_options q then with_array ''options'' (sh [i, j]) q else q) (enumerate 0 (sh [i] qs))
      else sh [i] qs)"

definition shuffle_schema :: "(nat list \<Rightarrow> json list \<Rightarrow> json list) \<Rightarrow> json \<Rightarrow> bool \<Rightarrow> json" where
  "shuffle_schema sh schema shuffle_options =
     with_array ''pages'' (\<lambda>pages. map (\<lambda>(i, page).
       with_array ''questions'' (shuffle_questions sh shuffle_options i) page) (enumerate 0 pages)) schema"

definition prepared_schema :: "(nat list \<Rightarrow> json list \<Rightarrow> json list) \<Rightarrow> form_row \<Rightarrow> json" where
  "prepared_schema sh f =
     (let settings = unwrap_or (Option.bind (jget (fm_schema f) ''settings'') settings_from_json) default_form_settings;
          redacted = redact_answer_keys (fm_schema f)
      in if fm_is_quiz f \<or> fs_shuffle_questions settings then shuffle_schema sh redacted (fm_is_quiz f) else redacted)"

subsection \<open>Pages\<close>

datatype page_view =
    StatusPage str str str  \<comment> \<open>base URL, title, message\<close>
  | SigninPage str str str str str "str option"  \<comment> \<open>base URL, title, description, slug, return address, shown description\<close>
  | FormPage json str  \<comment> \<open>the embedded JSON and the page\<close>

definition render_status_page :: "site \<Rightarrow> str \<Rightarrow> str \<Rightarrow> page_view" where
  "render_status_page S form_title message = StatusPage (st_base_url S) (escape_html form_title) (escape_html message)"

definition render_signin_page :: "site \<Rightarrow> form_row \<Rightarrow> str \<Rightarrow> page_view" where
  "render_signin_page S f slug =
     (let description = escape_html (fm_description f) in
      SigninPage (st_base_url S) (escape_html (fm_title f)) description (escape_html slug)
        (st_url_encode S (''/form-respondent-role/f/'' @ slug))
        (if fm_description f = [] then None else Some description))"

definition bootstrap_json ::
  "site \<Rightarrow> (nat list \<Rightarrow> json list \<Rightarrow> json list) \<Rightarrow> form_row \<Rightarrow> str \<Rightarrow> str \<Rightarrow> str \<Rightarrow> bool \<Rightarrow> json \<Rightarrow> json" where
  "bootstrap_json S sh f slug discord_id display_name preview retry_status =
     JObj [(''base_url'', JStr (st_base_url S)), (''description'', JStr (fm_description f)),
       (''discord_id'', JStr discord_id), (''display_name'', JStr display_name), (''guild_id'', JStr (fm_guild_id f)),
       (''is_quiz'', JBool (fm_is_quiz f)), (''preview'', JBool preview), (''retry'', retry_status),
       (''schema'', prepared_schema sh f), (''slug'', JStr slug), (''title'', JStr (fm_title f)),
       (''version'', json_of_i64 (fm_version f))]"

definition render_form_page ::
  "env \<Rightarrow> site \<Rightarrow> nat \<Rightarrow> form_row \<Rightarrow> str \<Rightarrow> str \<Rightarrow> str \<Rightarrow> bool \<Rightarrow> json \<Rightarrow> page_view" where
  "render_form_page E S t f slug discord_id display_name preview retry_status =
     (let boot = bootstrap_json S (st_shuffle S t) f slug discord_id display_name preview retry_status
      in FormPage boot
        (str_replace ''__SLUG__'' (escape_html slug)
        (str_replace ''__DESCRIPTION__'' (escape_html (fm_description f))
        (str_replace ''__TITLE__'' (escape_html (fm_title f))
        (str_replace ''__BASE_URL__'' (st_base_url S)
        (str_replace ''__BOOTSTRAP__'' (json_text (e_crates E) boot) (st_template S ''render.html'')))))))"

definition load_form :: "env \<Rightarrow> str \<Rightarrow> form_row act" where
  "load_form E slug =
     act_bind (db_query E (find_form_by_slug slug)) (\<lambda>row. act_result (ok_or row (EFormNotFound slug)))"

text \<open>The membership check of the page: every outcome but membership is a page of its own.\<close>

definition membership_page :: "env \<Rightarrow> site \<Rightarrow> form_row \<Rightarrow> str \<Rightarrow> page_view option act" where
  "membership_page E S f discord_id =
     (if fm_require_verified f then
        act_match (fetch_user_guild_ids E (sc_gateway (st_config S)) (sc_internal_key (st_config S)) discord_id)
          (\<lambda>guild_ids. act_ok (if fm_guild_id f \<in> set guild_ids then None
             else Some (render_status_page S (fm_title f)
               ''You must be a member of the server before you can submit this form.'')))
          (\<lambda>_. act_ok (Some (render_status_page S (fm_title f)
             (''We couldn'' @ [CHR 0x27] @ ''t verify your server membership right now. Please refresh in a moment.''))))
      else act_ok None)"

definition retry_status :: "env \<Rightarrow> site \<Rightarrow> form_row \<Rightarrow> str \<Rightarrow> int \<Rightarrow> json act" where
  "retry_status E S f discord_id now =
     (if is_retry_governed (fm_single_submission f) (fm_allow_edits f) (fm_is_quiz f) then
        act_bind (db_query E (canonical_attempt (fm_id f) discord_id)) (\<lambda>existing.
        act_ok (build_retry_status (st_show_time S) (retry_config_from_form f) (map_option existing_of existing) now))
      else act_ok JNull)"

definition member_page :: "env \<Rightarrow> site \<Rightarrow> form_row \<Rightarrow> str \<Rightarrow> str \<Rightarrow> str \<Rightarrow> int \<Rightarrow> page_view act" where
  "member_page E S f slug discord_id display_name now =
     (if too_young now f discord_id then
        act_ok (render_status_page S (fm_title f)
          (''Your Discord account must be at least '' @ show_int (fm_min_account_age_days f)
           @ '' days old to submit this form (yours is ''
           @ show_int (unwrap_or (discord_account_age_days now discord_id) 0) @ '' days).''))
      else act_bind (membership_page E S f discord_id) (\<lambda>denied.
        case denied of
          Some pg \<Rightarrow> act_ok pg
        | None \<Rightarrow>
            act_bind (retry_status E S f discord_id now) (\<lambda>status.
            act_bind act_tick (\<lambda>t.
            act_ok (render_form_page E S t f slug discord_id display_name False status)))))"

definition closed_message :: "site \<Rightarrow> form_row \<Rightarrow> int \<Rightarrow> str option" where
  "closed_message S f now =
     (let closed = (case fm_close_at f of
          Some t \<Rightarrow> if now > t then Some ''This form is no longer accepting submissions.'' else None
        | None \<Rightarrow> None)
      in case fm_open_at f of
          Some t \<Rightarrow> if now < t then Some (''This form opens at '' @ st_show_time S t @ ''.'') else closed
        | None \<Rightarrow> closed)"

definition get_form :: "env \<Rightarrow> site \<Rightarrow> str option \<Rightarrow> str \<Rightarrow> page_view act" where
  "get_form E S cookie slug =
     act_bind (load_form E slug) (\<lambda>f.
     if fm_archived f then act_fail (EFormNotFound slug)
     else act_bind act_now (\<lambda>now.
       case closed_message S f now of
         Some message \<Rightarrow> act_ok (render_status_page S (fm_title f) message)
       | None \<Rightarrow> (case Option.bind cookie (session_of S now) of
             None \<Rightarrow> act_ok (render_signin_page S f slug)
           | Some (discord_id, display_name) \<Rightarrow> member_page E S f slug discord_id display_name now)))"

definition get_preview :: "env \<Rightarrow> site \<Rightarrow> str \<Rightarrow> str \<Rightarrow> page_view act" where
  "get_preview E S slug token =
     act_bind (load_form E slug) (\<lambda>f.
     if \<not> constant_time_eq token (fm_preview_token f) then act_fail (EForbidden ''Invalid preview token.'')
     else act_bind act_tick (\<lambda>t.
       act_ok (render_form_page E S t f slug ''preview'' ''Preview'' True JNull)))"

definition get_done :: "site \<Rightarrow> str" where
  "get_done S = str_replace ''__BASE_URL__'' (st_base_url S) (st_template S ''done.html'')"

subsection \<open>What preparing a schema keeps and removes\<close>

definition array_at :: "str \<Rightarrow> json \<Rightarrow> json list" where
  "array_at k v = (case jget v k of Some (JArr a) \<Rightarrow> a | _ \<Rightarrow> [])"

definition keyless :: "json \<Rightarrow> bool" where
  "keyless q \<longleftrightarrow> jget q ''correct'' = None \<and> jget q ''points'' = None"

text \<open>Every other member of a question, its options up to order.\<close>

definition question_view :: "json \<Rightarrow> (str \<Rightarrow> json option) \<times> json multiset" where
  "question_view q = ((\<lambda>k. if k = ''correct'' \<or> k = ''points'' \<or> k = ''options'' then None else jget q k),
     mset (array_at ''options'' q))"

lemma map_of_map_val: "map_of (map (\<lambda>(k, x). (k, g k x)) m) j = map_option (g j) (map_of m j)"
  by (induction m) auto

lemma jget_with_array: "jget (with_array k f v) j =
    (if j = k then map_option (\<lambda>x. case x of JArr a \<Rightarrow> JArr (f a) | _ \<Rightarrow> x) (jget v k) else jget v j)"
  by (cases v) (auto simp: with_array_def jget_def map_of_map_val option.map_id0 [unfolded id_def])

lemma array_at_same: "f [] = [] \<Longrightarrow> array_at k (with_array k f v) = f (array_at k v)"
  by (auto simp: array_at_def jget_with_array split: option.split json.split)

lemma array_at_other: "j \<noteq> k \<Longrightarrow> array_at j (with_array k f v) = array_at j v"
  by (simp add: array_at_def jget_with_array)

lemma map_of_filter_key: "map_of (filter (\<lambda>(k, _). P k) m) j = (if P j then map_of m j else None)"
  by (induction m) auto

lemma jget_redact: "jget (redact_question q) k = (if k = ''correct'' \<or> k = ''points'' then None else jget q k)"
  by (cases q) (simp_all add: redact_question_def jget_def map_of_filter_key [of "\<lambda>k. k \<noteq> ''correct'' \<and> k \<noteq> ''points''"])

lemma keyless_redact [simp]: "keyless (redact_question q)"
  by (simp add: keyless_def jget_redact)

lemma view_redact [simp]: "question_view (redact_question q) = question_view q"
  by (auto simp: question_view_def jget_redact array_at_def fun_eq_iff)

text \<open>What the random reorderings keep: \<open>shuffle\<close> permutes its slice.\<close>

definition reordering :: "(nat list \<Rightarrow> json list \<Rightarrow> json list) \<Rightarrow> bool" where
  "reordering sh \<longleftrightarrow> (\<forall>p xs. mset (sh p xs) = mset xs)"

lemma reordering_items: "reordering sh \<Longrightarrow> mset (sh p xs) = mset xs"
  by (simp add: reordering_def)

lemma reordering_Nil: "reordering sh \<Longrightarrow> sh p [] = []"
  using reordering_items [of sh p "[]"] by simp

lemma reordering_set: "reordering sh \<Longrightarrow> set (sh p xs) = set xs"
  by (metis reordering_items set_mset_mset)

definition reordered :: "(json list \<Rightarrow> json list) \<Rightarrow> json \<Rightarrow> json" where
  "reordered f q = (if shuffles_options q then with_array ''options'' f q else q)"

lemma keyless_reordered [simp]: "keyless (reordered f q) = keyless q"
  by (simp add: reordered_def keyless_def jget_with_array)

lemma view_reordered: "reordering sh \<Longrightarrow> question_view (reordered (sh p) q) = question_view q"
  by (auto simp: reordered_def question_view_def jget_with_array array_at_same reordering_items reordering_Nil fun_eq_iff)

lemma shuffle_questions_reordered: "shuffle_questions sh opts i qs =
    (if opts then map (\<lambda>(j, q). reordered (sh [i, j]) q) (enumerate 0 (sh [i] qs)) else sh [i] qs)"
  by (simp add: shuffle_questions_def reordered_def)

lemma map_enumerate: "map (\<lambda>x. f (snd x)) (enumerate n xs) = map f xs"
  by (induction xs arbitrary: n) auto

lemma shuffle_questions_view:
  assumes "reordering sh"
  shows "image_mset question_view (mset (shuffle_questions sh opts i qs)) = image_mset question_view (mset qs)"
proof -
  have "map question_view (map (\<lambda>(j, q). reordered (sh [i, j]) q) (enumerate 0 (sh [i] qs))) = map question_view (sh [i] qs)"
    using map_enumerate [of question_view 0 "sh [i] qs"] by (simp add: comp_def split_beta view_reordered [OF assms])
  then have "image_mset question_view (mset (shuffle_questions sh opts i qs)) = mset (map question_view (sh [i] qs))"
    unfolding shuffle_questions_reordered by (simp flip: mset_map)
  then show ?thesis by (simp add: reordering_items [OF assms])
qed

lemma shuffle_questions_keyless:
  assumes "reordering sh" and "\<And>q. q \<in> set qs \<Longrightarrow> keyless q" and "q \<in> set (shuffle_questions sh opts i qs)"
  shows "keyless q"
proof -
  have "keyless q'" if "q' \<in> set (sh [i] qs)" for q' using that assms(2) reordering_set [OF assms(1)] by blast
  then show ?thesis using assms(3) unfolding shuffle_questions_reordered
    by (auto split: if_splits simp: in_set_enumerate_eq)
qed

lemma shuffle_questions_Nil: "reordering sh \<Longrightarrow> shuffle_questions sh opts i [] = []"
  by (simp add: shuffle_questions_reordered reordering_Nil)

lemma redacted_pages: "array_at ''pages'' (redact_answer_keys v) = map (with_array ''questions'' (map redact_question)) (array_at ''pages'' v)"
  by (simp add: redact_answer_keys_def array_at_same)

lemma shuffled_pages: "array_at ''pages'' (shuffle_schema sh v opts) =
    map (\<lambda>(i, page). with_array ''questions'' (shuffle_questions sh opts i) page) (enumerate 0 (array_at ''pages'' v))"
  by (simp add: shuffle_schema_def array_at_same)

lemma redacted_questions: "array_at ''questions'' (with_array ''questions'' (map redact_question) page)
    = map redact_question (array_at ''questions'' page)"
  by (simp add: array_at_same)

text \<open>The questions of each page, in order.\<close>

definition questions_by_page :: "json \<Rightarrow> json list list" where
  "questions_by_page v = map (array_at ''questions'') (array_at ''pages'' v)"

lemma redact_by_page: "questions_by_page (redact_answer_keys v) = map (map redact_question) (questions_by_page v)"
  by (simp add: questions_by_page_def redacted_pages redacted_questions comp_def)

lemma shuffle_by_page:
  assumes "reordering sh"
  shows "questions_by_page (shuffle_schema sh v opts) =
    map (\<lambda>(i, qs). shuffle_questions sh opts i qs) (enumerate 0 (questions_by_page v))"
proof -
  have "map (\<lambda>x. shuffle_questions sh opts (fst x) (array_at ''questions'' (snd x))) (enumerate n ps)
      = map (\<lambda>x. shuffle_questions sh opts (fst x) (snd x)) (enumerate n (map (array_at ''questions'') ps))" for n ps
    by (induction ps arbitrary: n) auto
  then show ?thesis
    by (simp add: questions_by_page_def shuffled_pages comp_def split_beta array_at_same shuffle_questions_Nil assms)
qed

lemma map_view_enumerate:
  assumes "reordering sh"
  shows "map (\<lambda>x. image_mset question_view (mset (shuffle_questions sh opts (fst x) (snd x)))) (enumerate n qss)
    = map (\<lambda>qs. image_mset question_view (mset qs)) qss"
  using map_enumerate [of "\<lambda>qs. image_mset question_view (mset qs)" n qss]
  by (simp add: shuffle_questions_view [OF assms])

lemma view_redact_mset [simp]: "image_mset question_view (image_mset redact_question M) = image_mset question_view M"
  by (simp add: multiset.map_comp comp_def)

lemma prepared_views:
  assumes "reordering sh"
  shows "map (\<lambda>qs. image_mset question_view (mset qs)) (questions_by_page (prepared_schema sh f))
    = map (\<lambda>qs. image_mset question_view (mset qs)) (questions_by_page (fm_schema f))"
  unfolding prepared_schema_def Let_def
  by (simp add: redact_by_page shuffle_by_page [OF assms] comp_def split_beta map_view_enumerate [OF assms])

lemma prepared_keyless:
  assumes "reordering sh" and "qs \<in> set (questions_by_page (prepared_schema sh f))" and "q \<in> set qs"
  shows "keyless q"
proof -
  let ?r = "redact_answer_keys (fm_schema f)"
  have r: "keyless q" if "qs \<in> set (questions_by_page ?r)" "q \<in> set qs" for qs q
    using that by (auto simp: redact_by_page)
  show ?thesis
  proof (cases "qs \<in> set (questions_by_page ?r)")
    case True
    then show ?thesis using r assms(3) by blast
  next
    case False
    then have "qs \<in> set (questions_by_page (shuffle_schema sh ?r (fm_is_quiz f)))"
      using assms(2) unfolding prepared_schema_def Let_def by (auto split: if_splits)
    then obtain i ps where "ps \<in> set (questions_by_page ?r)" "qs = shuffle_questions sh (fm_is_quiz f) i ps"
      unfolding shuffle_by_page [OF assms(1)] by (auto simp: in_set_enumerate_eq) (metis nth_mem)
    then show ?thesis using shuffle_questions_keyless [OF assms(1)] r assms(3) by blast
  qed
qed

lemma form_page_bootstrap:
  assumes "render_form_page E S t f slug u name preview status = FormPage boot body"
  shows "jget boot ''schema'' = Some (prepared_schema (st_shuffle S t) f)"
  using assms by (auto simp: render_form_page_def Let_def bootstrap_json_def)

lemma get_form_page:
  assumes "get_form E S cookie slug w = (Inr (FormPage boot body), w')"
  shows "\<exists>f t. find_form_by_slug slug (w_db w) = Some f \<and> \<not> fm_archived f
    \<and> jget boot ''schema'' = Some (prepared_schema (st_shuffle S t) f)"
proof -
  have member: "\<exists>t. jget boot ''schema'' = Some (prepared_schema (st_shuffle S t) f)"
    if "member_page E S f slug u name now w1 = (Inr (FormPage boot body), w')" for f u name now w1
    using that form_page_bootstrap
    by (fastforce simp: member_page_def membership_page_def act_Inr act_match_def render_status_page_def
        split: if_splits option.splits prod.splits sum.splits)
  show ?thesis
    using assms member
    by (fastforce simp: get_form_def load_form_def act_Inr ok_or_Inr_iff render_status_page_def render_signin_page_def Let_def
        split: if_splits option.splits)
qed

lemma get_preview_page:
  assumes "get_preview E S slug token w = (Inr (FormPage boot body), w')"
  shows "\<exists>f t. find_form_by_slug slug (w_db w) = Some f \<and> token = fm_preview_token f
    \<and> jget boot ''schema'' = Some (prepared_schema (st_shuffle S t) f)"
  using assms form_page_bootstrap
  by (fastforce simp: get_preview_def load_form_def act_Inr ok_or_Inr_iff constant_time_eq_iff split: if_splits)

lemma sample_reordering: "\<forall>t. reordering (st_shuffle sample_site t)"
  by (simp add: reordering_def sample_site_def)

lemma sample_preview:
  "\<exists>boot body w'. get_preview (sample_env rp) sample_site ''join'' ''p'' form_world = (Inr (FormPage boot body), w')"
proof -
  have "find_form_by_slug ''join'' (w_db form_world) = Some sample_form_row" "constant_time_eq ''p'' (fm_preview_token sample_form_row)"
    by (simp_all add: find_form_by_slug_def form_world_def sample_world_def sample_form_row_def constant_time_eq_iff)
  then show ?thesis
    by (simp add: get_preview_def load_form_def act_bind_def db_query_def db_stmt_def sample_selectors act_result_def
        act_tick_def render_form_page_def Let_def del: str_replace.simps)
qed

subsection \<open>Properties\<close>

text \<open>C20: the answer keys never reach a browser: in every form page that is served, to a member or as a
  preview, no question of the embedded schema has a \<open>correct\<close> or a \<open>points\<close> member, whatever the
  stored schema looks like.\<close>

theorem answer_keys_hidden:
  assumes "\<forall>t. reordering (st_shuffle S t)"
    and "get_form E S cookie slug w = (Inr (FormPage boot body), w')
      \<or> get_preview E S slug token w = (Inr (FormPage boot body), w')"
  shows "\<exists>schema. jget boot ''schema'' = Some schema
    \<and> (\<forall>qs \<in> set (questions_by_page schema). \<forall>q \<in> set qs. jget q ''correct'' = None \<and> jget q ''points'' = None)"
proof -
  obtain f t where "jget boot ''schema'' = Some (prepared_schema (st_shuffle S t) f)"
    using assms(2) get_form_page get_preview_page by blast
  moreover have "reordering (st_shuffle S t)" using assms(1) by blast
  ultimately show ?thesis using prepared_keyless by (auto simp: keyless_def)
qed

theorem answer_keys_hidden_witness:
  "\<exists>boot body w' schema. get_preview (sample_env (HttpReply 200 [])) sample_site ''join'' ''p'' form_world = (Inr (FormPage boot body), w')
    \<and> jget boot ''schema'' = Some schema
    \<and> (\<forall>qs \<in> set (questions_by_page schema). \<forall>q \<in> set qs. jget q ''correct'' = None \<and> jget q ''points'' = None)
    \<and> list_ex (\<lambda>qs. list_ex (\<lambda>q. jget q ''correct'' = Some (JStr ''ann'')) qs) (questions_by_page (fm_schema sample_form_row))"
proof -
  have stored: "list_ex (\<lambda>qs. list_ex (\<lambda>q. jget q ''correct'' = Some (JStr ''ann'')) qs) (questions_by_page (fm_schema sample_form_row))"
    by code_simp
  obtain boot body w' where pg: "get_preview (sample_env (HttpReply 200 [])) sample_site ''join'' ''p'' form_world = (Inr (FormPage boot body), w')"
    using sample_preview by blast
  show ?thesis using answer_keys_hidden [OF sample_reordering disjI2 [OF pg]] pg stored by blast
qed

text \<open>Redaction and shuffling change nothing else: page by page the browser gets the same questions
  up to order, each with all its other members and its options up to order, so the answers given on
  the page are the ones the stored form asks for.\<close>

lemma prepared_schema_keeps_questions:
  assumes "reordering sh"
  shows "map (\<lambda>qs. image_mset question_view (mset qs)) (questions_by_page (prepared_schema sh f))
    = map (\<lambda>qs. image_mset question_view (mset qs)) (questions_by_page (fm_schema f))"
  by (rule prepared_views [OF assms])

text \<open>The page tells the member what the submission will answer: at the same instant and for any
  new attempt, the status is blocked, with the reason, exactly when the gate refuses for good, shows a
  next attempt exactly when the gate is in its cooldown, and shows neither when it accepts.\<close>

lemma retry_status_agrees:
  "jget (build_retry_status show_time c existing now) ''blocked_reason'' = Some (case decide now c existing n of
       Inl DenyAlreadyPassed \<Rightarrow> JStr ''passed'' | Inl (DenyAttemptsExhausted _) \<Rightarrow> JStr ''exhausted'' | _ \<Rightarrow> JNull)
   \<and> jget (build_retry_status show_time c existing now) ''blocked'' = Some (JBool (case decide now c existing n of
       Inl DenyAlreadyPassed \<Rightarrow> True | Inl (DenyAttemptsExhausted _) \<Rightarrow> True | _ \<Rightarrow> False))
   \<and> jget (build_retry_status show_time c existing now) ''next_attempt_at'' = Some (case decide now c existing n of
       Inl (DenyCooldown _ t) \<Rightarrow> JStr (show_time t) | _ \<Rightarrow> JNull)"
  by (cases existing) (simp_all add: build_retry_status_def Let_def attempt_status_def decide_def json_opt_def)

end
