(* ===== verification/FormSave.thy ===== *)
theory FormSave
  imports FormAdmin Pages
begin

text \<open>
  \<open>routes/admin.rs\<close>, the changes to a stored form and its responses: saving with its checks and
  its optimistic version, deleting, and clearing responses, with the re-syncs they queue.
\<close>

subsection \<open>Saving\<close>

record update_body =
  ub_title :: str
  ub_description :: str
  ub_schema :: json
  ub_is_quiz :: bool
  ub_open_at :: "int option"
  ub_close_at :: "int option"
  ub_allow_edits :: bool
  ub_single_submission :: bool
  ub_passing_score :: "int option"
  ub_require_verified :: bool
  ub_min_account_age_days :: int
  ub_success_message :: str
  ub_webhook_url :: "str option"
  ub_archived :: bool
  ub_max_attempts :: int
  ub_retry_cooldown_seconds :: int
  ub_retry_policy :: str
  ub_lock_on_pass :: bool
  ub_version :: int

definition max_retry_attempts :: int where "max_retry_attempts = 50"
definition max_retry_cooldown_seconds :: int where "max_retry_cooldown_seconds = 90 * 24 * 60 * 60"

definition space :: str where "space = [CHR 0x20]"

definition titled_schema :: "update_body \<Rightarrow> json" where
  "titled_schema b = (case ub_schema b of
       JObj m \<Rightarrow> JObj (bt_insert ''description'' (JStr (ub_description b)) (bt_insert ''title'' (JStr (ub_title b)) m))
     | v \<Rightarrow> v)"

definition bad_request :: "bool \<Rightarrow> str \<Rightarrow> unit app_result" where
  "bad_request bad m = (if bad then Inl (EBadRequest m) else Inr ())"

definition joined_errors :: "(str list, unit) result \<Rightarrow> unit app_result" where
  "joined_errors r = (case r of Inl errs \<Rightarrow> Inl (EBadRequest (str_join space errs)) | Inr _ \<Rightarrow> Inr ())"

definition check_schema :: "env \<Rightarrow> site \<Rightarrow> update_body \<Rightarrow> form_schema app_result" where
  "check_schema E S b =
     try_bind (ok_or (form_schema_from_json (titled_schema b))
         (EBadRequest (''Schema is not a valid form definition: '' @ st_schema_error S (titled_schema b)))) (\<lambda>parsed.
     try_bind (joined_errors (sanity_check parsed)) (\<lambda>_.
     try_bind (if ub_is_quiz b then joined_errors (validate_quiz_keys (e_crates E) parsed) else Inr ()) (\<lambda>_.
     Inr parsed)))"

definition check_settings :: "site \<Rightarrow> update_body \<Rightarrow> unit app_result" where
  "check_settings S b =
     try_bind (bad_request (ub_min_account_age_days b < 0 \<or> ub_min_account_age_days b > 3650)
       ''min_account_age_days must be between 0 and 3650.'') (\<lambda>_.
     try_bind (bad_request (case ub_passing_score b of Some s \<Rightarrow> \<not> (0 \<le> s \<and> s \<le> 1000000) | None \<Rightarrow> False)
       ''passing_score must be between 0 and 1,000,000.'') (\<lambda>_.
     try_bind (bad_request (case ub_webhook_url b of Some u \<Rightarrow> u \<noteq> [] \<and> \<not> is_safe_url (st_net S) u | None \<Rightarrow> False)
       ''webhook_url must be an https:// URL on a public host.'') (\<lambda>_.
     try_bind (bad_request (\<not> (0 \<le> ub_max_attempts b \<and> ub_max_attempts b \<le> max_retry_attempts))
       (''max_attempts must be between 0 (unlimited) and '' @ show_int max_retry_attempts @ ''.'')) (\<lambda>_.
     try_bind (bad_request (\<not> (0 \<le> ub_retry_cooldown_seconds b \<and> ub_retry_cooldown_seconds b \<le> max_retry_cooldown_seconds))
       ''retry_cooldown_seconds must be between 0 and 7,776,000 (90 days).'') (\<lambda>_.
     bad_request (\<not> (ub_retry_policy b = ''keep_best'' \<or> ub_retry_policy b = ''keep_latest''))
       (''Unknown retry_policy '' @ CHR 0x27 # ub_retry_policy b @ CHR 0x27 # ''. Use '' @ CHR 0x27 # ''keep_best''
        @ CHR 0x27 # '' or '' @ CHR 0x27 # ''keep_latest'' @ CHR 0x27 # ''.''))))))"

definition saved_form :: "update_body \<Rightarrow> int \<Rightarrow> form_row \<Rightarrow> form_row" where
  "saved_form b now f = f\<lparr>fm_title := ub_title b, fm_description := ub_description b, fm_schema := titled_schema b,
     fm_is_quiz := ub_is_quiz b, fm_open_at := ub_open_at b, fm_close_at := ub_close_at b,
     fm_allow_edits := (ub_allow_edits b \<and> \<not> ub_is_quiz b),
     fm_single_submission := (ub_single_submission b \<or> ub_is_quiz b),
     fm_passing_score := (if ub_is_quiz b then ub_passing_score b else None),
     fm_require_verified := ub_require_verified b, fm_min_account_age_days := ub_min_account_age_days b,
     fm_success_message := ub_success_message b,
     fm_webhook_url := (case ub_webhook_url b of Some u \<Rightarrow> if u = [] then None else Some u | None \<Rightarrow> None),
     fm_archived := ub_archived b, fm_max_attempts := ub_max_attempts b,
     fm_retry_cooldown_seconds := ub_retry_cooldown_seconds b, fm_retry_policy := ub_retry_policy b,
     fm_lock_on_pass := ub_lock_on_pass b, fm_version := fm_version f + 1, fm_updated_at := now\<rparr>"

text \<open>The \<open>UPDATE\<close> and its \<open>rows_affected\<close>; a version past \<open>i32\<close> is the server's error.\<close>

definition save_form :: "env \<Rightarrow> str \<Rightarrow> str \<Rightarrow> update_body \<Rightarrow> nat act" where
  "save_form E form_id guild_id b w =
     db_stmt E (\<lambda>d.
       let hit = (\<lambda>f. fm_id f = form_id \<and> fm_guild_id f = guild_id \<and> fm_version f = ub_version b) in
       if list_ex hit (db_forms d) \<and> ub_version b \<ge> i32_max
       then Inl (DbReported (Some ''22003'') None ''integer out of range'')
       else Inr (length (filter hit (db_forms d)),
         d\<lparr>db_forms := map (\<lambda>f. if hit f then saved_form b (w_now w) f else f) (db_forms d)\<rparr>)) w"

definition row_not_found :: app_error where
  "row_not_found = EDatabase (DbDriver ''no rows returned by a query that expected to return at least one row'')"

text \<open>The questions that the conditions of a link still name but the form no longer has.\<close>

definition missing_question :: "str list \<Rightarrow> json \<Rightarrow> str option" where
  "missing_question qids c = (case jget c ''target'' of
       None \<Rightarrow> None
     | Some target \<Rightarrow>
         if Option.bind (jget target ''kind'') as_str = Some ''question'' then
           (case Option.bind (jget target ''question_id'') as_str of
              Some qid \<Rightarrow> if qid \<in> set qids then None else Some qid
            | None \<Rightarrow> None)
         else None)"

definition link_warnings :: "str list \<Rightarrow> str \<Rightarrow> json \<Rightarrow> str list" where
  "link_warnings qids role_id conditions =
     map (\<lambda>qid. ''Role <'' @ role_id @ ''> references question '' @ CHR 0x22 # qid @ CHR 0x22 # '' which no longer exists.'')
       (List.map_filter (missing_question qids) (unwrap_or (as_array conditions) []))"

fun resync_links :: "env \<Rightarrow> str list \<Rightarrow> (str \<times> str) list \<Rightarrow> str list act" where
  "resync_links E qids [] = act_ok []"
| "resync_links E qids ((g, r) # links) =
     act_bind (db_query E (\<lambda>d. map_option rl_conditions (find_link g r d))) (\<lambda>found.
     act_bind (act_result (ok_or found row_not_found)) (\<lambda>conditions.
     act_bind (best_effort (enqueue_config_sync E g r)) (\<lambda>_.
     act_bind (resync_links E qids links) (\<lambda>rest.
     act_ok (link_warnings qids r conditions @ rest)))))"

definition quiz_warning :: str where
  "quiz_warning = ''Quiz mode is on but no questions are graded yet '' @ em_dash
     @ '' mark a correct answer (and give it points) so submissions can be scored.''"

definition update_form :: "env \<Rightarrow> site \<Rightarrow> request \<Rightarrow> str option \<Rightarrow> str \<Rightarrow> str \<Rightarrow> update_body \<Rightarrow> json act" where
  "update_form E S rq cookie guild_id form_id b =
     act_bind (admin_write E S rq cookie guild_id) (\<lambda>_.
     act_bind (parse_form_id S form_id) (\<lambda>uuid.
     act_bind (act_result (check_schema E S b)) (\<lambda>parsed.
     act_bind (act_result (check_settings S b)) (\<lambda>_.
     act_bind (save_form E uuid guild_id b) (\<lambda>affected.
     if affected = 0 then
       act_bind (db_query E (find_form uuid guild_id)) (\<lambda>exists.
       act_fail (case exists of Some _ \<Rightarrow> EStaleVersion | None \<Rightarrow> form_not_found))
     else
       act_bind (db_query E (bound_links form_id)) (\<lambda>links.
       act_bind (resync_links E (map q_id (iter_questions parsed)) links) (\<lambda>warnings.
       act_bind (db_query E (find_form uuid guild_id)) (\<lambda>f.
       act_bind (act_result (ok_or f row_not_found)) (\<lambda>f.
       act_ok (JObj [(''version'', json_of_i64 (fm_version f)),
         (''warnings'', JArr (map JStr
           ((if ub_is_quiz b \<and> quiz_graded_count (e_crates E) parsed = 0 then [quiz_warning] else []) @ warnings)))]))))))))))"

subsection \<open>Deleting\<close>

definition unbind_links :: "str \<Rightarrow> db \<Rightarrow> db" where
  "unbind_links form_id d = d\<lparr>db_role_links :=
     map (\<lambda>l. if rl_form_id l = Some form_id then l\<lparr>rl_form_id := None\<rparr> else l) (db_role_links d)\<rparr>"

definition drop_responses :: "str \<Rightarrow> db \<Rightarrow> db" where
  "drop_responses form_id d = d\<lparr>db_responses := filter (\<lambda>r. fr_form_id r \<noteq> form_id) (db_responses d)\<rparr>"

definition drop_form :: "str \<Rightarrow> str \<Rightarrow> db \<Rightarrow> db" where
  "drop_form form_id guild_id d =
     d\<lparr>db_forms := filter (\<lambda>f. \<not> (fm_id f = form_id \<and> fm_guild_id f = guild_id)) (db_forms d)\<rparr>"

definition success :: json where "success = JObj [(''success'', JBool True)]"

definition delete_form :: "env \<Rightarrow> site \<Rightarrow> request \<Rightarrow> str option \<Rightarrow> str \<Rightarrow> str \<Rightarrow> json act" where
  "delete_form E S rq cookie guild_id form_id =
     act_bind (admin_write E S rq cookie guild_id) (\<lambda>_.
     act_bind (parse_form_id S form_id) (\<lambda>uuid.
     act_bind (require_form E uuid guild_id) (\<lambda>_.
     act_bind (db_query E (bound_links form_id)) (\<lambda>bound.
     act_bind (db_transaction E
       (act_bind (db_exec E (unbind_links form_id)) (\<lambda>_.
        act_bind (db_exec E (drop_responses form_id)) (\<lambda>_.
        act_bind (db_stmt E (\<lambda>d. Inr (find_form uuid guild_id d \<noteq> None, drop_form uuid guild_id d))) (\<lambda>hit.
        act_require hit form_not_found))))) (\<lambda>_.
     act_bind (enqueue_links E bound) (\<lambda>_. act_ok success))))))"

definition delete_response :: "env \<Rightarrow> site \<Rightarrow> request \<Rightarrow> str option \<Rightarrow> str \<Rightarrow> str \<Rightarrow> str \<Rightarrow> json act" where
  "delete_response E S rq cookie guild_id form_id response_id =
     act_bind (admin_write E S rq cookie guild_id) (\<lambda>_.
     act_bind (parse_form_id S form_id) (\<lambda>uuid.
     act_bind (act_result (ok_or (st_parse_uuid S response_id) (EBadRequest ''Invalid response id.''))) (\<lambda>rid.
     act_bind (require_form E uuid guild_id) (\<lambda>_.
     act_bind (db_stmt E (\<lambda>d. Inr (find (\<lambda>r. fr_id r = rid \<and> fr_form_id r = form_id) (db_responses d),
         d\<lparr>db_responses := filter (\<lambda>r. \<not> (fr_id r = rid \<and> fr_form_id r = form_id)) (db_responses d)\<rparr>))) (\<lambda>deleted.
     act_bind (act_result (ok_or deleted (ENotFound ''Response not found.''))) (\<lambda>r.
     act_bind (best_effort (enqueue_player_sync E (Updated (fr_discord_id r)))) (\<lambda>_.
     act_ok (JObj [(''discord_id'', JStr (fr_discord_id r)), (''success'', JBool True)]))))))))"

definition delete_all_responses :: "env \<Rightarrow> site \<Rightarrow> request \<Rightarrow> str option \<Rightarrow> str \<Rightarrow> str \<Rightarrow> json act" where
  "delete_all_responses E S rq cookie guild_id form_id =
     act_bind (admin_write E S rq cookie guild_id) (\<lambda>_.
     act_bind (parse_form_id S form_id) (\<lambda>uuid.
     act_bind (require_form E uuid guild_id) (\<lambda>_.
     act_bind (db_query E (bound_links form_id)) (\<lambda>bound.
     act_bind (db_stmt E (\<lambda>d. Inr (response_count form_id d, drop_responses form_id d))) (\<lambda>deleted.
     act_bind (enqueue_links E bound) (\<lambda>_.
     act_ok (JObj [(''deleted'', json_count deleted), (''success'', JBool True)])))))))"

end
