(* ===== verification/RoleConfig.thy ===== *)
theory RoleConfig
  imports ConditionEval AppErr
begin

text \<open>
  \<open>schema.rs\<close>: the two replies of the RoleLogic config endpoints and the validator of a role
  link's structured configuration. Its result is what the admin page writes to
  \<open>role_links\<close>, and what \<open>ConditionEval.evaluate\<close> later reads back from there.
\<close>

definition max_conditions :: nat where "max_conditions = 12"

definition build_iframe_config :: "str \<Rightarrow> str \<Rightarrow> str \<Rightarrow> json" where
  "build_iframe_config base_url guild_id role_id =
     JObj [(''description'',
              JStr ''Build a form, gate Discord roles on submissions or answer-conditions.''),
           (''embed_url'', JStr (base_url @ ''/admin/'' @ guild_id @ ''/role/'' @ role_id)),
           (''name'', JStr ''Form Respondent Role''),
           (''supports_impersonation_readonly'', JBool True),
           (''ui_mode'', JStr ''iframe''),
           (''version'', JNum (PosInt 1))]"

definition accept_empty_config :: json where
  "accept_empty_config = JObj [(''success'', JBool True)]"

record condition_input =
  ci_target :: str
  ci_operator :: str
  ci_value :: json
  ci_value_end :: "json option"

record role_config_body =
  rb_form_id :: "str option"
  rb_mode :: str
  rb_conditions :: "condition_input list"
  rb_view_permission :: "str option"

record parsed_config =
  pc_form_id :: "str option"
  pc_grant_on_any :: bool
  pc_conditions :: "condition list"
  pc_view_permission :: "str option"

subsection \<open>The value of a condition\<close>

definition is_numeric_op :: "condition_operator \<Rightarrow> bool" where
  "is_numeric_op op \<longleftrightarrow> op \<in> {OpGt, OpGte, OpLt, OpLte, OpBetween}"

definition is_list_op :: "condition_operator \<Rightarrow> bool" where
  "is_list_op op \<longleftrightarrow> op \<in> {OpIn, OpContainsAll, OpContainsAny, OpNotContains}"

definition condition_error :: "nat \<Rightarrow> str \<Rightarrow> app_error" where
  "condition_error n m = EBadRequest (''Condition #'' @ show_nat n @ '': '' @ m)"

definition condition_int :: "json \<Rightarrow> int option" where
  "condition_int raw = (case raw of
       JNum num \<Rightarrow> (case num_as_i64 num of Some i \<Rightarrow> Some i | None \<Rightarrow> Some (f64_as_i64 (num_as_f64 num)))
     | JStr s \<Rightarrow> parse_i64 (str_trim s)
     | _ \<Rightarrow> None)"

definition condition_list :: "json \<Rightarrow> json list" where
  "condition_list raw = (case raw of
       JArr a \<Rightarrow> filter (\<lambda>v. v \<noteq> JNull \<and> as_str v \<noteq> Some []) a
     | JStr s \<Rightarrow> map JStr (filter (\<lambda>s. s \<noteq> []) (map str_trim (split_on CHR '','' s)))
     | JNull \<Rightarrow> []
     | other \<Rightarrow> [other])"

definition normalize_condition_value ::
  "crates \<Rightarrow> condition_operator \<Rightarrow> json \<Rightarrow> nat \<Rightarrow> json app_result" where
  "normalize_condition_value E op raw n =
     (if is_numeric_op op then
        (case condition_int raw of
           Some i \<Rightarrow> Inr (json_of_i64 i)
         | None \<Rightarrow> Inl (condition_error n (''numeric value required (got '' @ json_text E raw @ '').'')))
      else if is_list_op op then
        (let arr = condition_list raw in
         if arr = [] then Inl (condition_error n ''list operator needs at least one value.'')
         else Inr (JArr arr))
      else if op = OpBefore \<or> op = OpAfter then
        (let s = str_trim (unwrap_or (as_str raw) []) in
         if s = [] then Inl (condition_error n ''date value required.'') else Inr (JStr s))
      else (case raw of
           JStr s \<Rightarrow> if str_trim s = [] then Inl (condition_error n ''value required.'') else Inr (JStr s)
         | JNum num \<Rightarrow> Inr (JStr (num_to_string E num))
         | JNull \<Rightarrow> Inl (condition_error n ''value required.'')
         | other \<Rightarrow> Inr other))"

subsection \<open>One condition\<close>

definition quiz_target_ops :: "condition_operator list" where
  "quiz_target_ops = [OpEq, OpNeq, OpGt, OpGte, OpLt, OpLte, OpBetween]"

definition array_target_ops :: "condition_operator list" where
  "array_target_ops = [OpContainsAll, OpContainsAny, OpNotContains, OpEq, OpNeq]"

definition validate_target ::
  "nat \<Rightarrow> str \<Rightarrow> condition_operator \<Rightarrow> form_schema option \<Rightarrow> bool \<Rightarrow> condition_target app_result" where
  "validate_target n target_raw op bound is_quiz =
     (if target_raw = ''__quiz_total_score__'' then
        (if \<not> is_quiz then
           Inl (condition_error n (CHR 0x22 # ''Quiz total score'' @ CHR 0x22 # '' only works on quiz forms.''))
         else if op \<notin> set quiz_target_ops then
           Inl (condition_error n ''quiz total score only supports numeric comparisons.'')
         else Inr TQuizTotalScore)
      else (case bound of
         Some form \<Rightarrow>
           (case find_question form target_raw of
              None \<Rightarrow> Inl (condition_error n (''question '' @ CHR 0x22 # target_raw @ CHR 0x22 #
                               '' doesn't exist on the chosen form.''))
            | Some q \<Rightarrow>
                if is_array_valued (q_kind q) \<and> op \<notin> set array_target_ops then
                  Inl (condition_error n
                    ''checkbox questions need a list operator (contains all / any / none).'')
                else Inr (TQuestion target_raw))
       | None \<Rightarrow> Inr (TQuestion target_raw)))"

definition validate_value_end ::
  "crates \<Rightarrow> condition_operator \<Rightarrow> json option \<Rightarrow> nat \<Rightarrow> json option app_result" where
  "validate_value_end E op vend n =
     (case (op, vend) of
        (OpBetween, Some e) \<Rightarrow> try_bind (normalize_condition_value E op e n) (\<lambda>v. Inr (Some v))
      | (OpBetween, None) \<Rightarrow>
          Inl (condition_error n (CHR 0x22 # ''between'' @ CHR 0x22 # '' needs both a min and a max value.''))
      | _ \<Rightarrow> Inr None)"

definition validate_condition ::
  "crates \<Rightarrow> nat \<Rightarrow> condition_input \<Rightarrow> form_schema option \<Rightarrow> bool \<Rightarrow> condition app_result" where
  "validate_condition E index raw bound is_quiz =
     (let n = index + 1; target_raw = str_trim (ci_target raw) in
      if target_raw = [] then Inl (condition_error n ''pick a question (or quiz total score).'')
      else
      try_bind (ok_or (operator_from_key (str_trim (ci_operator raw)))
                  (condition_error n (''unknown operator '' @ CHR 0x27 # ci_operator raw @ [CHR 0x27] @ ''.'')))
        (\<lambda>operator.
      try_bind (validate_target n target_raw operator bound is_quiz) (\<lambda>target.
      try_bind (normalize_condition_value E operator (ci_value raw) n) (\<lambda>v.
      try_bind (validate_value_end E operator (ci_value_end raw) n) (\<lambda>vend.
      if operator = OpRegex \<and> regex E (unwrap_or (as_str v) []) = None then
        Inl (condition_error n ''regex pattern is invalid.'')
      else Inr \<lparr>c_target = target, c_operator = operator, c_value = v, c_value_end = vend\<rparr>)))))"

fun validate_conditions ::
  "crates \<Rightarrow> nat \<Rightarrow> condition_input list \<Rightarrow> form_schema option \<Rightarrow> bool \<Rightarrow> condition list app_result" where
  "validate_conditions E i [] bound is_quiz = Inr []"
| "validate_conditions E i (raw # rest) bound is_quiz =
     try_bind (validate_condition E i raw bound is_quiz) (\<lambda>c.
       try_bind (validate_conditions E (i + 1) rest bound is_quiz) (\<lambda>cs. Inr (c # cs)))"

subsection \<open>The whole configuration\<close>

definition parse_mode :: "str \<Rightarrow> bool app_result" where
  "parse_mode mode =
     (if mode = ''any_submission'' then Inr True
      else if mode = ''conditions'' then Inr False
      else Inl (EBadRequest (''Unknown eligibility mode '' @ CHR 0x27 # mode @ [CHR 0x27] @ ''.'')))"

definition parse_view_permission :: "str option \<Rightarrow> str option app_result" where
  "parse_view_permission vp =
     (case vp of
        None \<Rightarrow> Inr None
      | Some s \<Rightarrow>
          if s = [] then Inr None
          else if s = ''members'' \<or> s = ''managers'' then Inr (Some s)
          else Inl (EBadRequest (''Unknown view_permission '' @ CHR 0x27 # s @ [CHR 0x27] @ ''.'')))"

definition parse_role_config ::
  "crates \<Rightarrow> role_config_body \<Rightarrow> form_schema option \<Rightarrow> bool \<Rightarrow> parsed_config app_result" where
  "parse_role_config E body bound is_quiz =
     (let form_id = (case rb_form_id body of None \<Rightarrow> None
                     | Some s \<Rightarrow> if str_trim s = [] then None else Some (str_trim s)) in
      try_bind (parse_mode (rb_mode body)) (\<lambda>any.
      try_bind (parse_view_permission (rb_view_permission body)) (\<lambda>vp.
      try_bind
        (if any then Inr []
         else if rb_conditions body = [] then
           Inl (EBadRequest (''Eligibility is set to '' @ CHR 0x22 # ''match conditions'' @ CHR 0x22 #
                  '' but no conditions were added.''))
         else if length (rb_conditions body) > max_conditions then
           Inl (EBadRequest (''At most '' @ show_nat max_conditions @ '' conditions per role.''))
         else validate_conditions E 0 (rb_conditions body) bound is_quiz)
        (\<lambda>conds. Inr \<lparr>pc_form_id = form_id, pc_grant_on_any = any, pc_conditions = conds,
                       pc_view_permission = vp\<rparr>))))"

subsection \<open>What an accepted condition looks like\<close>

text \<open>The shape of a normalised value, per group of operators.\<close>

definition value_ok :: "condition_operator \<Rightarrow> json \<Rightarrow> bool" where
  "value_ok op v \<longleftrightarrow>
     (if is_numeric_op op then (\<exists>n. v = json_of_i64 n)
      else if is_list_op op then
        (\<exists>a. v = JArr a \<and> a \<noteq> [] \<and> JNull \<notin> set a \<and> JStr [] \<notin> set a)
      else if op = OpBefore \<or> op = OpAfter then (\<exists>s. v = JStr s \<and> s \<noteq> [] \<and> str_trim s = s)
      else v \<noteq> JNull)"

definition target_ok :: "form_schema option \<Rightarrow> bool \<Rightarrow> condition_operator \<Rightarrow> condition_target \<Rightarrow> bool" where
  "target_ok bound is_quiz op t \<longleftrightarrow> (case t of
       TQuizTotalScore \<Rightarrow> is_quiz \<and> op \<in> set quiz_target_ops
     | TQuestion qid \<Rightarrow> qid \<noteq> [] \<and> str_trim qid = qid \<and>
         (\<forall>form. bound = Some form \<longrightarrow>
            (\<exists>q. find_question form qid = Some q
               \<and> (is_array_valued (q_kind q) \<longrightarrow> op \<in> set array_target_ops))))"

definition condition_ok :: "crates \<Rightarrow> form_schema option \<Rightarrow> bool \<Rightarrow> condition \<Rightarrow> bool" where
  "condition_ok E bound is_quiz c \<longleftrightarrow>
     target_ok bound is_quiz (c_operator c) (c_target c)
     \<and> value_ok (c_operator c) (c_value c)
     \<and> (if c_operator c = OpBetween then \<exists>n. c_value_end c = Some (json_of_i64 n)
        else c_value_end c = None)
     \<and> (c_operator c = OpRegex \<longrightarrow> regex E (unwrap_or (as_str (c_value c)) []) \<noteq> None)"

lemma json_of_i64_ne [simp]: "json_of_i64 n \<noteq> JNull" "JNull \<noteq> json_of_i64 n" "json_of_i64 n \<noteq> JArr a" "json_of_i64 n \<noteq> JStr s"
  by (auto simp: json_of_i64_def)

lemma condition_list_clean: "JNull \<notin> set (condition_list raw) \<and> JStr [] \<notin> set (condition_list raw)"
  by (cases raw) (auto simp: condition_list_def)

lemma normalize_value_ok:
  "normalize_condition_value E op raw n = Inr v \<Longrightarrow> value_ok op v"
  using condition_list_clean [of raw]
  by (cases raw) (auto simp: normalize_condition_value_def value_ok_def Let_def split: if_splits option.splits)

lemma validate_target_ok:
  assumes "validate_target n t op bound is_quiz = Inr tg" and "t \<noteq> []" "str_trim t = t"
  shows "target_ok bound is_quiz op tg"
  using assms
  by (auto simp: validate_target_def target_ok_def split: if_splits option.splits)

lemma validate_value_end_ok:
  "validate_value_end E op ve n = Inr r \<Longrightarrow>
     (if op = OpBetween then \<exists>n. r = Some (json_of_i64 n) else r = None)"
  by (cases op; cases ve)
    (auto simp: validate_value_end_def try_bind_Inr_iff is_numeric_op_def value_ok_def
      dest!: normalize_value_ok)

lemma validate_condition_ok:
  assumes "validate_condition E i raw bound is_quiz = Inr c"
  shows "condition_ok E bound is_quiz c"
  using assms
  by (auto simp: validate_condition_def Let_def try_bind_Inr_iff ok_or_Inr_iff condition_ok_def
      validate_target_ok normalize_value_ok split: if_splits dest: validate_value_end_ok)

lemma validate_conditions_ok:
  "validate_conditions E i raws bound is_quiz = Inr cs \<Longrightarrow>
     length cs = length raws \<and> list_all (condition_ok E bound is_quiz) cs"
proof (induction raws arbitrary: i cs)
  case (Cons raw raws)
  then show ?case by (auto simp: try_bind_Inr_iff validate_condition_ok)
qed simp

text \<open>A configuration that can be stored and evaluated.\<close>

definition config_ok :: "crates \<Rightarrow> form_schema option \<Rightarrow> bool \<Rightarrow> parsed_config \<Rightarrow> bool" where
  "config_ok E bound is_quiz p \<longleftrightarrow>
     (if pc_grant_on_any p then pc_conditions p = []
      else pc_conditions p \<noteq> [] \<and> length (pc_conditions p) \<le> max_conditions)
     \<and> list_all (condition_ok E bound is_quiz) (pc_conditions p)
     \<and> pc_form_id p \<noteq> Some []
     \<and> pc_view_permission p \<in> {None, Some ''members'', Some ''managers''}"

lemma parse_view_permission_Inr:
  "parse_view_permission vp = Inr r \<Longrightarrow> r \<in> {None, Some ''members'', Some ''managers''}"
  by (auto simp: parse_view_permission_def split: option.splits if_splits)

lemma parse_role_config_config_ok:
  assumes "parse_role_config E body bound is_quiz = Inr p"
  shows "config_ok E bound is_quiz p"
proof -
  obtain any vp conds where
    vp: "parse_view_permission (rb_view_permission body) = Inr vp" and
    conds: "(if any then Inr [] else if rb_conditions body = [] then
         Inl (EBadRequest (''Eligibility is set to '' @ CHR 0x22 # ''match conditions'' @ CHR 0x22 #
                  '' but no conditions were added.''))
         else if length (rb_conditions body) > max_conditions then
           Inl (EBadRequest (''At most '' @ show_nat max_conditions @ '' conditions per role.''))
         else validate_conditions E 0 (rb_conditions body) bound is_quiz) = Inr conds" and
    p: "pc_grant_on_any p = any" "pc_conditions p = conds" "pc_view_permission p = vp" "pc_form_id p \<noteq> Some []"
    using assms by (auto simp: parse_role_config_def Let_def try_bind_Inr_iff split: option.splits)
  from conds have "if any then conds = [] else conds \<noteq> [] \<and> length conds \<le> max_conditions"
    by (auto split: if_splits dest!: validate_conditions_ok)
  moreover from conds have "list_all (condition_ok E bound is_quiz) conds"
    by (auto split: if_splits dest!: validate_conditions_ok)
  ultimately show ?thesis
    using p parse_view_permission_Inr [OF vp] by (simp add: config_ok_def)
qed

lemma condition_ok_storable:
  "condition_ok E bound is_quiz c \<Longrightarrow> condition_from_json (condition_to_json c) = Some c"
  by (intro condition_from_to_json) (auto simp: condition_ok_def split: if_splits)

lemma conditions_storable:
  "list_all (condition_ok E bound is_quiz) cs \<Longrightarrow>
     List.map_filter condition_from_json (map condition_to_json cs) = cs"
  by (induction cs) (auto simp: List.map_filter_simps condition_ok_storable)

subsection \<open>Saving again what was saved\<close>

text \<open>The numbers a JSON text can hold.\<close>

fun jnum_ok :: "jnum \<Rightarrow> bool" where
  "jnum_ok (PosInt n) \<longleftrightarrow> int n \<le> 18446744073709551615"
| "jnum_ok (NegInt n) \<longleftrightarrow> i64_min \<le> n \<and> n < 0"
| "jnum_ok (JFloat x) \<longleftrightarrow> f64_is_finite x"

lemma f64_as_i64_in: "in_i64 (f64_as_i64 x)"
  by (cases x) (auto simp: f64_as_i64_def in_i64_def)

lemma condition_int_in:
  assumes "condition_int raw = Some i" and "\<forall>num. raw = JNum num \<longrightarrow> jnum_ok num"
  shows "in_i64 i"
proof (cases raw)
  case (JNum num)
  then show ?thesis using assms f64_as_i64_in [unfolded in_i64_def]
    by (cases num) (auto simp: condition_int_def in_i64_def split: if_splits)
next
  case (JStr s)
  then show ?thesis using assms by (auto simp: condition_int_def dest: parse_i64_in)
qed (use assms in \<open>auto simp: condition_int_def\<close>)

lemma condition_int_of_i64: "in_i64 i \<Longrightarrow> condition_int (json_of_i64 i) = Some i"
  by (auto simp: condition_int_def json_of_i64_def in_i64_def)

lemma condition_list_stable: "condition_list (JArr (condition_list raw)) = condition_list raw"
  using condition_list_clean [of raw]
  by (auto simp: condition_list_def [of "JArr _"] filter_id_conv as_str_Some_iff)

lemma normalize_stable:
  assumes "normalize_condition_value E op raw n = Inr v"
    and num: "\<forall>num. raw = JNum num \<longrightarrow> jnum_ok num"
    and shown: "\<forall>num. str_trim (num_to_string E num) \<noteq> []"
  shows "normalize_condition_value E op v m = Inr v"
proof (cases "is_numeric_op op")
  case True
  then obtain i where "condition_int raw = Some i" "v = json_of_i64 i"
    using assms(1) by (auto simp: normalize_condition_value_def split: option.splits)
  then show ?thesis
    using True condition_int_in [OF _ num] by (simp add: normalize_condition_value_def condition_int_of_i64)
next
  case notnum: False
  show ?thesis
  proof (cases "is_list_op op")
    case True
    then show ?thesis using assms(1) notnum condition_list_stable [of raw]
      by (auto simp: normalize_condition_value_def Let_def split: if_splits)
  next
    case False
    then show ?thesis using assms(1) notnum shown
      by (cases raw) (auto simp: normalize_condition_value_def Let_def split: if_splits)
  qed
qed

definition sample_body :: role_config_body where
  "sample_body = \<lparr>rb_form_id = Some '' f1 '', rb_mode = ''conditions'',
     rb_conditions = [\<lparr>ci_target = ''q1'', ci_operator = ''in'', ci_value = JStr ''ann, bob'', ci_value_end = None\<rparr>,
       \<lparr>ci_target = ''__quiz_total_score__'', ci_operator = ''between'', ci_value = JStr ''1'',
        ci_value_end = Some (JNum (PosInt 9))\<rparr>],
     rb_view_permission = Some ''members''\<rparr>"

lemma sample_body_parses:
  "parse_role_config sample_crates sample_body None True = Inr
     \<lparr>pc_form_id = Some ''f1'', pc_grant_on_any = False,
      pc_conditions =
        [\<lparr>c_target = TQuestion ''q1'', c_operator = OpIn, c_value = JArr [JStr ''ann'', JStr ''bob''],
          c_value_end = None\<rparr>,
         \<lparr>c_target = TQuizTotalScore, c_operator = OpBetween, c_value = JNum (PosInt 1),
          c_value_end = Some (JNum (PosInt 9))\<rparr>],
      pc_view_permission = Some ''members''\<rparr>"
  by code_simp

subsection \<open>Properties\<close>

text \<open>C26: a saved role configuration is well-formed: the any-submission mode keeps no
  conditions, the conditions mode keeps between one and twelve; every condition's target exists on
  the chosen form and admits its operator, its value has the operator's shape, a \<open>between\<close> has an
  integer end, a regular expression compiles; the form id is not blank and the permission is known.\<close>

theorem parse_role_config_sound:
  assumes "parse_role_config E body bound is_quiz = Inr p"
  shows "config_ok E bound is_quiz p"
  by (rule parse_role_config_config_ok [OF assms])

theorem parse_role_config_sound_witness:
  "config_ok sample_crates None True
     \<lparr>pc_form_id = Some ''f1'', pc_grant_on_any = False,
      pc_conditions =
        [\<lparr>c_target = TQuestion ''q1'', c_operator = OpIn, c_value = JArr [JStr ''ann'', JStr ''bob''],
          c_value_end = None\<rparr>,
         \<lparr>c_target = TQuizTotalScore, c_operator = OpBetween, c_value = JNum (PosInt 1),
          c_value_end = Some (JNum (PosInt 9))\<rparr>],
      pc_view_permission = Some ''members''\<rparr>"
  by (rule parse_role_config_sound [OF sample_body_parses])

text \<open>The conditions of a saved configuration survive the store: decoding their stored
  JSON, as both sync paths do, gives them back, none dropped.\<close>

lemma saved_conditions_roundtrip:
  assumes "parse_role_config E body bound is_quiz = Inr p"
  shows "List.map_filter condition_from_json (map condition_to_json (pc_conditions p)) = pc_conditions p"
proof -
  have "list_all (condition_ok E bound is_quiz) (pc_conditions p)"
    using parse_role_config_config_ok [OF assms] by (simp add: config_ok_def)
  then show ?thesis by (rule conditions_storable)
qed

text \<open>Normalisation of a condition's value is idempotent: saving again what was saved, at
  whatever position, changes nothing.\<close>

lemma normalize_condition_value_stable:
  assumes "normalize_condition_value E op raw n = Inr v"
    and "\<forall>num. raw = JNum num \<longrightarrow> jnum_ok num"
    and "\<forall>num. str_trim (num_to_string E num) \<noteq> []"
  shows "normalize_condition_value E op v m = Inr v"
  by (rule normalize_stable [OF assms])

lemma sample_num_text: "str_trim (num_to_string sample_crates num) \<noteq> []"
proof (cases num)
  case (JFloat x)
  have "str_trim ''0.5'' = ''0.5''" by code_simp
  then show ?thesis using JFloat by (simp add: sample_crates_def)
next
  case (NegInt n)
  have "show_int n \<noteq> []" by (simp add: show_int_def)
  then show ?thesis using NegInt by simp
qed simp

end
