(* ===== verification/RoleApi.thy ===== *)
theory RoleApi
  imports FormSave RoleConfig
begin

text \<open>
  \<open>routes/admin.rs\<close>, the role configuration (reading it for the rule builder, saving it, the operator
  catalogue) and the CSV export; \<open>routes/plugin.rs\<close>, the RoleLogic contract: registering a role link,
  its configuration and its removal.
\<close>

subsection \<open>The operator catalogue\<close>

definition text_kinds :: "str list" where
  "text_kinds = [''short_text'', ''long_text'', ''email'', ''single_choice'', ''dropdown'', ''agreement'']"

definition free_text_kinds :: "str list" where "free_text_kinds = [''short_text'', ''long_text'', ''email'']"
definition numeric_kinds :: "str list" where "numeric_kinds = [''number'', ''scale'', ''__quiz_total_score__'']"
definition array_kinds :: "str list" where "array_kinds = [''multi_choice'']"
definition date_kinds :: "str list" where "date_kinds = [''date'']"

definition eq_kinds :: "str list" where "eq_kinds = text_kinds @ [''multi_choice'']"

definition math_sign :: "nat \<Rightarrow> str" where "math_sign b = [CHR 0xE2, CHR 0x89, char_of b]"

definition operator_entries :: "(condition_operator \<times> str \<times> str list) list" where
  "operator_entries =
     [(OpEq, ''= equals'', eq_kinds), (OpNeq, math_sign 0xA0 @ '' does not equal'', text_kinds),
      (OpContains, ''contains (substring)'', free_text_kinds), (OpRegex, ''matches regex'', free_text_kinds),
      (OpIn, ''is one of'', text_kinds), (OpContainsAll, ''contains all of'', array_kinds),
      (OpContainsAny, ''contains any of'', array_kinds), (OpNotContains, ''contains none of'', array_kinds),
      (OpGt, ''> greater than'', numeric_kinds), (OpGte, math_sign 0xA5 @ '' at least'', numeric_kinds),
      (OpLt, ''< less than'', numeric_kinds), (OpLte, math_sign 0xA4 @ '' at most'', numeric_kinds),
      (OpBetween, ''between (inclusive)'', numeric_kinds), (OpBefore, ''before (date)'', date_kinds),
      (OpAfter, ''after (date)'', date_kinds)]"

definition operator_catalog :: "json list" where
  "operator_catalog = map (\<lambda>(op, label, kinds). JObj [(''key'', JStr (operator_as_str op)),
     (''kinds'', JArr (map JStr kinds)), (''label'', JStr label)]) operator_entries"

definition offered :: "str \<Rightarrow> condition_operator list" where
  "offered kind = map fst (filter (\<lambda>(_, _, kinds). kind \<in> set kinds) operator_entries)"

subsection \<open>Reading the configuration\<close>

definition option_json :: "question_option \<Rightarrow> json" where
  "option_json p = JObj [(''id'', JStr (o_id p)), (''label'', JStr (o_label p))]"

definition question_json :: "question \<Rightarrow> json" where
  "question_json q = JObj [(''id'', JStr (q_id q)), (''is_array_valued'', JBool (is_array_valued (q_kind q))),
     (''kind'', JStr (kind_as_str (q_kind q))), (''options'', JArr (map option_json (unwrap_or (q_options q) []))),
     (''title'', JStr (q_title q))]"

definition form_choice_json :: "form_row \<Rightarrow> json" where
  "form_choice_json f = JObj [(''archived'', JBool (fm_archived f)), (''id'', JStr (fm_id f)),
     (''is_quiz'', JBool (fm_is_quiz f)), (''passing_score'', json_opt json_of_i64 (fm_passing_score f)),
     (''questions'', JArr (case form_schema_from_json (fm_schema f) of
         Some s \<Rightarrow> map question_json (filter (\<lambda>q. is_conditionable (q_kind q)) (iter_questions s))
       | None \<Rightarrow> [])),
     (''title'', JStr (fm_title f))]"

text \<open>\<open>ORDER BY archived ASC, updated_at DESC\<close>.\<close>

definition form_choices :: "str \<Rightarrow> db \<Rightarrow> json list" where
  "form_choices guild_id d =
     (let fs = sort_key (\<lambda>f. - fm_updated_at f) (filter (\<lambda>f. fm_guild_id f = guild_id) (db_forms d))
      in map form_choice_json (filter (\<lambda>f. \<not> fm_archived f) fs @ filter fm_archived fs))"

definition config_mode :: "bool \<Rightarrow> json list \<Rightarrow> str" where
  "config_mode grant_on_any conditions = (if grant_on_any \<or> conditions = [] then ''any_submission'' else ''conditions'')"

definition flat_condition :: "json \<Rightarrow> json" where
  "flat_condition c =
     (let target = jget c ''target'';
          member = (\<lambda>k. Option.bind (Option.bind target (\<lambda>t. jget t k)) as_str)
      in JObj [(''operator'', jindex c ''operator''),
           (''target'', JStr (if member ''kind'' = Some ''quiz_total_score'' then ''__quiz_total_score__''
              else unwrap_or (member ''question_id'') [])),
           (''value'', jindex c ''value''), (''value_end'', jindex c ''value_end'')])"

definition link_missing :: app_error where
  "link_missing = ENotFound (''This role link doesn'' @ [CHR 0x27] @ ''t exist. Has it been added in RoleLogic?'')"

definition role_config_data :: "env \<Rightarrow> site \<Rightarrow> request \<Rightarrow> str option \<Rightarrow> str \<Rightarrow> str \<Rightarrow> json act" where
  "role_config_data E S rq cookie guild_id role_id =
     act_bind (require_role_config_access E S rq cookie guild_id role_id) (\<lambda>_.
     act_bind (db_query E (find_link guild_id role_id)) (\<lambda>found.
     act_bind (act_result (ok_or found link_missing)) (\<lambda>link.
     act_bind (db_query E (form_choices guild_id)) (\<lambda>forms.
     let conditions = unwrap_or (as_array (rl_conditions link)) [] in
     act_ok (JObj
       [(''config'', JObj [(''conditions'', JArr (map flat_condition conditions)),
          (''form_id'', JStr (unwrap_or (rl_form_id link) [])),
          (''mode'', JStr (config_mode (rl_grant_on_any link) conditions))]),
        (''forms'', JArr forms), (''guild_id'', JStr guild_id), (''max_conditions'', json_count max_conditions),
        (''operators'', JArr operator_catalog), (''role_id'', JStr role_id)])))))"

subsection \<open>Saving the configuration\<close>

definition chosen_form :: "env \<Rightarrow> site \<Rightarrow> str \<Rightarrow> str option \<Rightarrow> (form_schema option \<times> bool) act" where
  "chosen_form E S guild_id form_id =
     (let fid = str_trim (unwrap_or form_id []) in
      if fid = [] then act_ok (None, False)
      else
        act_bind (act_result (ok_or (st_parse_uuid S fid)
          (EBadRequest ''form_id must be a valid form UUID from the dropdown.''))) (\<lambda>uuid.
        act_bind (db_query E (find_form uuid guild_id)) (\<lambda>found.
        act_bind (act_result (ok_or found (EBadRequest ''Selected form does not exist for this guild.''))) (\<lambda>f.
        act_ok (form_schema_from_json (fm_schema f), fm_is_quiz f)))))"

definition configure_link :: "str \<Rightarrow> str \<Rightarrow> parsed_config \<Rightarrow> db \<Rightarrow> db" where
  "configure_link guild_id role_id p d = d\<lparr>db_role_links := map (\<lambda>l. if link_key l = (guild_id, role_id)
     then l\<lparr>rl_form_id := pc_form_id p, rl_grant_on_any := pc_grant_on_any p,
            rl_conditions := JArr (map condition_to_json (pc_conditions p))\<rparr> else l) (db_role_links d)\<rparr>"

definition store_config :: "env \<Rightarrow> str \<Rightarrow> str \<Rightarrow> parsed_config \<Rightarrow> unit act" where
  "store_config E guild_id role_id p = db_transaction E
     (act_bind (db_exec E (configure_link guild_id role_id p)) (\<lambda>_.
      case pc_view_permission p of
        Some vp \<Rightarrow> db_exec E (upsert_settings guild_id vp)
      | None \<Rightarrow> act_ok ()))"

definition role_config_save ::
  "env \<Rightarrow> site \<Rightarrow> request \<Rightarrow> str option \<Rightarrow> str \<Rightarrow> str \<Rightarrow> role_config_body \<Rightarrow> json act" where
  "role_config_save E S rq cookie guild_id role_id body =
     act_bind (if extract_bearer rq = None then act_result (verify_origin rq (st_origins S)) else act_ok ()) (\<lambda>_.
     act_bind (require_role_config_access E S rq cookie guild_id role_id) (\<lambda>access.
     act_bind (act_require (\<not> rca_read_only access)
       (EForbidden ''This configuration is read-only while impersonating a user.'')) (\<lambda>_.
     act_bind (db_query E (\<lambda>d. find_link guild_id role_id d \<noteq> None)) (\<lambda>link_exists.
     act_bind (act_require link_exists link_missing) (\<lambda>_.
     act_bind (chosen_form E S guild_id (rb_form_id body)) (\<lambda>(bound, is_quiz).
     act_bind (act_result (parse_role_config (e_crates E) body bound is_quiz)) (\<lambda>parsed.
     act_bind (store_config E guild_id role_id parsed) (\<lambda>_.
     act_bind (best_effort (enqueue_config_sync E guild_id role_id)) (\<lambda>_.
     act_ok success)))))))))"

subsection \<open>The RoleLogic contract\<close>

definition extract_token :: "request \<Rightarrow> str app_result" where
  "extract_token rq = ok_or (case header_str rq ''authorization'' of
       None \<Rightarrow> None | Some v \<Rightarrow> strip_prefix ''Token '' v) EUnauthorized"

definition upsert_link :: "str \<Rightarrow> str \<Rightarrow> str \<Rightarrow> db \<Rightarrow> db" where
  "upsert_link guild_id role_id token d = d\<lparr>db_role_links :=
     (if find_link guild_id role_id d = None
      then db_role_links d @ [\<lparr>rl_guild_id = guild_id, rl_role_id = role_id, rl_api_token = token, rl_form_id = None,
             rl_grant_on_any = False, rl_conditions = JArr []\<rparr>]
      else map (\<lambda>l. if link_key l = (guild_id, role_id) then l\<lparr>rl_api_token := token\<rparr> else l) (db_role_links d))\<rparr>"

definition default_settings :: "str \<Rightarrow> db \<Rightarrow> db" where
  "default_settings guild_id d = (if map_of (db_settings d) guild_id = None
     then d\<lparr>db_settings := (guild_id, ''managers'') # db_settings d\<rparr> else d)"

definition register :: "env \<Rightarrow> request \<Rightarrow> str \<Rightarrow> str \<Rightarrow> json act" where
  "register E rq guild_id role_id =
     act_bind (act_result (extract_token rq)) (\<lambda>token.
     act_bind (db_exec E (upsert_link guild_id role_id token)) (\<lambda>_.
     act_bind (db_exec E (default_settings guild_id)) (\<lambda>_.
     act_ok success)))"

definition get_config :: "env \<Rightarrow> site \<Rightarrow> request \<Rightarrow> json act" where
  "get_config E S rq =
     act_bind (act_result (extract_token rq)) (\<lambda>token.
     act_bind (db_query E (\<lambda>d. find (\<lambda>l. rl_api_token l = token) (db_role_links d))) (\<lambda>found.
     act_bind (act_result (ok_or found EUnauthorized)) (\<lambda>l.
     act_ok (build_iframe_config (st_base_url S) (rl_guild_id l) (rl_role_id l)))))"

definition owns_link :: "str \<Rightarrow> str \<Rightarrow> str \<Rightarrow> db \<Rightarrow> bool" where
  "owns_link guild_id role_id token d \<longleftrightarrow>
     list_ex (\<lambda>l. link_key l = (guild_id, role_id) \<and> rl_api_token l = token) (db_role_links d)"

definition post_config :: "env \<Rightarrow> request \<Rightarrow> str \<Rightarrow> str \<Rightarrow> json act" where
  "post_config E rq guild_id role_id =
     act_bind (act_result (extract_token rq)) (\<lambda>token.
     act_bind (db_query E (owns_link guild_id role_id token)) (\<lambda>owns.
     act_bind (act_require owns EUnauthorized) (\<lambda>_.
     act_ok accept_empty_config)))"

text \<open>Deleting a link removes its assignments with it.\<close>

definition delete_config :: "env \<Rightarrow> request \<Rightarrow> str \<Rightarrow> str \<Rightarrow> json act" where
  "delete_config E rq guild_id role_id =
     act_bind (act_result (extract_token rq)) (\<lambda>token.
     act_bind (db_stmt E (\<lambda>d. Inr (owns_link guild_id role_id token d,
         if owns_link guild_id role_id token d then delete_link guild_id role_id d else d))) (\<lambda>hit.
     act_bind (act_require hit EUnauthorized) (\<lambda>_.
     act_ok success)))"

subsection \<open>CSV\<close>

definition lf :: char where "lf = CHR 0x0A"
definition quote :: char where "quote = CHR 0x22"
definition comma :: char where "comma = CHR '',''"

definition csv_escape :: "str \<Rightarrow> str" where
  "csv_escape s = (if comma \<in> set s \<or> quote \<in> set s \<or> lf \<in> set s \<or> CHR 0x0D \<in> set s
     then quote # replace_char quote [quote, quote] s @ [quote] else s)"

definition csv_row :: "str list \<Rightarrow> str" where
  "csv_row cells = str_join [comma] (map csv_escape cells) @ [lf]"

definition answer_to_csv :: "crates \<Rightarrow> json option \<Rightarrow> str" where
  "answer_to_csv C v = (case v of
       None \<Rightarrow> [] | Some JNull \<Rightarrow> [] | Some (JStr s) \<Rightarrow> s | Some (JNum n) \<Rightarrow> num_to_string C n
     | Some (JBool b) \<Rightarrow> bool_to_string b | Some (JArr a) \<Rightarrow> str_join ''; '' (str_items a)
     | Some other \<Rightarrow> json_text C other)"

definition csv_header :: "bool \<Rightarrow> question list \<Rightarrow> str list" where
  "csv_header is_quiz qs = [''discord_id'', ''submitted_at'', ''last_edited_at'']
     @ (if is_quiz then [''total_score''] else []) @ map q_title qs"

definition csv_cells :: "env \<Rightarrow> site \<Rightarrow> bool \<Rightarrow> question list \<Rightarrow> response_row \<Rightarrow> str list" where
  "csv_cells E S is_quiz qs r = [fr_discord_id r, st_show_time S (fr_submitted_at r), st_show_time S (fr_last_edited_at r)]
     @ (if is_quiz then [case fr_total_score r of Some n \<Rightarrow> show_int n | None \<Rightarrow> []] else [])
     @ map (\<lambda>q. answer_to_csv (e_crates E) (jget (fr_answers r) (q_id q))) qs"

definition csv_text :: "env \<Rightarrow> site \<Rightarrow> bool \<Rightarrow> question list \<Rightarrow> response_row list \<Rightarrow> str" where
  "csv_text E S is_quiz qs rows = csv_row (csv_header is_quiz qs) @ concat (map (csv_row \<circ> csv_cells E S is_quiz qs) rows)"

record csv_file =
  cf_disposition :: str
  cf_text :: str

definition responses_csv :: "env \<Rightarrow> site \<Rightarrow> str option \<Rightarrow> str \<Rightarrow> str \<Rightarrow> csv_file act" where
  "responses_csv E S cookie guild_id form_id =
     act_bind (require_manager E S cookie guild_id) (\<lambda>_.
     act_bind (parse_form_id S form_id) (\<lambda>uuid.
     act_bind (require_form E uuid guild_id) (\<lambda>f.
     act_bind (act_result (ok_or (form_schema_from_json (fm_schema f))
         (EInternal (''schema invalid: '' @ st_schema_error S (fm_schema f))))) (\<lambda>schema.
     act_bind (db_query E (\<lambda>d. sort_key fr_submitted_at (filter (\<lambda>r. fr_form_id r = form_id) (db_responses d)))) (\<lambda>rows.
     act_ok \<lparr>cf_disposition = ''attachment; filename='' @ quote # ''form-'' @ fm_slug f @ ''-responses.csv'' @ [quote],
             cf_text = csv_text E S (fm_is_quiz f) (iter_questions schema) rows\<rparr>)))))"

end
