(* ===== verification/Bodies.thy ===== *)
theory Bodies
  imports RoleApi
begin

text \<open>
  The request bodies of the endpoints, as the serde derives read them from JSON (see \<open>FormJson\<close>).
  \<open>datetime\<close> is chrono's reader of an instant.
\<close>

definition guild_role_from_json :: "json \<Rightarrow> (str \<times> str) option" where
  "guild_role_from_json v =
     Option.bind (struct_members [''guild_id'', ''role_id''] v) (\<lambda>m.
     Option.bind (need as_str m ''guild_id'') (\<lambda>g.
     Option.bind (need as_str m ''role_id'') (\<lambda>r. Some (g, r))))"

definition view_permission_from_json :: "json \<Rightarrow> str option" where
  "view_permission_from_json v =
     Option.bind (struct_members [''view_permission''] v) (\<lambda>m. need as_str m ''view_permission'')"

definition create_body_from_json :: "json \<Rightarrow> (str \<times> str option) option" where
  "create_body_from_json v =
     Option.bind (struct_members [''template'', ''title''] v) (\<lambda>m.
     Option.bind (dflt [] as_str m ''template'') (\<lambda>template.
     Option.bind (opt as_str m ''title'') (\<lambda>title. Some (template, title))))"

definition submit_body_from_json :: "json \<Rightarrow> (json \<times> int) option" where
  "submit_body_from_json v =
     Option.bind (struct_members [''answers'', ''version''] v) (\<lambda>m.
     Option.bind (need Some m ''answers'') (\<lambda>answers.
     Option.bind (need read_i32 m ''version'') (\<lambda>version. Some (answers, version))))"

definition condition_input_from_json :: "json \<Rightarrow> condition_input option" where
  "condition_input_from_json v =
     Option.bind (struct_members [''target'', ''operator'', ''value'', ''value_end''] v) (\<lambda>m.
     Option.bind (need as_str m ''target'') (\<lambda>target.
     Option.bind (need as_str m ''operator'') (\<lambda>operator.
     Option.bind (dflt JNull Some m ''value'') (\<lambda>x.
     Option.bind (opt Some m ''value_end'') (\<lambda>y.
     Some \<lparr>ci_target = target, ci_operator = operator, ci_value = x, ci_value_end = y\<rparr>)))))"

definition role_config_body_from_json :: "json \<Rightarrow> role_config_body option" where
  "role_config_body_from_json v =
     Option.bind (struct_members [''form_id'', ''mode'', ''conditions'', ''view_permission''] v) (\<lambda>m.
     Option.bind (opt as_str m ''form_id'') (\<lambda>form_id.
     Option.bind (need as_str m ''mode'') (\<lambda>mode.
     Option.bind (dflt [] (read_vec condition_input_from_json) m ''conditions'') (\<lambda>conditions.
     Option.bind (opt as_str m ''view_permission'') (\<lambda>vp.
     Some \<lparr>rb_form_id = form_id, rb_mode = mode, rb_conditions = conditions, rb_view_permission = vp\<rparr>)))))"

definition default_success_message :: str where "default_success_message = ''Thanks for your response!''"
definition default_max_attempts_body :: int where "default_max_attempts_body = 1"
definition default_retry_policy :: str where "default_retry_policy = ''keep_best''"

definition update_fields :: "str list" where
  "update_fields = [''title'', ''description'', ''schema'', ''is_quiz'', ''open_at'', ''close_at'', ''allow_edits'',
     ''single_submission'', ''passing_score'', ''require_verified'', ''min_account_age_days'', ''success_message'',
     ''webhook_url'', ''archived'', ''max_attempts'', ''retry_cooldown_seconds'', ''retry_policy'', ''lock_on_pass'', ''version'']"

definition read_time :: "(str \<Rightarrow> int option) \<Rightarrow> json \<Rightarrow> int option" where
  "read_time datetime v = Option.bind (as_str v) datetime"

definition update_body_from_json :: "(str \<Rightarrow> int option) \<Rightarrow> json \<Rightarrow> update_body option" where
  "update_body_from_json datetime v =
     Option.bind (struct_members update_fields v) (\<lambda>m.
     Option.bind (need as_str m ''title'') (\<lambda>title.
     Option.bind (dflt [] as_str m ''description'') (\<lambda>description.
     Option.bind (need Some m ''schema'') (\<lambda>schema.
     Option.bind (dflt False as_bool m ''is_quiz'') (\<lambda>is_quiz.
     Option.bind (opt (read_time datetime) m ''open_at'') (\<lambda>open_at.
     Option.bind (opt (read_time datetime) m ''close_at'') (\<lambda>close_at.
     Option.bind (dflt False as_bool m ''allow_edits'') (\<lambda>allow_edits.
     Option.bind (dflt True as_bool m ''single_submission'') (\<lambda>single_submission.
     Option.bind (opt read_i32 m ''passing_score'') (\<lambda>passing_score.
     Option.bind (dflt False as_bool m ''require_verified'') (\<lambda>require_verified.
     Option.bind (dflt 0 read_i32 m ''min_account_age_days'') (\<lambda>min_account_age_days.
     Option.bind (dflt default_success_message as_str m ''success_message'') (\<lambda>success_message.
     Option.bind (opt as_str m ''webhook_url'') (\<lambda>webhook_url.
     Option.bind (dflt False as_bool m ''archived'') (\<lambda>archived.
     Option.bind (dflt default_max_attempts_body read_i32 m ''max_attempts'') (\<lambda>max_attempts.
     Option.bind (dflt 0 read_i32 m ''retry_cooldown_seconds'') (\<lambda>retry_cooldown_seconds.
     Option.bind (dflt default_retry_policy as_str m ''retry_policy'') (\<lambda>retry_policy.
     Option.bind (dflt True as_bool m ''lock_on_pass'') (\<lambda>lock_on_pass.
     Option.bind (need read_i32 m ''version'') (\<lambda>version.
     Some \<lparr>ub_title = title, ub_description = description, ub_schema = schema, ub_is_quiz = is_quiz,
       ub_open_at = open_at, ub_close_at = close_at, ub_allow_edits = allow_edits,
       ub_single_submission = single_submission, ub_passing_score = passing_score,
       ub_require_verified = require_verified, ub_min_account_age_days = min_account_age_days,
       ub_success_message = success_message, ub_webhook_url = webhook_url, ub_archived = archived,
       ub_max_attempts = max_attempts, ub_retry_cooldown_seconds = retry_cooldown_seconds,
       ub_retry_policy = retry_policy, ub_lock_on_pass = lock_on_pass, ub_version = version\<rparr>))))))))))))))))))))"

text \<open>Numbers of a body are within their columns' range.\<close>

lemma read_i32_range: "read_i32 v = Some n \<Longrightarrow> in_i32 n"
  by (auto simp: read_i32_def split: option.splits if_splits)

lemma update_body_range:
  assumes "update_body_from_json datetime v = Some b"
  shows "in_i32 (ub_version b) \<and> in_i32 (ub_max_attempts b) \<and> in_i32 (ub_retry_cooldown_seconds b)
    \<and> in_i32 (ub_min_account_age_days b) \<and> (\<forall>n. ub_passing_score b = Some n \<longrightarrow> in_i32 n)"
proof -
  have need: "need read_i32 m k = Some n \<Longrightarrow> in_i32 n" and dflt: "in_i32 d \<Longrightarrow> dflt d read_i32 m k = Some n \<Longrightarrow> in_i32 n"
    and opt: "opt read_i32 m k = Some x \<Longrightarrow> x = Some n \<Longrightarrow> in_i32 n" for m k n d x
    by (auto simp: need_def dflt_def opt_def read_i32_range split: option.splits if_splits)
  have "in_i32 0" "in_i32 default_max_attempts_body" by (simp_all add: in_i32_def default_max_attempts_body_def)
  then show ?thesis
    using assms unfolding update_body_from_json_def
    by (clarsimp simp: Option.bind_eq_Some_conv) (blast dest: need dflt opt)
qed

end
