(* ===== verification/Queue.thy ===== *)
theory Queue
  imports Jobs
begin

text \<open>
  The job queue with any number of workers: a step relation over the table, the jobs the workers
  hold, and the clock. A worker claims a batch, settles a job it holds (\<open>job_outcome\<close> is the choice
  at the end of \<open>tasks/job_worker.rs\<close>), releases it at shutdown, or loses it (a crash, or a settling
  statement that fails). The reaper is a step of its own, so that the guarantees that need its
  absence can be told from the ones that do not.
\<close>

subsection \<open>The outcome of a dispatched job\<close>

datatype job_error = Terminal str | Retry str

definition job_outcome :: "int \<Rightarrow> job \<Rightarrow> (job_error, unit) result \<Rightarrow> outcome" where
  "job_outcome jitter_ms j r = (case r of
       Inr _ \<Rightarrow> Done
     | Inl (Terminal m) \<Rightarrow> GiveUp m
     | Inl (Retry m) \<Rightarrow> if j_max_attempts j \<le> j_attempts j then GiveUp m else RetryLater jitter_ms m)"

definition shutdown_note :: str where "shutdown_note = ''worker shutting down''"

definition stuck_lock_secs :: int where "stuck_lock_secs = 60 * 45"

subsection \<open>The steps\<close>

record queue_state =
  q_table :: job_table
  q_hands :: "(str \<times> job) list"
  q_now :: int

definition empty_queue :: queue_state where
  "empty_queue = \<lparr>q_table = \<lparr>jt_next_id = 1, jt_rows = []\<rparr>, q_hands = [], q_now = 0\<rparr>"

datatype queue_event =
    Enqueued job_kind json nat
  | Ticked int
  | Claimed str nat "int set"
  | Settled str job int "(job_error, unit) result"
  | Released str job int
  | Lost str job
  | Reaped

inductive queue_step :: "queue_state \<Rightarrow> queue_event \<Rightarrow> queue_state \<Rightarrow> bool" where
  enqueued: "queue_step q (Enqueued k p d) (q\<lparr>q_table := insert_job (q_now q) k p d (q_table q)\<rparr>)"
| ticked: "q_now q \<le> n \<Longrightarrow> queue_step q (Ticked n) (q\<lparr>q_now := n\<rparr>)"
| claimed: "claim_batch w n busy (q_now q) (q_table q) = (js, t) \<Longrightarrow>
    queue_step q (Claimed w n busy) (q\<lparr>q_table := t, q_hands := q_hands q @ map (Pair w) js\<rparr>)"
| settled: "(w, j) \<in> set (q_hands q) \<Longrightarrow>
    queue_step q (Settled w j jit r) (q\<lparr>q_table := settle (q_now q) j (job_outcome jit j r) (q_table q),
      q_hands := remove1 (w, j) (q_hands q)\<rparr>)"
| released: "(w, j) \<in> set (q_hands q) \<Longrightarrow>
    queue_step q (Released w j jit) (q\<lparr>q_table := fail_retry (q_now q) jit j shutdown_note (q_table q),
      q_hands := remove1 (w, j) (q_hands q)\<rparr>)"
| lost: "(w, j) \<in> set (q_hands q) \<Longrightarrow> queue_step q (Lost w j) (q\<lparr>q_hands := remove1 (w, j) (q_hands q)\<rparr>)"
| reaped: "queue_step q Reaped (q\<lparr>q_table := snd (reap_stuck (q_now q) stuck_lock_secs (q_table q))\<rparr>)"

inductive_cases queue_stepE: "queue_step q e q'"

text \<open>Runs from the empty queue over the events of a set.\<close>

inductive queue_run :: "queue_event set \<Rightarrow> queue_state \<Rightarrow> bool" for A where
  start: "queue_run A empty_queue"
| step: "queue_run A q \<Longrightarrow> e \<in> A \<Longrightarrow> queue_step q e q' \<Longrightarrow> queue_run A q'"

lemma queue_run_mono: "queue_run A q \<Longrightarrow> A \<subseteq> B \<Longrightarrow> queue_run B q"
  by (induction rule: queue_run.induct) (auto intro: queue_run.intros)

lemma claim_table_ok: "claim_batch w n busy now t = (js, t') \<Longrightarrow> table_ok t \<Longrightarrow> table_ok t'"
  using claim_batch_ok [of t w n busy now] by simp

lemma step_table_ok: "queue_step q e q' \<Longrightarrow> table_ok (q_table q) \<Longrightarrow> table_ok (q_table q')"
  by (induction rule: queue_step.induct)
    (auto simp: insert_job_ok settle_table_ok settle_ok reap_stuck_ok intro: claim_table_ok)

lemma run_table_ok: "queue_run A q \<Longrightarrow> table_ok (q_table q)"
  by (induction rule: queue_run.induct) (auto simp: empty_queue_def table_ok_def dest: step_table_ok)

subsection \<open>Leases\<close>

abbreviation "held q \<equiv> map snd (q_hands q)"

lemma map_snd_remove1: "distinct (map (f \<circ> snd) xs) \<Longrightarrow> x \<in> set xs \<Longrightarrow> map snd (remove1 x xs) = remove1 (snd x) (map snd xs)"
proof (induction xs)
  case (Cons a xs)
  show ?case
  proof (cases "a = x")
    case False
    then have "x \<in> set xs" using Cons.prems by simp
    moreover have "snd x \<noteq> snd a" using Cons.prems(1) calculation by (auto simp: image_iff)
    ultimately show ?thesis using False Cons by auto
  qed simp
qed simp

lemma filter_key_unique: "distinct (map f xs) \<Longrightarrow> x \<in> set xs \<Longrightarrow> filter (\<lambda>y. f y = f x) xs = [x]"
  by (induction xs) (auto simp: filter_empty_conv image_iff)

lemma snd_remove1_settle:
  assumes "queue.leased (held q) t" and "(w, j) \<in> set (q_hands q)"
  shows "map snd (remove1 (w, j) (q_hands q)) = remove1 j (held q)" and "j \<in> set (held q)"
  using assms map_snd_remove1 [of j_id "q_hands q" "(w, j)"] by (force simp: queue.leased_def)+

lemma settles_fail_retry: "settles_job t j Pending (fail_retry now jit j m t)"
  unfolding settles_job_def by (rule exI [of _ now], rule exI [of _ "RetryLater jit m"]) (simp add: settle_def)

lemma settles_outcome: "settles_job t j (outcome_status out) (settle now j out t)"
  by (auto simp: settles_job_def)

lemma status_empty [simp]: "job_status_of (q_table empty_queue) i = None"
  by (simp add: job_status_of_def empty_queue_def)

lemma status_insert_new: "job_status_of (insert_job now k p d t) i = Some s \<Longrightarrow>
    job_status_of t i = Some s \<or> job_status_of t i = None \<and> s = Pending"
  by (auto simp: job_status_of_def insert_job_def find_append_case new_job_row_def split: option.splits if_splits)

lemma leased_insert: "table_ok t \<Longrightarrow> queue.leased hands t \<Longrightarrow> queue.leased hands (insert_job now k p d t)"
  unfolding queue.leased_def by (simp add: status_insert_job)

lemma step_leased:
  assumes "queue_step q e q'" and "e \<noteq> Reaped" and "table_ok (q_table q)" and "queue.leased (held q) (q_table q)"
  shows "queue.leased (held q') (q_table q')"
  using assms
proof (induction rule: queue_step.induct)
  case (claimed w n busy q js t)
  then have "claims_batch (q_table q) js t" by (auto simp: claims_batch_def)
  from queue.leased_claim [OF _ this] claimed show ?case by (simp add: comp_def)
next
  case (settled w j q jit r)
  then show ?case
    using queue.leased_settle [OF _ _ settles_outcome] snd_remove1_settle [of q "q_table q" w j] by simp
next
  case (released w j q jit)
  then show ?case
    using queue.leased_settle [OF _ _ settles_fail_retry] snd_remove1_settle [of q "q_table q" w j] by simp
next
  case (lost w j q)
  then show ?case using queue.leased_drop snd_remove1_settle [of q "q_table q" w j] by simp
qed (auto simp: leased_insert)

lemma run_leased:
  assumes "queue_run A q" and "Reaped \<notin> A"
  shows "queue.leased (held q) (q_table q)"
  using assms(1)
proof (induction rule: queue_run.induct)
  case start
  then show ?case by (simp add: queue.leased_def empty_queue_def)
next
  case (step q e q')
  then show ?case using step_leased run_table_ok assms(2) by blast
qed

subsection \<open>The steps as a function\<close>

fun next_state :: "queue_state \<Rightarrow> queue_event \<Rightarrow> queue_state option" where
  "next_state q (Enqueued k p d) = Some (q\<lparr>q_table := insert_job (q_now q) k p d (q_table q)\<rparr>)"
| "next_state q (Ticked n) = (if q_now q \<le> n then Some (q\<lparr>q_now := n\<rparr>) else None)"
| "next_state q (Claimed w n busy) = (case claim_batch w n busy (q_now q) (q_table q) of (js, t) \<Rightarrow>
     Some (q\<lparr>q_table := t, q_hands := q_hands q @ map (Pair w) js\<rparr>))"
| "next_state q (Settled w j jit r) = (if (w, j) \<in> set (q_hands q) then
     Some (q\<lparr>q_table := settle (q_now q) j (job_outcome jit j r) (q_table q),
       q_hands := remove1 (w, j) (q_hands q)\<rparr>) else None)"
| "next_state q (Released w j jit) = (if (w, j) \<in> set (q_hands q) then
     Some (q\<lparr>q_table := fail_retry (q_now q) jit j shutdown_note (q_table q),
       q_hands := remove1 (w, j) (q_hands q)\<rparr>) else None)"
| "next_state q (Lost w j) = (if (w, j) \<in> set (q_hands q) then
     Some (q\<lparr>q_hands := remove1 (w, j) (q_hands q)\<rparr>) else None)"
| "next_state q Reaped = Some (q\<lparr>q_table := snd (reap_stuck (q_now q) stuck_lock_secs (q_table q))\<rparr>)"

lemma next_state_iff: "next_state q e = Some q' \<longleftrightarrow> queue_step q e q'"
proof
  show "queue_step q e q' \<Longrightarrow> next_state q e = Some q'" by (induction rule: queue_step.induct) simp_all
  show "next_state q e = Some q' \<Longrightarrow> queue_step q e q'"
    by (cases e) (auto intro: queue_step.intros split: if_splits prod.splits)
qed

fun run_events :: "queue_event list \<Rightarrow> queue_state \<Rightarrow> queue_state option" where
  "run_events [] q = Some q"
| "run_events (e # es) q = (case next_state q e of Some q' \<Rightarrow> run_events es q' | None \<Rightarrow> None)"

lemma run_events_run: "run_events es q = Some q' \<Longrightarrow> queue_run A q \<Longrightarrow> set es \<subseteq> A \<Longrightarrow> queue_run A q'"
  by (induction es arbitrary: q) (auto simp: next_state_iff intro: queue_run.step split: option.splits)

subsection \<open>What a worker holds\<close>

text \<open>A held job is what its row says, and the row is locked by the holder.\<close>

definition holds :: "job_table \<Rightarrow> str \<times> job \<Rightarrow> bool" where
  "holds t h \<longleftrightarrow> (\<exists>r \<in> set (jt_rows t). job_of_row r = snd h \<and> jr_status r = InProgress \<and> jr_locked_by r = Some (fst h))"

definition within_attempts :: "job_row \<Rightarrow> bool" where
  "within_attempts r \<longleftrightarrow> jr_attempts r \<le> jr_max_attempts r \<and> (jr_status r = Pending \<longrightarrow> jr_attempts r < jr_max_attempts r)"

lemma holds_insert: "holds t h \<Longrightarrow> holds (insert_job now k p d t) h"
  by (auto simp: holds_def insert_job_def)

lemma holds_update_other: "holds t h \<Longrightarrow> j_id (snd h) \<noteq> i \<Longrightarrow> holds (update_job i f t) h"
proof -
  assume h: "holds t h" and i: "j_id (snd h) \<noteq> i"
  from h obtain r where r: "r \<in> set (jt_rows t)" "job_of_row r = snd h" "jr_status r = InProgress" "jr_locked_by r = Some (fst h)"
    unfolding holds_def by blast
  then have "jr_id r \<noteq> i" using i by (metis job.select_convs(1) job_of_row_def)
  then have "r \<in> set (jt_rows (update_job i f t))"
    using r(1) by (auto simp: update_job_def image_iff intro!: bexI [of _ r])
  then show ?thesis using r unfolding holds_def by blast
qed

lemma holds_settle_other: "holds t h \<Longrightarrow> j_id (snd h) \<noteq> j_id j \<Longrightarrow> holds (settle now j out t) h"
  by (cases out) (simp_all add: settle_def complete_def fail_retry_def fail_dead_def holds_update_other)

lemma holds_claim_old:
  assumes "claim_batch w n busy now t = (js, t')" and "table_ok t" and "holds t h"
  shows "holds t' h"
proof -
  obtain r where r: "r \<in> set (jt_rows t)" "job_of_row r = snd h" "jr_status r = InProgress" "jr_locked_by r = Some (fst h)"
    using assms(3) by (auto simp: holds_def)
  then have "jr_id r \<notin> set (claimed_ids now busy n t)"
    using claimed_ids_pending [OF assms(2)] status_of_row [OF assms(2)] by fastforce
  then show ?thesis using r assms(1) by (auto simp: holds_def claim_batch_def Let_def)
qed

lemma holds_claim_new:
  assumes "claim_batch w n busy now t = (js, t')" and "j \<in> set js"
  shows "holds t' (w, j)"
proof -
  obtain r where "r \<in> set (jt_rows t)" "jr_id r \<in> set (claimed_ids now busy n t)" "j = job_of_row (lease_row w now r)"
    using assms by (auto simp: claim_batch_def Let_def lease_row_def)
  moreover from this have "lease_row w now r \<in> set (jt_rows t')"
    using assms(1) by (auto simp: claim_batch_def Let_def image_iff intro!: bexI [of _ r])
  ultimately show ?thesis unfolding holds_def by (intro bexI [of _ "lease_row w now r"]) (auto simp: lease_row_def)
qed

lemma step_holds:
  assumes "queue_step q e q'" and "e \<noteq> Reaped" and "table_ok (q_table q)" and "queue.leased (held q) (q_table q)"
    and "\<forall>h \<in> set (q_hands q). holds (q_table q) h"
  shows "\<forall>h \<in> set (q_hands q'). holds (q_table q') h"
  using assms
proof (induction rule: queue_step.induct)
  case (claimed w n busy q js t)
  then show ?case using holds_claim_old holds_claim_new by fastforce
next
  case (settled w j q jit r)
  have "j_id (snd h) \<noteq> j_id j" if "h \<in> set (remove1 (w, j) (q_hands q))" for h
    using that settled by (auto simp: queue.leased_def distinct_map inj_on_def image_iff)
  then show ?case using settled set_remove1_subset [of "(w, j)" "q_hands q"] by (auto intro!: holds_settle_other)
next
  case (released w j q jit)
  have "j_id (snd h) \<noteq> j_id j" if "h \<in> set (remove1 (w, j) (q_hands q))" for h
    using that released by (auto simp: queue.leased_def distinct_map inj_on_def image_iff)
  then show ?case
    using released set_remove1_subset [of "(w, j)" "q_hands q"] by (auto simp: fail_retry_def intro!: holds_update_other)
next
  case (lost w j q)
  then show ?case using set_remove1_subset [of "(w, j)" "q_hands q"] by auto
qed (auto simp: holds_insert)

lemma run_holds:
  assumes "queue_run A q" and "Reaped \<notin> A"
  shows "\<forall>h \<in> set (q_hands q). holds (q_table q) h"
  using assms(1)
proof (induction rule: queue_run.induct)
  case start
  then show ?case by (simp add: empty_queue_def)
next
  case (step q e q')
  then show ?case using step_holds run_table_ok run_leased assms(2) by blast
qed

subsection \<open>Attempts\<close>

lemma job_of_row_unique:
  assumes "table_ok t" and "r \<in> set (jt_rows t)" and "r' \<in> set (jt_rows t)" and "jr_id r = jr_id r'"
  shows "r = r'"
  using assms sorted_ids_find [of "jt_rows t"] by (metis option.inject table_ok_def)

lemma settle_update:
  obtains f where "settle now j out t = update_job (j_id j) f t" "jr_attempts (f row) = jr_attempts row"
    "jr_max_attempts (f row) = jr_max_attempts row" "jr_status (f row) = outcome_status out"
  by (cases out) (auto simp: settle_def complete_def fail_retry_def fail_dead_def intro: that)

lemma step_attempts:
  assumes "queue_step q e q'" and "e \<noteq> Reaped" and "\<nexists>w j jit. e = Released w j jit" and "table_ok (q_table q)"
    and h: "\<forall>h \<in> set (q_hands q). holds (q_table q) h" and "list_all within_attempts (jt_rows (q_table q))"
  shows "list_all within_attempts (jt_rows (q_table q'))"
  using assms
proof (induction rule: queue_step.induct)
  case (claimed w n busy q js t)
  have "within_attempts (lease_row w (q_now q) r)"
    if "r \<in> set (jt_rows (q_table q))" "jr_id r \<in> set (claimed_ids (q_now q) busy n (q_table q))" for r
  proof -
    have "within_attempts r" using that claimed by (simp add: list_all_iff)
    moreover have "jr_status r = Pending"
      using that claimed claimed_ids_pending [of "q_table q" "jr_id r"] status_of_row [of "q_table q" r] by fastforce
    ultimately show ?thesis by (simp add: within_attempts_def lease_row_def)
  qed
  then have "list_all within_attempts (map (\<lambda>r. if jr_id r \<in> set (claimed_ids (q_now q) busy n (q_table q))
      then lease_row w (q_now q) r else r) (jt_rows (q_table q)))"
    using claimed by (auto simp: list_all_iff)
  then show ?case using claimed by (auto simp: claim_batch_def Let_def)
next
  case (settled w j q jit r)
  obtain row where row: "row \<in> set (jt_rows (q_table q))" "job_of_row row = j"
    using settled by (fastforce simp: holds_def)
  obtain f where f: "settle (q_now q) j (job_outcome jit j r) (q_table q) = update_job (j_id j) f (q_table q)"
    "jr_attempts (f row) = jr_attempts row" "jr_max_attempts (f row) = jr_max_attempts row"
    "jr_status (f row) = outcome_status (job_outcome jit j r)"
    by (rule settle_update [of _ j _ _ row])
  have "jr_attempts row < jr_max_attempts row" if "jr_status (f row) = Pending"
    using that row(2) f(4) by (auto simp: job_outcome_def job_of_row_def split: sum.splits job_error.splits if_splits)
  then have "within_attempts (f row)"
    using settled row(1) f(2,3) by (auto simp: within_attempts_def list_all_iff)
  moreover have "x = row" if "x \<in> set (jt_rows (q_table q))" "jr_id x = j_id j" for x
    using that row settled(4) job_of_row_unique [of "q_table q" x row] by (auto simp: job_of_row_def)
  ultimately show ?case using settled f(1) by (auto simp: update_job_def list_all_iff)
qed (auto simp: insert_job_def new_job_row_def within_attempts_def default_max_attempts_def)

lemma run_attempts:
  assumes "queue_run A q" and "Reaped \<notin> A" and "\<nexists>w j jit. Released w j jit \<in> A"
  shows "list_all within_attempts (jt_rows (q_table q))"
  using assms(1)
proof (induction rule: queue_run.induct)
  case start
  then show ?case by (simp add: empty_queue_def)
next
  case (step q e q')
  then show ?case
    using step_attempts [of q e q'] run_table_ok run_holds [OF _ assms(2)] assms(2,3) by blast
qed

subsection \<open>The life of a job\<close>

text \<open>The contract of the queue: what a job's status may become.\<close>

inductive lifecycle_step :: "(int \<Rightarrow> job_status option) \<Rightarrow> (int \<Rightarrow> job_status option) \<Rightarrow> bool" where
  idle: "lifecycle_step m m"
| submit: "m i = None \<Longrightarrow> lifecycle_step m (m(i \<mapsto> Pending))"
| take: "(\<forall>i \<in> I. m i = Some Pending) \<Longrightarrow> lifecycle_step m (\<lambda>i. if i \<in> I then Some InProgress else m i)"
| finish: "m i = Some InProgress \<Longrightarrow> s \<noteq> InProgress \<Longrightarrow> lifecycle_step m (m(i \<mapsto> s))"

lemma lifecycle_final: "lifecycle_step m m' \<Longrightarrow> m i = Some s \<Longrightarrow> s = Completed \<or> s = Dead \<Longrightarrow> m' i = Some s"
  by (induction rule: lifecycle_step.induct) auto

lemma status_settle_fun: "job_status_of t (j_id j) \<noteq> None \<Longrightarrow>
    job_status_of (settle now j out t) = (job_status_of t)(j_id j \<mapsto> outcome_status out)"
  by (auto simp: status_settle fun_eq_iff)

lemma lifecycle_settle:
  assumes "job_status_of t (j_id j) = Some InProgress"
  shows "lifecycle_step (job_status_of t) (job_status_of (settle now j out t))"
proof -
  have "outcome_status out \<noteq> InProgress" by (cases out) simp_all
  moreover have "job_status_of (settle now j out t) = (job_status_of t)(j_id j \<mapsto> outcome_status out)"
    by (rule status_settle_fun) (simp add: assms)
  ultimately show ?thesis using finish [of "job_status_of t", OF assms] by metis
qed

lemma table_fresh: "table_ok t \<Longrightarrow> job_status_of t (jt_next_id t) = None"
  by (auto simp: job_status_of_def table_ok_def find_None_iff)

lemma step_refines:
  assumes "queue_step q e q'" and "e \<noteq> Reaped" and "table_ok (q_table q)" and "queue.leased (held q) (q_table q)"
  shows "lifecycle_step (job_status_of (q_table q)) (job_status_of (q_table q'))"
  using assms
proof (induction rule: queue_step.induct)
  case (enqueued q k p d)
  have "job_status_of (insert_job (q_now q) k p d (q_table q)) = (job_status_of (q_table q))(jt_next_id (q_table q) \<mapsto> Pending)"
    using table_fresh [OF enqueued(2)]
    by (auto simp: fun_eq_iff job_status_of_def insert_job_def find_append_case new_job_row_def split: option.split)
  then have "lifecycle_step (job_status_of (q_table q)) (job_status_of (insert_job (q_now q) k p d (q_table q)))"
    using submit [of "job_status_of (q_table q)", OF table_fresh [OF enqueued(2)]] by (simp only:)
  then show ?case by simp
next
  case (claimed w n busy q js t)
  let ?I = "set (claimed_ids (q_now q) busy n (q_table q))"
  have pend: "\<forall>i \<in> ?I. job_status_of (q_table q) i = Some Pending"
    using claimed_ids_pending [OF claimed(3)] by blast
  then have "job_status_of t = (\<lambda>i. if i \<in> ?I then Some InProgress else job_status_of (q_table q) i)"
    using status_claim_batch [OF claimed(1)] by (auto simp: fun_eq_iff)
  then show ?case using take [OF pend] by simp
next
  case (settled w j q jit r)
  then have "job_status_of (q_table q) (j_id j) = Some InProgress" by (auto simp: queue.leased_def)
  then show ?case by (simp add: lifecycle_settle)
next
  case (released w j q jit)
  then have "job_status_of (q_table q) (j_id j) = Some InProgress" by (auto simp: queue.leased_def)
  from lifecycle_settle [OF this, of "q_now q" "RetryLater jit shutdown_note"] show ?case
    by (simp add: settle_def del: status_fail_retry)
qed (auto intro: idle)

subsection \<open>Properties\<close>

text \<open>C33: as long as no lease is reaped, whatever the workers, crashes and releases do, every job a
  worker holds is in progress and locked by that worker, is exactly what its row says, and is held by no
  other worker.\<close>

theorem leases_exclusive:
  assumes "queue_run A q" and "Reaped \<notin> A" and "(w, j) \<in> set (q_hands q)"
  shows "job_status_of (q_table q) (j_id j) = Some InProgress
    \<and> (\<exists>r \<in> set (jt_rows (q_table q)). job_of_row r = j \<and> jr_locked_by r = Some w)
    \<and> filter (\<lambda>h. j_id (snd h) = j_id j) (q_hands q) = [(w, j)]"
proof -
  have l: "queue.leased (held q) (q_table q)" and h: "\<forall>h \<in> set (q_hands q). holds (q_table q) h"
    using run_leased [OF assms(1,2)] run_holds [OF assms(1,2)] .
  have "filter (\<lambda>h. j_id (snd h) = j_id j) (q_hands q) = [(w, j)]"
    using l assms(3) filter_key_unique [of "\<lambda>h. j_id (snd h)" "q_hands q" "(w, j)"]
    by (simp add: queue.leased_def comp_def)
  then show ?thesis using l h assms(3) by (force simp: queue.leased_def holds_def)
qed

text \<open>C34: refinement of the life cycle: without reaping, each step of the queue moves the jobs' statuses
  as the contract allows (submitted as pending, taken only when pending, finished only when in progress),
  so a completed or dead job never changes again.\<close>

theorem queue_refines_lifecycle:
  assumes "queue_run A q" and "Reaped \<notin> A" and "queue_step q e q'" and "e \<noteq> Reaped"
  shows "lifecycle_step (job_status_of (q_table q)) (job_status_of (q_table q'))
    \<and> (job_status_of (q_table q) i \<in> {Some Completed, Some Dead} \<longrightarrow>
        job_status_of (q_table q') i = job_status_of (q_table q) i)"
proof -
  have "lifecycle_step (job_status_of (q_table q)) (job_status_of (q_table q'))"
    using step_refines [OF assms(3,4)] run_table_ok [OF assms(1)] run_leased [OF assms(1,2)] by blast
  then show ?thesis using lifecycle_final by fastforce
qed

text \<open>C35: without reaping and without releases at shutdown no job is ever claimed more than
  \<open>max_attempts\<close> times, and a pending job always has an attempt left: a job that keeps failing dies.\<close>

theorem attempts_bounded:
  assumes "queue_run A q" and "Reaped \<notin> A" and "\<nexists>w j jit. Released w j jit \<in> A" and "r \<in> set (jt_rows (q_table q))"
  shows "jr_attempts r \<le> jr_max_attempts r \<and> (jr_status r = Pending \<longrightarrow> jr_attempts r < jr_max_attempts r)"
  using run_attempts [OF assms(1-3)] assms(4) by (auto simp: list_all_iff within_attempts_def)

definition sample_run :: "queue_event list" where
  "sample_run = [Enqueued PlayerSync JNull 0, Claimed ''a'' 8 {}]"

definition sample_job :: job where
  "sample_job = \<lparr>j_id = 1, j_kind = ''player_sync'', j_payload = JNull, j_attempts = 1, j_max_attempts = 8\<rparr>"

definition sample_state :: queue_state where
  "sample_state = the (run_events sample_run empty_queue)"

lemma sample_reached: "queue_run (set sample_run) sample_state"
proof -
  have "run_events sample_run empty_queue \<noteq> None" by code_simp
  then show ?thesis
    using run_events_run [OF _ queue_run.start order_refl, of sample_run sample_state] by (auto simp: sample_state_def)
qed

theorem leases_exclusive_witness:
  "filter (\<lambda>h. j_id (snd h) = 1) (q_hands sample_state) = [(''a'', sample_job)]"
proof -
  have "(''a'', sample_job) \<in> set (q_hands sample_state)" by code_simp
  moreover have "Reaped \<notin> set sample_run" by (simp add: sample_run_def)
  ultimately show ?thesis using leases_exclusive [OF sample_reached, of "''a''" sample_job]
    by (simp add: sample_job_def)
qed

theorem queue_refines_lifecycle_witness:
  "lifecycle_step (job_status_of (q_table sample_state))
     (job_status_of (q_table (sample_state\<lparr>q_now := 5\<rparr>)))"
proof -
  have "q_now sample_state \<le> 5" by code_simp
  then have "queue_step sample_state (Ticked 5) (sample_state\<lparr>q_now := 5\<rparr>)" by (rule queue_step.ticked)
  moreover have "Reaped \<notin> set sample_run" by (simp add: sample_run_def)
  ultimately show ?thesis using queue_refines_lifecycle [OF sample_reached] by blast
qed

theorem attempts_bounded_witness: "map jr_attempts (jt_rows (q_table sample_state)) = [1] \<and> (1 :: int) \<le> 8"
proof
  show rows: "map jr_attempts (jt_rows (q_table sample_state)) = [1]" by code_simp
  obtain r where r: "jt_rows (q_table sample_state) = [r]" "jr_attempts r = 1" "jr_max_attempts r = 8"
  proof -
    have "map jr_max_attempts (jt_rows (q_table sample_state)) = [8]" by code_simp
    with rows that show ?thesis by (auto simp: map_eq_Cons_conv)
  qed
  have "Reaped \<notin> set sample_run" "\<nexists>w j jit. Released w j jit \<in> set sample_run" by (auto simp: sample_run_def)
  from attempts_bounded [OF sample_reached this, of r] r show "(1 :: int) \<le> 8" by simp
qed

definition revival_run :: "queue_event list" where
  "revival_run = sample_run @ [Ticked (2701 * second), Reaped, Claimed ''b'' 8 {},
     Settled ''b'' (sample_job\<lparr>j_attempts := 2\<rparr>) 0 (Inr ())]"

text \<open>C36: the statements that settle a job do not check who holds it: after the reaper revived a slow
  worker's lease and another worker completed the job, the slow worker's late failure makes the completed
  job pending again.\<close>

theorem late_settle_revives_completed:
  "\<exists>q q'. queue_run UNIV q \<and> job_status_of (q_table q) 1 = Some Completed
     \<and> queue_step q (Settled ''a'' sample_job 0 (Inl (Retry ''timeout''))) q'
     \<and> job_status_of (q_table q') 1 = Some Pending"
proof -
  let ?late = "Settled ''a'' sample_job 0 (Inl (Retry ''timeout''))"
  have "run_events revival_run empty_queue \<noteq> None" by code_simp
  then obtain q where q: "run_events revival_run empty_queue = Some q" by blast
  have "map_option (\<lambda>q. job_status_of (q_table q) 1) (run_events revival_run empty_queue) = Some (Some Completed)" by code_simp
  then have 1: "job_status_of (q_table q) 1 = Some Completed" by (simp add: q)
  have "map_option (\<lambda>q. map_option (\<lambda>q'. job_status_of (q_table q') 1) (next_state q ?late)) (run_events revival_run empty_queue)
      = Some (Some (Some Pending))" by code_simp
  then obtain q' where "next_state q ?late = Some q'" "job_status_of (q_table q') 1 = Some Pending" by (auto simp: q)
  moreover have "queue_run UNIV q" using run_events_run [OF q queue_run.start] by simp
  ultimately show ?thesis using 1 unfolding next_state_iff by blast
qed

end
