(* ===== verification/Worker.thy ===== *)
theory Worker
  imports Sync Webhook Queue
begin

text \<open>
  \<open>tasks/job_worker.rs\<close> and \<open>tasks/shutdown.rs\<close>: the dispatch of a job by kind, the conclusion of a
  dispatched job, the shutdown guard, a claimed batch, and the worker's loop as a run over turns. A
  turn fixes the instant, the rows other workers hold locked and which branch of \<open>select!\<close> wins;
  time stands still within a turn. The guard is a receiver of a broadcast channel of capacity one,
  given by the number of messages sent and the number received.
\<close>

record services =
  sv_net :: net
  sv_config :: sync_config
  sv_payload_error :: "json \<Rightarrow> str"  \<comment> \<open>serde's text for a payload it cannot read\<close>

fun job_error_of :: "app_error \<Rightarrow> job_error" where
  "job_error_of ERoleLinkNotFound = Terminal ''role link no longer exists upstream''"
| "job_error_of (EUserLimitReached limit) =
     Terminal (''role link user limit reached ('' @ show_nat limit @ ''); retry won'' @ [CHR 0x27] @ ''t help'')"
| "job_error_of e = Retry (app_error_text e)"

subsection \<open>Dispatch\<close>

type_synonym job_result = "(job_error, unit) result"

definition sync_job :: "unit act \<Rightarrow> world \<Rightarrow> job_result \<times> world" where
  "sync_job m w = (case m w of (Inl e, w') \<Rightarrow> (Inl (job_error_of e), w') | (Inr _, w') \<Rightarrow> (Inr (), w'))"

definition payload_str :: "str \<Rightarrow> json \<Rightarrow> str \<Rightarrow> (job_error, str) result" where
  "payload_str kind payload member =
     ok_or (case jget payload member of Some v \<Rightarrow> as_str v | None \<Rightarrow> None)
       (Terminal (kind @ '' payload missing '' @ member))"

definition dispatch :: "env \<Rightarrow> services \<Rightarrow> job \<Rightarrow> world \<Rightarrow> job_result \<times> world" where
  "dispatch E S j w =
     (case job_kind_from_db (j_kind j) of
        None \<Rightarrow> (Inl (Terminal (''unknown job kind '' @ [CHR 0x27] @ j_kind j @ [CHR 0x27])), w)
      | Some PlayerSync \<Rightarrow>
          (case player_sync_from_json (j_payload j) of
             None \<Rightarrow> (Inl (Terminal (''invalid player_sync payload: '' @ sv_payload_error S (j_payload j))), w)
           | Some (Updated u) \<Rightarrow> sync_job (sync_for_player E (sv_config S) u) w
           | Some (Unlinked u) \<Rightarrow> sync_job (remove_all_assignments E (sv_config S) u) w)
      | Some ConfigSync \<Rightarrow>
          (case payload_str ''config_sync'' (j_payload j) ''guild_id'' of
             Inl e \<Rightarrow> (Inl e, w)
           | Inr g \<Rightarrow> (case payload_str ''config_sync'' (j_payload j) ''role_id'' of
               Inl e \<Rightarrow> (Inl e, w)
             | Inr r \<Rightarrow> sync_job (sync_for_role_link E (sv_config S) g r) w))
      | Some Webhook \<Rightarrow>
          (case payload_str ''webhook'' (j_payload j) ''url'' of
             Inl e \<Rightarrow> (Inl e, w)
           | Inr url_text \<Rightarrow> (case jget (j_payload j) ''body'' of
               None \<Rightarrow> (Inl (Terminal ''webhook payload missing body''), w)
             | Some body \<Rightarrow> (case deliver_once E (sv_net S) url_text body w of
                 (Inl f, w') \<Rightarrow>
                   (Inl (if wf_terminal f then Terminal (wf_message f) else Retry (wf_message f)), w')
               | (Inr _, w') \<Rightarrow> (Inr (), w')))))"

text \<open>The statement that settles the job; its own failure is logged only.\<close>

definition conclude :: "env \<Rightarrow> job \<Rightarrow> job_result \<Rightarrow> world \<Rightarrow> world" where
  "conclude E j r w =
     snd (on_jobs E (\<lambda>now. settle now j (job_outcome (e_jitter_ms E (w_tick w)) j r)) w)"

subsection \<open>The shutdown guard\<close>

text \<open>\<open>try_recv\<close>: nothing new, lagged behind (the receiver moves to the last message), or received.\<close>

definition is_triggered :: "nat \<Rightarrow> nat \<Rightarrow> bool \<times> nat" where
  "is_triggered sent received =
     (if sent \<le> received then (False, received)
      else if 1 < sent - received then (False, sent - 1)
      else (True, received + 1))"

subsection \<open>A batch\<close>

datatype handled = Put_back int | Ran int

definition process_job ::
  "env \<Rightarrow> services \<Rightarrow> (nat \<Rightarrow> nat) \<Rightarrow> job \<Rightarrow> nat \<times> world \<Rightarrow> handled \<times> nat \<times> world" where
  "process_job E S sent j rw =
     (case rw of (received, w) \<Rightarrow>
       (case is_triggered (sent (w_tick w)) received of
          (True, received') \<Rightarrow>
            (Put_back (j_id j), received',
             snd (on_jobs E (\<lambda>now. fail_retry now (e_jitter_ms E (w_tick w)) j shutdown_note) w))
        | (False, received') \<Rightarrow>
            (case dispatch E S j w of (r, w') \<Rightarrow> (Ran (j_id j), received', conclude E j r w'))))"

fun process_batch ::
  "env \<Rightarrow> services \<Rightarrow> (nat \<Rightarrow> nat) \<Rightarrow> job list \<Rightarrow> nat \<times> world \<Rightarrow> handled list \<times> nat \<times> world" where
  "process_batch E S sent [] rw = ([], rw)"
| "process_batch E S sent (j # js) rw =
     (case process_job E S sent j rw of (h, rw') \<Rightarrow>
       (case process_batch E S sent js rw' of (hs, rw'') \<Rightarrow> (h # hs, rw'')))"

subsection \<open>The loop\<close>

datatype wake = Timer | Notified | Signalled

record turn =
  tn_now :: int
  tn_busy :: "int set"
  tn_wake :: wake

record worker_state =
  ws_last_reap :: int
  ws_received :: nat
  ws_world :: world

definition batch_size :: nat where "batch_size = 8"
definition reap_every :: int where "reap_every = 120 * second"

text \<open>The \<open>select!\<close> of an idle worker: it stops when the shutdown branch wins.\<close>

definition await_more :: "nat \<Rightarrow> turn \<Rightarrow> worker_state \<Rightarrow> bool \<times> worker_state" where
  "await_more sent tn s =
     (if tn_wake tn = Signalled \<and> ws_received s < sent
      then (True, s\<lparr>ws_received := snd (is_triggered sent (ws_received s))\<rparr>)
      else (False, s))"

definition reap_due :: "env \<Rightarrow> worker_state \<Rightarrow> worker_state" where
  "reap_due E s =
     (if reap_every \<le> w_now (ws_world s) - ws_last_reap s then
        s\<lparr>ws_last_reap := w_now (ws_world s),
          ws_world := snd (on_jobs E (\<lambda>now t. snd (reap_stuck now stuck_lock_secs t)) (ws_world s))\<rparr>
      else s)"

definition claim_jobs :: "env \<Rightarrow> str \<Rightarrow> int set \<Rightarrow> job list act" where
  "claim_jobs E worker_id busy w =
     db_stmt E (\<lambda>d. case claim_batch worker_id batch_size busy (w_now w) (db_jobs d) of
       (js, t) \<Rightarrow> Inr (js, d\<lparr>db_jobs := t\<rparr>)) w"

definition worker_turn ::
  "env \<Rightarrow> services \<Rightarrow> (nat \<Rightarrow> nat) \<Rightarrow> str \<Rightarrow> turn \<Rightarrow> worker_state \<Rightarrow> bool \<times> worker_state" where
  "worker_turn E S sent worker_id tn s0 =
     (let s = s0\<lparr>ws_world := (ws_world s0)\<lparr>w_now := tn_now tn\<rparr>\<rparr> in
      case is_triggered (sent (w_tick (ws_world s))) (ws_received s) of
        (True, received) \<Rightarrow> (True, s\<lparr>ws_received := received\<rparr>)
      | (False, received) \<Rightarrow>
          let s1 = reap_due E (s\<lparr>ws_received := received\<rparr>) in
          (case claim_jobs E worker_id (tn_busy tn) (ws_world s1) of
             (Inl e, w) \<Rightarrow> await_more (sent (w_tick w)) tn (s1\<lparr>ws_world := w\<rparr>)
           | (Inr [], w) \<Rightarrow> await_more (sent (w_tick w)) tn (s1\<lparr>ws_world := w\<rparr>)
           | (Inr (j # js), w) \<Rightarrow>
               (case process_batch E S sent (j # js) (ws_received s1, w) of (hs, received', w') \<Rightarrow>
                  (False, s1\<lparr>ws_received := received', ws_world := w'\<rparr>))))"

fun run_worker ::
  "env \<Rightarrow> services \<Rightarrow> (nat \<Rightarrow> nat) \<Rightarrow> str \<Rightarrow> turn list \<Rightarrow> worker_state \<Rightarrow> bool \<times> worker_state" where
  "run_worker E S sent worker_id [] s = (False, s)"
| "run_worker E S sent worker_id (tn # tns) s =
     (case worker_turn E S sent worker_id tn s of
        (True, s') \<Rightarrow> (True, s')
      | (False, s') \<Rightarrow> run_worker E S sent worker_id tns s')"

subsection \<open>The tables under dispatch\<close>

lemma keeps_sync_job: "keeps P m \<Longrightarrow> P w \<Longrightarrow> P (snd (sync_job m w))"
  by (auto simp: sync_job_def dest: keepsD split: prod.split sum.split)

lemma deliver_db: "w_db (snd (deliver_once E N u b w)) = w_db w"
  by (auto simp: deliver_once_def resolve_and_check_def http_send_def split: sum.split http_reply.split)

context sync_invariant
begin

text \<open>Whatever every sync preserves, a dispatch preserves.\<close>

lemma keeps_dispatch: "P (w_db w) \<Longrightarrow> P (w_db (snd (dispatch E S j w)))"
  using keeps_sync_job [OF keeps_sync_for_player, of w] keeps_sync_job [OF keeps_remove_all, of w]
    keeps_sync_job [OF keeps_sync_for_role_link, of w] deliver_db [of E "sv_net S" _ _ w]
  by (auto simp: dispatch_def on_db_def split: option.split job_kind.split player_sync_payload.split sum.split prod.split)
    (metis snd_conv)+

end

subsection \<open>What a batch leaves\<close>

text \<open>A statement on the jobs changes nothing when it fails.\<close>

lemma on_jobs_db: "w_db (snd (on_jobs E f w)) =
    (if e_db_fault E (w_tick w) = None then (w_db w)\<lparr>db_jobs := f (w_now w) (db_jobs (w_db w))\<rparr> else w_db w)"
  by (simp add: on_jobs_def db_exec_def db_stmt_def Let_def split: option.split)

lemma has_job_settle_other:
  "has_job i s d \<Longrightarrow> i \<noteq> j_id j \<Longrightarrow> has_job i s (d\<lparr>db_jobs := settle now j out (db_jobs d)\<rparr>)"
  by (simp add: has_job_def settle_table_ok status_settle)

lemma has_job_settle:
  "has_job (j_id j) s d \<Longrightarrow> has_job (j_id j) (outcome_status out) (d\<lparr>db_jobs := settle now j out (db_jobs d)\<rparr>)"
  by (simp add: has_job_def settle_table_ok status_settle)

text \<open>How a batch settles a job: by which outcome, and in which statement.\<close>

definition settling :: "env \<Rightarrow> services \<Rightarrow> (nat \<Rightarrow> nat) \<Rightarrow> job \<Rightarrow> nat \<times> world \<Rightarrow> outcome \<times> world" where
  "settling E S sent j rw = (case rw of (rd, w) \<Rightarrow>
     if fst (is_triggered (sent (w_tick w)) rd) then (RetryLater (e_jitter_ms E (w_tick w)) shutdown_note, w)
     else (case dispatch E S j w of (r, w1) \<Rightarrow> (job_outcome (e_jitter_ms E (w_tick w1)) j r, w1)))"

lemma process_job_settles:
  "w_db (snd (snd (process_job E S sent j rw))) = (case settling E S sent j rw of (out, w1) \<Rightarrow>
     if e_db_fault E (w_tick w1) = None then (w_db w1)\<lparr>db_jobs := settle (w_now w1) j out (db_jobs (w_db w1))\<rparr> else w_db w1)"
  by (auto simp: process_job_def settling_def conclude_def on_jobs_db settle_def split: prod.split bool.split)

lemma settling_keeps: "has_job i s (w_db (snd rw)) \<Longrightarrow> settling E S sent j rw = (out, w1) \<Longrightarrow> has_job i s (w_db w1)"
  using job_kept.keeps_dispatch [of i s "snd rw" E S j]
  by (auto simp: settling_def split: prod.splits if_splits)

text \<open>The status a settled job has.\<close>

definition settled_status :: "job \<Rightarrow> job_result \<Rightarrow> job_status" where
  "settled_status j r = (case r of
       Inr _ \<Rightarrow> Completed
     | Inl (Terminal _) \<Rightarrow> Dead
     | Inl (Retry _) \<Rightarrow> if j_attempts j < j_max_attempts j then Pending else Dead)"

lemma settling_status: "outcome_status (fst (settling E S sent j (rd, w))) =
    (if fst (is_triggered (sent (w_tick w)) rd) then Pending else settled_status j (fst (dispatch E S j w)))"
  by (auto simp: settling_def settled_status_def job_outcome_def split: prod.split sum.split job_error.split)

lemma process_job_status:
  assumes "has_job (j_id j) s (w_db (snd rw))"
  shows "has_job (j_id j) (if e_db_fault E (w_tick (snd (settling E S sent j rw))) = None
      then outcome_status (fst (settling E S sent j rw)) else s) (w_db (snd (snd (process_job E S sent j rw))))"
proof -
  obtain out w1 where d: "settling E S sent j rw = (out, w1)" by (metis surj_pair)
  show ?thesis using has_job_settle settling_keeps [OF assms d] by (simp add: process_job_settles d)
qed

lemma process_job_other:
  assumes "has_job i s (w_db (snd rw))" and "i \<noteq> j_id j"
  shows "has_job i s (w_db (snd (snd (process_job E S sent j rw))))"
proof -
  obtain out w1 where d: "settling E S sent j rw = (out, w1)" by (metis surj_pair)
  show ?thesis using has_job_settle_other [OF settling_keeps [OF assms(1) d] assms(2)] settling_keeps [OF assms(1) d]
    by (simp add: process_job_settles d)
qed

lemma snd_process_batch:
  "snd (process_batch E S sent (j # js) rw) = snd (process_batch E S sent js (snd (process_job E S sent j rw)))"
  by (simp split: prod.split)

lemma process_batch_append:
  "snd (process_batch E S sent (js @ ks) rw) = snd (process_batch E S sent ks (snd (process_batch E S sent js rw)))"
  by (induction js arbitrary: rw) (simp_all add: snd_process_batch del: process_batch.simps(2))

lemma process_batch_other:
  "has_job i s (w_db (snd rw)) \<Longrightarrow> i \<notin> j_id ` set js \<Longrightarrow> has_job i s (w_db (snd (snd (process_batch E S sent js rw))))"
proof (induction js arbitrary: rw)
  case (Cons j js)
  have "has_job i s (w_db (snd (snd (process_batch E S sent js (snd (process_job E S sent j rw))))))"
    using Cons process_job_other [of i s rw j] by simp
  then show ?case by (simp only: snd_process_batch)
qed simp

text \<open>A job of a batch, whatever comes before and after it.\<close>

lemma process_batch_job:
  assumes "has_job (j_id j) s (w_db (snd rw))" and "distinct (map j_id (pre @ j # post))"
    and rw1: "rw1 = snd (process_batch E S sent pre rw)"
  shows "has_job (j_id j) (if e_db_fault E (w_tick (snd (settling E S sent j rw1))) = None
      then outcome_status (fst (settling E S sent j rw1)) else s) (w_db (snd (snd (process_batch E S sent (pre @ j # post) rw))))"
proof -
  have id: "j_id j \<notin> j_id ` set pre" "j_id j \<notin> j_id ` set post" using assms(2) by auto
  have "has_job (j_id j) s (w_db (snd rw1))" unfolding rw1 using process_batch_other [OF assms(1) id(1)] .
  from process_batch_other [OF process_job_status [OF this] id(2)]
  show ?thesis unfolding process_batch_append rw1 snd_process_batch by simp
qed

subsection \<open>After the signal was received\<close>

lemma quiet_trigger: "sent \<le> received \<Longrightarrow> is_triggered sent received = (False, received)"
  by (simp add: is_triggered_def)

lemma quiet_batch:
  assumes "\<And>t. sent t \<le> rd"
  shows "fst (process_batch E S sent js (rd, w)) = map (Ran \<circ> j_id) js \<and> fst (snd (process_batch E S sent js (rd, w))) = rd"
proof (induction js arbitrary: w)
  case (Cons j js)
  obtain r w1 where "dispatch E S j w = (r, w1)" by fastforce
  then have "process_job E S sent j (rd, w) = (Ran (j_id j), rd, conclude E j r w1)"
    using assms by (simp add: process_job_def quiet_trigger)
  then show ?case using Cons [of "conclude E j r w1"] by (auto split: prod.split)
qed simp

lemma quiet_turn:
  assumes "\<And>t. sent t \<le> ws_received s"
  shows "\<exists>s'. worker_turn E S sent worker_id tn s = (False, s') \<and> ws_received s' = ws_received s"
proof -
  let ?s = "s\<lparr>ws_world := (ws_world s)\<lparr>w_now := tn_now tn\<rparr>, ws_received := ws_received s\<rparr>"
  let ?s1 = "reap_due E ?s"
  have r: "ws_received ?s1 = ws_received s" by (simp add: reap_due_def)
  have t: "worker_turn E S sent worker_id tn s = (case claim_jobs E worker_id (tn_busy tn) (ws_world ?s1) of
             (Inl e, w) \<Rightarrow> await_more (sent (w_tick w)) tn (?s1\<lparr>ws_world := w\<rparr>)
           | (Inr [], w) \<Rightarrow> await_more (sent (w_tick w)) tn (?s1\<lparr>ws_world := w\<rparr>)
           | (Inr (j # js), w) \<Rightarrow>
               (case process_batch E S sent (j # js) (ws_received ?s1, w) of (hs, received', w') \<Rightarrow>
                  (False, ?s1\<lparr>ws_received := received', ws_world := w'\<rparr>)))"
    using assms by (simp add: worker_turn_def quiet_trigger Let_def)
  have idle: "await_more (sent x) tn (?s1\<lparr>ws_world := w\<rparr>) = (False, ?s1\<lparr>ws_world := w\<rparr>)" for x w
    using assms [of x] r by (simp add: await_more_def)
  have batch: "fst (snd (process_batch E S sent js (ws_received ?s1, w))) = ws_received s" for js w
    using quiet_batch [of sent "ws_received s" E S js w] assms unfolding r by blast
  obtain res w where c: "claim_jobs E worker_id (tn_busy tn) (ws_world ?s1) = (res, w)" by fastforce
  show ?thesis
  proof (cases res)
    case (Inl e)
    then show ?thesis using t c idle r by auto
  next
    case (Inr js)
    show ?thesis
    proof (cases js)
      case Nil
      then show ?thesis using Inr t c idle r by auto
    next
      case (Cons j js')
      obtain hs rd' w' where b: "process_batch E S sent (j # js') (ws_received ?s1, w) = (hs, rd', w')"
        by (metis surj_pair)
      then have "rd' = ws_received s" using batch [of "j # js'" w] by simp
      then show ?thesis using Inr Cons t c b by (auto simp del: process_batch.simps)
    qed
  qed
qed

lemma quiet_worker:
  "(\<And>t. sent t \<le> ws_received s) \<Longrightarrow> fst (run_worker E S sent worker_id tns s) = False"
proof (induction tns arbitrary: s)
  case (Cons tn tns)
  obtain s' where s': "worker_turn E S sent worker_id tn s = (False, s')" "ws_received s' = ws_received s"
    using quiet_turn [of sent s E S worker_id tn] Cons.prems by blast
  then show ?case using Cons.IH [of s'] Cons.prems by simp
qed simp

subsection \<open>Player syncs\<close>

text \<open>With the tables and the gateway working, a player sync ends well whatever RoleLogic answers.\<close>

definition gateway_up :: "env \<Rightarrow> sync_config \<Rightarrow> str \<Rightarrow> bool" where
  "gateway_up E C u \<longleftrightarrow>
     (\<forall>w. \<exists>gs. fst (fetch_user_guild_ids E (sc_gateway C) (sc_internal_key C) u w) = Inr gs)
     \<and> (\<forall>g w. \<exists>os. fst (fetch_guild_optout_ids E (sc_gateway C) (sc_internal_key C) g w) = Inr os)"

lemma vet_guilds_known:
  assumes "gateway_up E C u"
  shows "snd (fst (vet_guilds E C u gs acc w)) = snd acc"
proof (induction gs arbitrary: acc w)
  case (Cons g gs)
  obtain os w' where "fetch_guild_optout_ids E (sc_gateway C) (sc_internal_key C) g w = (Inr os, w')"
    using assms unfolding gateway_up_def by (metis prod.collapse)
  then show ?case using Cons by simp
qed simp

lemma decide_actions_ok:
  "no_faults E \<Longrightarrow> \<exists>as w'. decide_actions E u oo un ex ls w = (Inr as, w')"
proof (induction ls arbitrary: w)
  case (Cons l ls)
  then show ?case
    by (auto simp: act_bind_def db_query_run) (metis (no_types, lifting) act_bind_def act_ok_simp prod.case sum.case(2))+
qed simp

lemma sync_links_ok:
  assumes "no_faults E" and "gateway_up E C u"
  shows "fst (sync_links E C u ex ls w) = Inr ()"
proof -
  obtain oo un w1 where v: "vet_guilds E C u (tree_set (map rl_guild_id ls)) ([], []) w = ((oo, un), w1)"
    by (metis surj_pair)
  have un: "un = []" using vet_guilds_known [OF assms(2), of "tree_set (map rl_guild_id ls)" "([], [])" w] v by simp
  obtain as w2 where "decide_actions E u oo un ex ls w1 = (Inr as, w2)" using decide_actions_ok [OF assms(1)] by blast
  moreover obtain w3 where "run_actions E C u as w2 = (Inr (), w3)" using run_actions_Inr [of E C u as w2] by (metis prod.collapse)
  ultimately show ?thesis by (simp add: sync_links_def v un act_bind_def deferred_result_def)
qed

lemma sync_for_player_ok:
  assumes "no_faults E" and "gateway_up E C u"
  shows "fst (sync_for_player E C u w) = Inr ()"
proof -
  obtain gs w1 where "fetch_user_guild_ids E (sc_gateway C) (sc_internal_key C) u w = (Inr gs, w1)"
    using assms(2) unfolding gateway_up_def by (metis prod.collapse)
  then show ?thesis
    by (simp add: sync_for_player_def act_bind_def db_query_run [OF assms(1)] sync_links_ok [OF assms] Let_def)
qed

lemma remove_all_ok:
  assumes "no_faults E"
  shows "fst (remove_all_assignments E C u w) = Inr ()"
proof -
  have orphan: "fst (delete_orphan_role_link E g r w) = Inr ()" for g r w
    by (auto simp: delete_orphan_role_link_def act_match_def split: prod.split sum.split)
  have each: "fst (remove_each E C u xs w) = Inr ()" for xs w
  proof (induction xs arbitrary: w)
    case (Cons x xs)
    obtain g r t where x: "x = (g, r, t)" by (metis surj_pair)
    have "fst (act_match (remove_user E (sc_rolelogic C) g r u t) (\<lambda>_. act_ok ())
          (\<lambda>e. if e = ERoleLinkNotFound then delete_orphan_role_link E g r else act_ok ()) w) = Inr ()"
      by (auto simp: act_match_def orphan split: prod.split sum.split)
    then show ?case using Cons by (auto simp: x act_bind_def split: prod.split sum.split)
  qed simp
  obtain w1 where "remove_each E C u (assignment_tokens u (w_db w)) (w\<lparr>w_tick := w_tick w + 1\<rparr>) = (Inr (), w1)"
    using each by (metis prod.collapse)
  then show ?thesis
    by (simp add: remove_all_assignments_def act_bind_def db_query_run [OF assms] db_exec_run [OF assms])
qed

subsection \<open>Properties\<close>

text \<open>C37: a batch concludes each of its jobs, whatever the jobs before it did and whatever fails: a job met
  while a shutdown signal is pending is pending again, any other is completed when its handler succeeds,
  dead when the failure is terminal or its attempts are used up, and pending again otherwise. Only when
  the very statement that settles it fails does it stay in progress (until it is reaped).\<close>

theorem batch_settles_every_job:
  assumes "table_ok (db_jobs (w_db w))" and "distinct (map j_id (pre @ j # post))"
    and "job_status_of (db_jobs (w_db w)) (j_id j) = Some InProgress"
    and "process_batch E S sent pre (rd, w) = (hs, rd1, w1)"
  shows "job_status_of (db_jobs (w_db (snd (snd (process_batch E S sent (pre @ j # post) (rd, w)))))) (j_id j) = Some
    (if e_db_fault E (w_tick (snd (settling E S sent j (rd1, w1)))) \<noteq> None then InProgress
     else if fst (is_triggered (sent (w_tick w1)) rd1) then Pending
     else case fst (dispatch E S j w1) of
         Inr _ \<Rightarrow> Completed
       | Inl (Terminal _) \<Rightarrow> Dead
       | Inl (Retry _) \<Rightarrow> if j_attempts j < j_max_attempts j then Pending else Dead)"
proof -
  have "has_job (j_id j) InProgress (w_db (snd (rd, w)))" using assms(1,3) by (simp add: has_job_def)
  from process_batch_job [OF this assms(2), of "(rd1, w1)" E S sent] show ?thesis
    using assms(4) by (simp add: has_job_def settling_status settled_status_def split: sum.split job_error.split)
qed

text \<open>One job alone.\<close>

lemma job_concluded_as:
  assumes "no_faults E" and "table_ok (db_jobs (w_db w))" and "job_status_of (db_jobs (w_db w)) (j_id j) = Some s"
  shows "job_status_of (db_jobs (w_db (snd (snd (process_job E S sent j (rd, w)))))) (j_id j) = Some
    (if fst (is_triggered (sent (w_tick w)) rd) then Pending else settled_status j (fst (dispatch E S j w)))"
proof -
  have "has_job (j_id j) s (w_db (snd (rd, w)))" using assms by (simp add: has_job_def)
  from process_job_status [OF this, of E S sent] show ?thesis
    using assms(1) by (simp add: has_job_def settling_status no_faults_def)
qed

text \<open>A config job end to end: with no failure on the way the job is completed and the link's
  recorded members are exactly the qualifying ones.\<close>

lemma config_job_completes:
  assumes "accepting E (sv_config S) g r (rl_api_token l) opts" and "find_link g r (w_db w) = Some l" and "rl_form_id l = Some f"
    and "j_kind j = ''config_sync''" and "j_payload j = link_payload g r"
    and "table_ok (db_jobs (w_db w))" and "job_status_of (db_jobs (w_db w)) (j_id j) = Some InProgress" and "sent (w_tick w) = rd"
  shows "job_status_of (db_jobs (w_db (snd (snd (process_job E S sent j (rd, w)))))) (j_id j) = Some Completed
    \<and> sort (assigned_ids g r (w_db (snd (snd (process_job E S sent j (rd, w)))))) =
        qualifying_ids E f opts (rl_grant_on_any l) (read_conditions (rl_conditions l)) None (w_db w)"
proof -
  have E: "no_faults E" using assms(1) by (simp add: accepting_def)
  have "(g, r) \<in> link_key ` set (db_role_links (w_db (w\<lparr>w_tick := w_tick w + 1\<rparr>)))"
    using find_link_Some [OF assms(2)] by force
  from sync_bound_success [OF assms(1) this, of f "rl_grant_on_any l" "read_conditions (rl_conditions l)"]
  obtain w' where w': "sync_for_role_link E (sv_config S) g r w = (Inr (), w')"
    "sort (assigned_ids g r (w_db w')) = qualifying_ids E f opts (rl_grant_on_any l) (read_conditions (rl_conditions l)) None (w_db w)"
    using sync_for_role_link_run [OF E assms(2,3)] by auto
  have "job_kind_from_db (j_kind j) = Some ConfigSync" using job_kind_from_db_as_str [of ConfigSync] by (simp add: assms(4))
  then have d: "dispatch E S j w = (Inr (), w')"
    by (simp add: dispatch_def assms(5) link_payload_def payload_str_def jget_def as_str_def ok_or_def sync_job_def w'(1))
  then have "job_status_of (db_jobs (w_db (snd (snd (process_job E S sent j (rd, w)))))) (j_id j) = Some Completed"
    using job_concluded_as [OF E assms(6,7), of S sent rd] assms(8) by (simp add: quiet_trigger settled_status_def)
  moreover have "assigned_ids g r (w_db (snd (snd (process_job E S sent j (rd, w))))) = assigned_ids g r (w_db w')"
    using assms(8) by (simp add: process_job_settles settling_def quiet_trigger d assigned_ids_def)
  ultimately show ?thesis using w'(2) by simp
qed

text \<open>C38: a player job, after a submission or an unlinking, is completed, not retried, whenever the
  tables work and, for a submission, the gateway does, even when RoleLogic refuses or fails every
  single role change. Only a pending shutdown signal puts it back.\<close>

theorem player_job_completes_despite_rolelogic:
  assumes "no_faults E" and "\<And>u. p = Updated u \<Longrightarrow> gateway_up E (sv_config S) u"
    and "j_kind j = ''player_sync''" and "j_payload j = player_sync_to_json p"
    and "table_ok (db_jobs (w_db w))" and "job_status_of (db_jobs (w_db w)) (j_id j) = Some InProgress"
  shows "job_status_of (db_jobs (w_db (snd (snd (process_job E S sent j (rd, w)))))) (j_id j) = Some
    (if fst (is_triggered (sent (w_tick w)) rd) then Pending else Completed)"
proof -
  have "fst (case p of Updated u \<Rightarrow> sync_for_player E (sv_config S) u w
      | Unlinked u \<Rightarrow> remove_all_assignments E (sv_config S) u w) = Inr ()"
    using sync_for_player_ok [OF assms(1,2)] remove_all_ok [OF assms(1)] by (cases p) auto
  moreover have "job_kind_from_db (j_kind j) = Some PlayerSync" using job_kind_from_db_as_str [of PlayerSync] by (simp add: assms(3))
  ultimately have "fst (dispatch E S j w) = Inr ()"
    by (cases p) (auto simp: dispatch_def assms(4) sync_job_def split: prod.split sum.split)
  then show ?thesis using job_concluded_as [OF assms(1,5,6), of S sent rd] by (simp add: settled_status_def)
qed

text \<open>A shutdown signal that arrives while a worker is inside a batch is used up by the next job of
  the batch: that job is put back, every later job of the batch is still run, and the worker then never
  stops, however many turns follow.\<close>

lemma shutdown_signal_lost:
  assumes "\<And>t. sent t = 1"
  shows "fst (process_batch E S sent (j # js) (0, w)) = Put_back (j_id j) # map (Ran \<circ> j_id) js
    \<and> fst (snd (process_batch E S sent (j # js) (0, w))) = 1
    \<and> (ws_received s = 1 \<longrightarrow> fst (run_worker E S sent worker_id tns s) = False)"
proof -
  obtain h rd w1 where p: "process_job E S sent j (0, w) = (h, rd, w1)" by (metis surj_pair)
  then have "h = Put_back (j_id j)" "rd = 1"
    using assms by (auto simp: process_job_def is_triggered_def)
  then show ?thesis
    using p quiet_batch [of sent 1 E S js w1] quiet_worker [of sent s E S worker_id tns] assms
    by (auto split: prod.split)
qed

definition sample_services :: services where
  "sample_services = \<lparr>sv_net = \<lparr>n_url = (\<lambda>_. None), n_lookup = (\<lambda>_ _. LookupFailed), n_wire = (\<lambda>_ _. []), n_redirects = (\<lambda>_ _. False)\<rparr>,
     sv_config = sample_sync_config, sv_payload_error = (\<lambda>_. ''bad payload'')\<rparr>"

definition busy_world :: world where
  "busy_world = sample_world (sample_db\<lparr>db_jobs := q_table sample_state\<rparr>)"

definition config_job :: job where
  "config_job = sample_job\<lparr>j_kind := ''config_sync'', j_payload := link_payload ''g'' ''r''\<rparr>"

definition player_job :: job where
  "player_job = sample_job\<lparr>j_payload := player_sync_to_json (Updated ''ann'')\<rparr>"

text \<open>The gateway answers, RoleLogic does not.\<close>

definition outage_env :: env where
  "outage_env = (sample_env (HttpReply 503 []))\<lparr>
     e_http := (\<lambda>_ rq. if hr_method rq = ''GET'' then HttpReply 200 [] else HttpReply 503 []),
     e_parse_json := (\<lambda>_. Some (JObj [(''discord_ids'', JArr []), (''guild_ids'', JArr [JStr ''g''])]))\<rparr>"

lemma busy_table: "table_ok (db_jobs (w_db busy_world))"
  using run_table_ok [OF sample_reached] by (simp add: busy_world_def sample_world_def)

lemma busy_status: "job_status_of (db_jobs (w_db busy_world)) 1 = Some InProgress"
  by code_simp

lemma sample_no_faults: "no_faults (sample_env rp)" "no_faults sample_sync_env" "no_faults outage_env"
  by (simp_all add: no_faults_def sample_env_def sample_sync_env_def outage_env_def)

lemma job_ids: "j_id sample_job = 1" "j_id config_job = 1" "j_id player_job = 1"
  by (simp_all add: sample_job_def config_job_def player_job_def)

text \<open>Here the first statement fails; with a signal pending it is the one that puts the job back.\<close>

definition late_fault_env :: env where
  "late_fault_env = (sample_env (HttpFailed ''down''))\<lparr>e_db_fault := (\<lambda>t. if t = 0 then Some (DbDriver ''gone'') else None)\<rparr>"

theorem batch_settles_every_job_witness:
  "job_status_of (db_jobs (w_db (snd (snd (process_batch (sample_env (HttpFailed ''down'')) sample_services (\<lambda>_. 1) [config_job]
     (0, busy_world)))))) 1 = Some Pending
   \<and> job_status_of (db_jobs (w_db (snd (snd (process_batch late_fault_env sample_services (\<lambda>_. 1) [config_job]
     (0, busy_world)))))) 1 = Some InProgress"
proof -
  have w: "w_tick busy_world = 0" by (simp add: busy_world_def sample_world_def)
  have d: "distinct (map j_id ([] @ config_job # []))" by simp
  have s: "job_status_of (db_jobs (w_db busy_world)) (j_id config_job) = Some InProgress" by (simp add: job_ids busy_status)
  have p: "process_batch E sample_services (\<lambda>_. 1) [] (0, busy_world) = ([], 0, busy_world)" for E by simp
  have f: "\<exists>y. e_db_fault late_fault_env 0 = Some y" "e_db_fault (sample_env (HttpFailed ''down'')) t = None" for t
    by (simp_all add: late_fault_env_def sample_env_def)
  have t: "fst (is_triggered 1 0)" by (simp add: is_triggered_def)
  note b = batch_settles_every_job [OF busy_table d s p, unfolded append_Nil job_ids settling_def w prod.case if_P [OF t] snd_conv]
  from b [of "sample_env (HttpFailed ''down'')"] b [of late_fault_env] show ?thesis
    unfolding w using f by simp
qed

theorem player_job_completes_despite_rolelogic_witness:
  "job_status_of (db_jobs (w_db (snd (snd (process_job outage_env sample_services (\<lambda>_. 0) player_job (0, busy_world)))))) 1
     = Some Completed"
proof -
  have "gateway_up outage_env sample_sync_config ''ann''"
    by (auto simp: gateway_up_def fetch_user_guild_ids_def fetch_guild_optout_ids_def gateway_call_def http_send_def
        gateway_request_def outage_env_def is_success_def read_ids_def need_def read_vec_def as_str_def ok_or_def)
  then have g: "gateway_up outage_env (sv_config sample_services) u" if "Updated ''ann'' = Updated u" for u
    using that by (simp add: sample_services_def)
  have p: "j_kind player_job = ''player_sync''" "j_payload player_job = player_sync_to_json (Updated ''ann'')"
    by (simp_all add: player_job_def sample_job_def)
  show ?thesis
    using player_job_completes_despite_rolelogic [OF sample_no_faults(3) g p busy_table, of "\<lambda>_. 0" 0] busy_status
    by (simp add: job_ids quiet_trigger)
qed

end
