(* ===== verification/Backfill.thy ===== *)
theory Backfill
  imports Jobs
begin

text \<open>
  \<open>tasks/startup_backfill.rs\<close>: the resynchronisation of every bound role link, once over all starts
  and replicas. Its marker and its jobs are written in one transaction. A failure is only logged.
\<close>

definition membership_resync :: str where "membership_resync = ''membership_model_resync_v3''"

text \<open>\<open>INSERT .. ON CONFLICT DO NOTHING\<close>, and whether a row was inserted.\<close>

definition claim_backfill :: "str \<Rightarrow> db \<Rightarrow> bool \<times> db" where
  "claim_backfill name d = (if name \<in> set (db_backfills d) then (False, d)
     else (True, d\<lparr>db_backfills := name # db_backfills d\<rparr>))"

definition form_bound_links :: "db \<Rightarrow> (str \<times> str) list" where
  "form_bound_links d = map link_key (filter (\<lambda>l. rl_form_id l \<noteq> None) (db_role_links d))"

definition enqueue_resyncs :: "int \<Rightarrow> db \<Rightarrow> db" where
  "enqueue_resyncs now d = d\<lparr>db_jobs :=
     foldl (\<lambda>t (g, r). insert_job now ConfigSync (link_payload g r) 5 t) (db_jobs d) (form_bound_links d)\<rparr>"

definition rollback :: "db \<Rightarrow> world \<Rightarrow> world" where
  "rollback d w = w\<lparr>w_tick := w_tick w + 1, w_db := d\<rparr>"

definition resync_all_form_links :: "env \<Rightarrow> world \<Rightarrow> world" where
  "resync_all_form_links E w =
     (case db_query E (\<lambda>_. ()) w of
        (Inl _, w1) \<Rightarrow> w1
      | (Inr _, w1) \<Rightarrow> (case db_stmt E (\<lambda>d. Inr (claim_backfill membership_resync d)) w1 of
            (Inl _, w2) \<Rightarrow> rollback (w_db w) w2
          | (Inr claimed, w2) \<Rightarrow>
              if \<not> claimed then rollback (w_db w) w2
              else (case db_exec E (enqueue_resyncs (w_now w)) w2 of
                  (Inl _, w3) \<Rightarrow> rollback (w_db w) w3
                | (Inr _, w3) \<Rightarrow> (case db_query E (\<lambda>_. ()) w3 of
                      (Inl _, w4) \<Rightarrow> w4\<lparr>w_db := w_db w\<rparr>
                    | (Inr _, w4) \<Rightarrow> w4))))"

subsection \<open>One start\<close>

definition backfilled :: "int \<Rightarrow> db \<Rightarrow> db" where
  "backfilled now d = enqueue_resyncs now (d\<lparr>db_backfills := membership_resync # db_backfills d\<rparr>)"

lemmas backfill_steps = resync_all_form_links_def db_query_def db_exec_def db_stmt_def Let_def rollback_def

lemma resync_outcome:
  "w_db (resync_all_form_links E w) = w_db w
   \<or> membership_resync \<notin> set (db_backfills (w_db w))
     \<and> w_db (resync_all_form_links E w) = backfilled (w_now w) (w_db w)"
  by (auto simp: backfill_steps claim_backfill_def backfilled_def split: option.splits)

lemma resync_now [simp]: "w_now (resync_all_form_links E w) = w_now w"
  by (auto simp: backfill_steps split: option.splits prod.splits)

lemma resync_without_faults:
  assumes "\<And>t. e_db_fault E t = None" and "membership_resync \<notin> set (db_backfills (w_db w))"
  shows "w_db (resync_all_form_links E w) = backfilled (w_now w) (w_db w)"
  using assms by (simp add: backfill_steps claim_backfill_def backfilled_def)

lemma backfilled_marks: "db_backfills (backfilled now d) = membership_resync # db_backfills d"
  by (simp add: backfilled_def enqueue_resyncs_def)

lemma enqueued_rows:
  "jt_rows (foldl (\<lambda>t (g, r). insert_job now ConfigSync (link_payload g r) 5 t) t ks) =
     jt_rows t @ map (\<lambda>(i, g, r). new_job_row (jt_next_id t + int i) now ConfigSync (link_payload g r) 5) (enumerate 0 ks)"
proof (induction ks arbitrary: t)
  case (Cons k ks)
  have "enumerate (Suc 0) ks = map (\<lambda>(i, x). (Suc i, x)) (enumerate 0 ks)"
    by (simp add: enumerate_eq_zip zip_map1 [symmetric] map_Suc_upt)
  then show ?case using Cons [of "insert_job now ConfigSync (link_payload (fst k) (snd k)) 5 t"]
    by (cases k) (simp add: insert_job_def comp_def case_prod_unfold algebra_simps)
qed simp

subsection \<open>Any number of starts\<close>

text \<open>Starts of any replicas, each at its time and with its failures.\<close>

fun starts_run :: "(int \<times> env) list \<Rightarrow> world \<Rightarrow> world" where
  "starts_run [] w = w"
| "starts_run ((t, E) # boots) w = starts_run boots (resync_all_form_links E (w\<lparr>w_now := t\<rparr>))"

lemma marked_starts: "membership_resync \<in> set (db_backfills (w_db w)) \<Longrightarrow> w_db (starts_run boots w) = w_db w"
proof (induction boots w rule: starts_run.induct)
  case (2 t E boots w)
  then have "w_db (resync_all_form_links E (w\<lparr>w_now := t\<rparr>)) = w_db w"
    using resync_outcome [of E "w\<lparr>w_now := t\<rparr>"] by auto
  then show ?case using 2 by simp
qed simp

text \<open>C18: Over any number of starts of any replicas, with any failures, the resync runs at most once: the tables
  are as before or the marker and one delayed job for every bound link were written together. A start
  without failures makes sure that they are.\<close>

theorem backfill_once:
  "(w_db (starts_run boots w) = w_db w
     \<or> (\<exists>(t, E) \<in> set boots. membership_resync \<notin> set (db_backfills (w_db w)) \<and> w_db (starts_run boots w) = backfilled t (w_db w)))
   \<and> ((\<exists>(t, E) \<in> set boots. \<forall>n. e_db_fault E n = None) \<longrightarrow>
       membership_resync \<in> set (db_backfills (w_db (starts_run boots w))))
   \<and> jt_rows (db_jobs (backfilled t (w_db w))) = jt_rows (db_jobs (w_db w))
       @ map (\<lambda>(i, g, r). new_job_row (jt_next_id (db_jobs (w_db w)) + int i) t ConfigSync (link_payload g r) 5)
           (enumerate 0 (form_bound_links (w_db w)))"
proof (intro conjI)
  show "w_db (starts_run boots w) = w_db w
     \<or> (\<exists>(t, E) \<in> set boots. membership_resync \<notin> set (db_backfills (w_db w)) \<and> w_db (starts_run boots w) = backfilled t (w_db w))"
  proof (induction boots w rule: starts_run.induct)
    case (2 t E boots w)
    let ?w = "resync_all_form_links E (w\<lparr>w_now := t\<rparr>)"
    consider "w_db ?w = w_db w" | "membership_resync \<notin> set (db_backfills (w_db w))" "w_db ?w = backfilled t (w_db w)"
      using resync_outcome [of E "w\<lparr>w_now := t\<rparr>"] by auto
    then show ?case
    proof cases
      case 1
      then show ?thesis using 2 by auto
    next
      case 2
      then show ?thesis using marked_starts [of ?w boots] by (simp add: backfilled_marks)
    qed
  qed simp
  show "(\<exists>(t, E) \<in> set boots. \<forall>n. e_db_fault E n = None) \<longrightarrow>
       membership_resync \<in> set (db_backfills (w_db (starts_run boots w)))"
  proof (induction boots w rule: starts_run.induct)
    case (2 t E boots w)
    let ?w = "resync_all_form_links E (w\<lparr>w_now := t\<rparr>)"
    have "membership_resync \<in> set (db_backfills (w_db ?w))" if "\<forall>n. e_db_fault E n = None"
    proof (cases "membership_resync \<in> set (db_backfills (w_db w))")
      case True
      then show ?thesis using resync_outcome [of E "w\<lparr>w_now := t\<rparr>"] by auto
    next
      case False
      then show ?thesis
        using that resync_without_faults [of E "w\<lparr>w_now := t\<rparr>"] by (simp add: backfilled_marks)
    qed
    then show ?case using 2 marked_starts [of ?w boots] by auto
  qed simp
  show "jt_rows (db_jobs (backfilled t (w_db w))) = jt_rows (db_jobs (w_db w))
       @ map (\<lambda>(i, g, r). new_job_row (jt_next_id (db_jobs (w_db w)) + int i) t ConfigSync (link_payload g r) 5)
           (enumerate 0 (form_bound_links (w_db w)))"
    by (simp add: backfilled_def enqueue_resyncs_def enqueued_rows form_bound_links_def)
qed

definition bound_db :: db where
  "bound_db = empty_db\<lparr>db_role_links := [\<lparr>rl_guild_id = ''g'', rl_role_id = ''r'', rl_api_token = ''t'',
     rl_form_id = Some ''f'', rl_grant_on_any = True, rl_conditions = JArr []\<rparr>]\<rparr>"

definition quiet_env :: env where
  "quiet_env = \<lparr>e_crates = sample_crates, e_http = (\<lambda>_ _. HttpFailed []), e_db_fault = (\<lambda>_. None),
     e_parse_json = (\<lambda>_. None), e_json_error = (\<lambda>_. []), e_status_text = show_nat, e_jitter_ms = (\<lambda>_. 0)\<rparr>"

definition bound_start :: world where
  "bound_start = \<lparr>w_db = bound_db, w_now = 0, w_tick = 0, w_sent = [], w_wire = []\<rparr>"

theorem backfill_once_witness:
  "membership_resync \<in> set (db_backfills (w_db (starts_run [(0, quiet_env), (9, quiet_env)] bound_start)))"
proof -
  have "\<exists>(t, E) \<in> set [(0 :: int, quiet_env), (9, quiet_env)]. \<forall>n. e_db_fault E n = None"
    by (simp add: quiet_env_def)
  then show ?thesis using backfill_once [of "[(0, quiet_env), (9, quiet_env)]" bound_start] by blast
qed

end
