(* ===== verification/Server.thy ===== *)
theory Server
  imports RoleApi Worker Backfill
begin

text \<open>
  The server as a whole: the requests and jobs that change its tables, as events of a step relation,
  and what every reachable state satisfies. The locale \<open>server_invariant\<close> states what a property of
  the tables must survive, statement by statement, for every handler to keep it.
\<close>

subsection \<open>Sound rows\<close>

definition form_sound :: "site \<Rightarrow> form_row \<Rightarrow> bool" where
  "form_sound S f \<longleftrightarrow> form_schema_from_json (fm_schema f) \<noteq> None
     \<and> (fm_is_quiz f \<longrightarrow> fm_single_submission f \<and> \<not> fm_allow_edits f)
     \<and> (fm_is_quiz f \<or> fm_passing_score f = None)
     \<and> (case fm_passing_score f of Some n \<Rightarrow> 0 \<le> n \<and> n \<le> 1000000 | None \<Rightarrow> True)
     \<and> (case fm_webhook_url f of Some u \<Rightarrow> u \<noteq> [] \<and> is_safe_url (st_net S) u | None \<Rightarrow> True)
     \<and> 0 \<le> fm_min_account_age_days f \<and> fm_min_account_age_days f \<le> 3650
     \<and> 0 \<le> fm_max_attempts f \<and> fm_max_attempts f \<le> max_retry_attempts
     \<and> 0 \<le> fm_retry_cooldown_seconds f \<and> fm_retry_cooldown_seconds f \<le> max_retry_cooldown_seconds
     \<and> fm_retry_policy f \<in> {''keep_best'', ''keep_latest''}"

text \<open>The stored conditions are read back completely, at most \<open>MAX_CONDITIONS\<close>.\<close>

definition conditions_sound :: "json \<Rightarrow> bool" where
  "conditions_sound v \<longleftrightarrow> (\<exists>cs. v = JArr (map condition_to_json cs) \<and> read_conditions v = cs \<and> length cs \<le> max_conditions)"

definition permission_sound :: "str \<Rightarrow> bool" where
  "permission_sound vp \<longleftrightarrow> vp \<in> {''members'', ''managers''}"

definition tables_sound :: "site \<Rightarrow> db \<Rightarrow> bool" where
  "tables_sound S d \<longleftrightarrow> db_ok d \<and> table_ok (db_jobs d)
     \<and> (\<forall>f \<in> set (db_forms d). form_sound S f) \<and> distinct (map fm_slug (db_forms d))
     \<and> (\<forall>l \<in> set (db_role_links d). conditions_sound (rl_conditions l))
     \<and> (\<forall>x \<in> set (db_settings d). permission_sound (snd x)) \<and> distinct (map fst (db_settings d))
     \<and> distinct (db_backfills d)"

subsection \<open>What every handler keeps\<close>

lemma keeps_result_bind: "(\<And>x. r = Inr x \<Longrightarrow> keeps Q (f x)) \<Longrightarrow> keeps Q (act_bind (act_result r) f)"
  by (cases r) (auto simp: keeps_def act_bind_def act_result_def)

lemma reads_only_keeps: "reads_only m \<Longrightarrow> keeps (on_db P) m"
  by (simp add: reads_only_def keeps_def on_db_def)

lemma keeps_best_effort: "keeps Q m \<Longrightarrow> keeps Q (best_effort m)"
  unfolding best_effort_def by (intro keeps_match) auto

locale server_invariant = sync_invariant P for P :: "db \<Rightarrow> bool" +
  fixes S :: site
  assumes forms_sound: "P d \<Longrightarrow> f \<in> set (db_forms d) \<Longrightarrow> form_sound S f"
    and responded: "P d \<Longrightarrow> P (d\<lparr>db_responses := rs\<rparr>)"
    and created: "P d \<Longrightarrow> form_sound S f \<Longrightarrow> fm_slug f \<notin> fm_slug ` set (db_forms d) \<Longrightarrow>
      P (d\<lparr>db_forms := db_forms d @ [f]\<rparr>)"
    and saved: "P d \<Longrightarrow> (\<And>f. form_sound S f \<Longrightarrow> form_sound S (h f)) \<Longrightarrow> (\<And>f. fm_slug (h f) = fm_slug f) \<Longrightarrow>
      P (d\<lparr>db_forms := map h (db_forms d)\<rparr>)"
    and dropped: "P d \<Longrightarrow> P (drop_form i g d)"
    and unbound: "P d \<Longrightarrow> P (unbind_links i d)"
    and configured: "P d \<Longrightarrow> conditions_sound (JArr (map condition_to_json (pc_conditions p))) \<Longrightarrow> P (configure_link g r p d)"
    and registered: "P d \<Longrightarrow> P (upsert_link g r token d)"
    and permitted: "P d \<Longrightarrow> permission_sound vp \<Longrightarrow> P (upsert_settings g vp d)"
    and settled: "P d \<Longrightarrow> P (default_settings g d)"
    and marked: "P d \<Longrightarrow> n \<notin> set (db_backfills d) \<Longrightarrow> P (d\<lparr>db_backfills := n # db_backfills d\<rparr>)"
    and worked: "P d \<Longrightarrow> (table_ok (db_jobs d) \<Longrightarrow> table_ok t) \<Longrightarrow> P (d\<lparr>db_jobs := t\<rparr>)"
begin

lemma keeps_enqueue: "keeps (on_db P) (on_jobs E (\<lambda>now. insert_job now k p n))"
  unfolding on_jobs_def keeps_def on_db_def db_exec_def db_stmt_def
  by (auto simp: Let_def enqueued split: option.split)

lemma keeps_enqueue_links: "keeps (on_db P) (enqueue_links E links)"
  by (induction E links rule: enqueue_links.induct)
    (auto intro!: keeps_bind keeps_best_effort keeps_enqueue simp: enqueue_config_sync_def)

lemma keeps_admin_write: "keeps (on_db P) (admin_write E S' rq cookie g)"
  by (rule reads_only_keeps) (auto simp: admin_write_def)

lemma keeps_parse_form_id: "keeps (on_db P) (parse_form_id S' i)"
  by (simp add: parse_form_id_def)

lemma keeps_require_form: "keeps (on_db P) (require_form E i g)"
  unfolding require_form_def by (intro keeps_bind) auto

lemmas keeps_parts = keeps_admin_write keeps_parse_form_id keeps_require_form keeps_enqueue_links keeps_best_effort
  keeps_enqueue

lemma keeps_set_view_permission: "keeps (on_db P) (set_view_permission E S rq c g vp)"
  unfolding set_view_permission_def
  by (auto intro!: keeps_bind keeps_parts keeps_exec permitted simp: permission_sound_def)

lemma keeps_insert_form:
  assumes "\<And>fid slug. form_sound S (row fid slug)" and "\<And>fid slug. fm_slug (row fid slug) = slug"
  shows "keeps (on_db P) (insert_form E S' row slug)"
  unfolding insert_form_def keeps_def on_db_def db_stmt_def
  by (auto simp: Let_def assms intro!: created split: option.split)

lemma keeps_insert_with_slug:
  assumes "\<And>fid slug. form_sound S (row fid slug)" and "\<And>fid slug. fm_slug (row fid slug) = slug"
  shows "keeps (on_db P) (insert_with_slug n E S' row token)"
proof (induction n)
  case (Suc n)
  show ?case
    unfolding insert_with_slug.simps
    by (intro keeps_bind keeps_match keeps_tick keeps_insert_form assms)
      (auto split: app_error.split db_error.split intro: Suc)
qed simp

lemma keeps_form_bind:
  assumes "\<And>src. form_sound S src \<Longrightarrow> keeps (on_db P) (f src)"
  shows "keeps (on_db P) (act_bind (require_form E i g) f)"
proof (rule keepsI)
  fix w assume w: "on_db P w"
  obtain r w' where m: "require_form E i g w = (r, w')" by fastforce
  have "reads_only (require_form E i g)" unfolding require_form_def by auto
  from reads_onlyD [OF this m] have w': "on_db P w'" using w by (simp add: on_db_def)
  show "on_db P (snd (act_bind (require_form E i g) f w))"
  proof (cases r)
    case (Inr src)
    then have "find_form i g (w_db w) = Some src" using m by (auto simp: require_form_def act_Inr ok_or_Inr_iff)
    then have "form_sound S src" using forms_sound w by (auto simp: on_db_def find_form_def find_Some_iff)
    then show ?thesis using m Inr w' keepsD [OF assms] by (simp add: act_bind_run)
  qed (use m w' in \<open>simp add: act_bind_run_error\<close>)
qed

lemma template_score_sound: "case template_passing_score v of Some n \<Rightarrow> 0 \<le> n \<and> n \<le> 1000000 | None \<Rightarrow> True"
  by (auto simp: template_passing_score_def split: json.split option.split)

lemma keeps_create_form: "keeps (on_db P) (create_form E S rq c g template title)"
  unfolding create_form_def Let_def
  by (intro keeps_result_bind keeps_bind keeps_parts keeps_now keeps_tick keeps_insert_with_slug)
    (auto simp: default_form_row_def form_sound_def ok_or_Inr_iff template_score_sound max_retry_attempts_def
      max_retry_cooldown_seconds_def)

lemma keeps_duplicate_form: "keeps (on_db P) (duplicate_form E S rq c g i)"
  unfolding duplicate_form_def Let_def
  by (intro keeps_form_bind keeps_bind keeps_parts keeps_now keeps_tick keeps_insert_with_slug)
    (auto simp: default_form_row_def form_sound_def)

lemma keeps_save_form:
  assumes "\<And>now f. form_sound S f \<Longrightarrow> form_sound S (saved_form b now f)"
  shows "keeps (on_db P) (save_form E i g b)"
  unfolding save_form_def keeps_def on_db_def db_stmt_def
  by (auto simp: Let_def assms intro!: saved split: option.split) (simp_all add: saved_form_def)

lemma saved_form_sound:
  assumes "check_schema E S b = Inr parsed" and "check_settings S b = Inr ()"
  shows "form_sound S (saved_form b now f)"
  using assms
  by (auto simp: form_sound_def saved_form_def check_schema_def check_settings_def try_bind_Inr_iff bad_request_def
      ok_or_Inr_iff split: if_splits option.splits)

lemma keeps_resync_links: "keeps (on_db P) (resync_links E qids links)"
  by (induction E qids links rule: resync_links.induct)
    (auto intro!: keeps_bind keeps_best_effort keeps_enqueue simp: enqueue_config_sync_def)

lemma keeps_update_form: "keeps (on_db P) (update_form E S rq c g i b)"
  unfolding update_form_def
  by (intro keeps_result_bind keeps_bind keeps_parts)
    (auto intro!: keeps_bind keeps_save_form saved_form_sound keeps_resync_links)

lemma keeps_delete_form: "keeps (on_db P) (delete_form E S rq c g i)"
  unfolding delete_form_def drop_responses_def
  by (intro keeps_bind keeps_parts keeps_query keeps_transaction keeps_exec keeps_stmt keeps_require keeps_ok)
    (auto intro: unbound responded dropped)

lemma keeps_delete_response: "keeps (on_db P) (delete_response E S rq c g i r)"
  unfolding delete_response_def enqueue_player_sync_def
  by (intro keeps_bind keeps_parts keeps_result keeps_stmt keeps_ok) (auto intro: responded)

lemma keeps_delete_all_responses: "keeps (on_db P) (delete_all_responses E S rq c g i)"
  unfolding delete_all_responses_def drop_responses_def
  by (intro keeps_bind keeps_parts keeps_query keeps_stmt keeps_ok) (auto intro: responded)

lemma keeps_insert_response: "keeps (on_db P) (insert_response E S' row)"
  unfolding insert_response_def keeps_def on_db_def db_stmt_def
  by (auto simp: Let_def intro!: responded split: option.split)

lemma keeps_store_response: "keeps (on_db P) (store_response E S' f u gr now)"
  unfolding store_response_def store_edit_def store_attempt_def store_fresh_def update_response_def Let_def
  by (auto intro!: keeps_bind keeps_insert_response keeps_exec responded split: option.split sum.split)

lemma keeps_post_submit: "keeps (on_db P) (post_submit E S' rq c slug answers version)"
proof -
  have "keeps (on_db P) (enqueue_follow_up E S' f slug u n gr st now)" for f u n gr st now
    unfolding enqueue_follow_up_def enqueue_player_sync_def enqueue_webhook_def
    by (auto intro!: keeps_bind keeps_enqueue split: option.split)
  then show ?thesis
    unfolding post_submit_def submit_in_tx_def
    by (auto intro!: keeps_bind keeps_transaction keeps_store_response reads_only_keeps [OF check_member_reads]
        split: prod.split)
qed

lemma keeps_store_config:
  assumes "parse_role_config C body bound is_quiz = Inr p"
  shows "keeps (on_db P) (store_config E g r p)"
proof -
  have p: "config_ok C bound is_quiz p" by (rule parse_role_config_config_ok [OF assms])
  then have "read_conditions (JArr (map condition_to_json (pc_conditions p))) = pc_conditions p"
    using conditions_storable by (auto simp: read_conditions_def as_array_def config_ok_def)
  moreover have "length (pc_conditions p) \<le> max_conditions"
    using p by (auto simp: config_ok_def max_conditions_def split: if_splits)
  ultimately have "conditions_sound (JArr (map condition_to_json (pc_conditions p)))"
    by (auto simp: conditions_sound_def)
  moreover have "pc_view_permission p = Some vp \<Longrightarrow> permission_sound vp" for vp
    using p by (auto simp: config_ok_def permission_sound_def)
  ultimately show ?thesis
    unfolding store_config_def
    by (auto intro!: keeps_transaction keeps_bind keeps_exec configured permitted split: option.split)
qed

lemma keeps_role_config_save: "keeps (on_db P) (role_config_save E S' rq c g r body)"
proof -
  have "keeps (on_db P) (chosen_form E S' g fid)" for fid
    unfolding chosen_form_def Let_def by (auto intro!: keeps_bind)
  then show ?thesis
    unfolding role_config_save_def enqueue_config_sync_def
    by (auto intro!: keeps_result_bind keeps_bind keeps_store_config keeps_best_effort keeps_enqueue
        reads_only_keeps [OF require_role_config_access_reads] split: prod.split)
qed

lemma keeps_register: "keeps (on_db P) (register E rq g r)"
  unfolding register_def by (auto intro!: keeps_bind keeps_exec registered settled)

lemma keeps_delete_config: "keeps (on_db P) (delete_config E rq g r)"
  unfolding delete_config_def by (auto intro!: keeps_bind keeps_stmt unlinked split: if_splits)

lemma keeps_on_jobs: "(\<And>now t. table_ok t \<Longrightarrow> table_ok (f now t)) \<Longrightarrow> keeps (on_db P) (on_jobs E f)"
  unfolding on_jobs_def keeps_def on_db_def db_exec_def db_stmt_def
  by (auto simp: Let_def intro!: worked split: option.split)

lemma keeps_resync_all: "on_db P w \<Longrightarrow> on_db P (resync_all_form_links E w)"
proof -
  have "table_ok (foldl (\<lambda>t (g, r). insert_job now ConfigSync (link_payload g r) 5 t) t ks)" if "table_ok t" for now t ks
    using that by (induction ks arbitrary: t) (auto intro: insert_job_ok)
  then have "P d \<Longrightarrow> membership_resync \<notin> set (db_backfills d) \<Longrightarrow> P (backfilled now d)" for now d
    unfolding backfilled_def enqueue_resyncs_def by (intro worked marked) auto
  then show "on_db P w \<Longrightarrow> on_db P (resync_all_form_links E w)"
    using resync_outcome [of E w] by (auto simp: on_db_def)
qed

lemma keeps_process_job: "on_db P w \<Longrightarrow> on_db P (snd (snd (process_job E V sent j (rd, w))))"
proof -
  assume w: "on_db P w"
  have d: "on_db P (snd (dispatch E V j w))" using w keeps_dispatch by (simp add: on_db_def)
  have "on_db P (snd (on_jobs E (\<lambda>now. fail_retry now jit j m) w))" for jit m
    by (rule keepsD [OF keeps_on_jobs w]) (auto intro: settle_ok)
  moreover have "on_db P (conclude E j r w')" if "on_db P w'" for r w'
    unfolding conclude_def by (rule keepsD [OF keeps_on_jobs that]) (rule settle_table_ok)
  ultimately show ?thesis using d by (auto simp: process_job_def split: prod.split bool.split)
qed

lemma keeps_process_batch: "on_db P w \<Longrightarrow> on_db P (snd (snd (process_batch E V sent js (rd, w))))"
proof (induction js arbitrary: rd w)
  case (Cons j js)
  obtain h rd' w' where p: "process_job E V sent j (rd, w) = (h, rd', w')" by (metis surj_pair)
  then have "on_db P w'" using keeps_process_job [OF Cons.prems, of E V sent j rd] by simp
  from Cons.IH [OF this, of rd'] show ?case using p by (auto split: prod.split)
qed simp

lemma keeps_claim_jobs: "keeps (on_db P) (claim_jobs E worker busy)"
proof (rule keepsI)
  fix w assume w: "on_db P w"
  obtain js t where b: "claim_batch worker batch_size busy (w_now w) (db_jobs (w_db w)) = (js, t)" by fastforce
  have "P ((w_db w)\<lparr>db_jobs := t\<rparr>)" using w worked claim_table_ok [OF b] by (simp add: on_db_def)
  then show "on_db P (snd (claim_jobs E worker busy w))"
    using w b by (auto simp: claim_jobs_def db_stmt_def on_db_def Let_def split: option.split)
qed

lemma keeps_worker_turn:
  assumes "on_db P (ws_world s0)"
  shows "on_db P (ws_world (snd (worker_turn E V sent worker tn s0)))"
proof -
  let ?s = "s0\<lparr>ws_world := (ws_world s0)\<lparr>w_now := tn_now tn\<rparr>\<rparr>"
  obtain quit rd where tr: "is_triggered (sent (w_tick (ws_world ?s))) (ws_received ?s) = (quit, rd)" by fastforce
  let ?s1 = "reap_due E (?s\<lparr>ws_received := rd\<rparr>)"
  have s: "on_db P (ws_world ?s)" using assms by (simp add: on_db_def)
  then have s1: "on_db P (ws_world ?s1)"
    by (auto simp: reap_due_def intro!: keepsD [OF keeps_on_jobs] reap_stuck_ok)
  obtain res w where c: "claim_jobs E worker (tn_busy tn) (ws_world ?s1) = (res, w)" by fastforce
  have w: "on_db P w" using keepsD [OF keeps_claim_jobs s1, of E worker "tn_busy tn"] c by simp
  have a: "ws_world (snd (await_more n tn s')) = ws_world s'" for n s' by (simp add: await_more_def)
  have b: "on_db P (snd (snd (process_batch E V sent js (ws_received ?s1, w))))" for js
    by (rule keeps_process_batch [OF w])
  show ?thesis
  proof (cases quit)
    case True
    then show ?thesis using s tr by (simp add: worker_turn_def)
  next
    case False
    have "worker_turn E V sent worker tn s0 = (case claim_jobs E worker (tn_busy tn) (ws_world ?s1) of
             (Inl e, w) \<Rightarrow> await_more (sent (w_tick w)) tn (?s1\<lparr>ws_world := w\<rparr>)
           | (Inr [], w) \<Rightarrow> await_more (sent (w_tick w)) tn (?s1\<lparr>ws_world := w\<rparr>)
           | (Inr (j # js), w) \<Rightarrow>
               (case process_batch E V sent (j # js) (ws_received ?s1, w) of (hs, received', w') \<Rightarrow>
                  (False, ?s1\<lparr>ws_received := received', ws_world := w'\<rparr>)))"
      using tr False by (simp add: worker_turn_def Let_def)
    note turn = this
    show ?thesis
    proof (cases res)
      case (Inr js)
      show ?thesis
      proof (cases js)
        case (Cons j js')
        obtain hs rd' w' where p: "process_batch E V sent (j # js') (ws_received ?s1, w) = (hs, rd', w')"
          by (metis surj_pair)
        then show ?thesis using turn c Inr Cons b [of "j # js'"] by (simp del: process_batch.simps)
      qed (use turn c Inr w a in simp)
    qed (use turn c w a in simp)
  qed
qed

end

subsection \<open>The tables survive every statement\<close>

lemma form_sound_later [simp]: "tables_sound S (d\<lparr>db_responses := rs\<rparr>) = tables_sound S d"
  by (simp add: tables_sound_def db_ok_def)

lemma insert_assignment_other:
  assumes "insert_assignment g r u d = Inr (x, d')"
  shows "db_forms d' = db_forms d" "db_role_links d' = db_role_links d" "db_settings d' = db_settings d"
    "db_backfills d' = db_backfills d"
  using assms by (auto simp: insert_assignment_def Let_def split: if_splits)

lemma insert_assignments_other:
  assumes "insert_assignments g r ids d = Inr (x, d')"
  shows "db_forms d' = db_forms d" "db_role_links d' = db_role_links d" "db_settings d' = db_settings d"
    "db_backfills d' = db_backfills d"
proof -
  have "d' = d\<lparr>db_assignments := db_assignments d @ map (\<lambda>u. \<lparr>ra_guild_id = g, ra_role_id = r, ra_discord_id = u\<rparr>) ids\<rparr>"
    using assms by (simp add: insert_assignments_def Let_def split: if_splits)
  then show "db_forms d' = db_forms d" "db_role_links d' = db_role_links d" "db_settings d' = db_settings d"
    "db_backfills d' = db_backfills d" by simp_all
qed

lemma link_key_updates [simp]:
  "link_key (l\<lparr>rl_form_id := x, rl_grant_on_any := y, rl_conditions := z\<rparr>) = link_key l"
  "link_key (l\<lparr>rl_form_id := x\<rparr>) = link_key l" "link_key (l\<lparr>rl_api_token := t\<rparr>) = link_key l"
  by (simp_all add: link_key_def)

lemma link_keys_map: "(\<And>l. link_key (h l) = link_key l) \<Longrightarrow> map link_key (map h ls) = map link_key ls"
  by simp

lemma db_ok_links:
  assumes "db_ok d" and "\<And>l. link_key (h l) = link_key l"
  shows "db_ok (d\<lparr>db_role_links := map h (db_role_links d)\<rparr>)"
  using assms by (simp add: db_ok_def image_image comp_def)

lemma no_link_key: "find_link g r d = None \<Longrightarrow> (g, r) \<notin> link_key ` set (db_role_links d)"
  by (auto simp: find_link_def find_None_iff)

lemma upsert_link_db_ok: "db_ok d \<Longrightarrow> db_ok (upsert_link g r token d)"
proof (cases "find_link g r d")
  case None
  assume "db_ok d"
  then show ?thesis
    using no_link_key [OF None] None by (auto simp: upsert_link_def db_ok_def link_key_def)
next
  case (Some l)
  assume "db_ok d"
  then show ?thesis
    using db_ok_links [of d "\<lambda>l. if link_key l = (g, r) then l\<lparr>rl_api_token := token\<rparr> else l"] Some
    by (simp add: upsert_link_def)
qed

lemma conditions_sound_empty: "conditions_sound (JArr [])"
  by (auto simp: conditions_sound_def read_conditions_def as_array_def List.map_filter_simps)

lemma distinct_filter_key: "distinct (map f xs) \<Longrightarrow> distinct (map f (filter P xs))"
  by (rule distinct_map_filter)

lemma map_of_no_key: "map_of xs k = None \<Longrightarrow> k \<notin> fst ` set xs"
  by (simp add: map_of_eq_None_iff)

interpretation server: server_invariant "tables_sound S" S for S
proof
  fix d assume d: "tables_sound S d"
  show "tables_sound S (delete_link g r d)" "tables_sound S (delete_link_assignments g r d)"
    "tables_sound S (delete_assignment g r u d)" "tables_sound S (delete_user_assignments u d)" for g r u
    using d delete_link_ok [of d] delete_link_assignments_ok [of d] delete_assignment_ok [of d] delete_user_assignments_ok [of d]
    by (auto simp: tables_sound_def delete_link_def delete_link_assignments_def delete_assignment_def
        delete_user_assignments_def)
  show "insert_assignment g r u d = Inr (x, d') \<Longrightarrow> tables_sound S d'" for g r u x d'
    using d insert_assignment_ok [of d g r u x d'] insert_assignment_other [of g r u d x d'] insert_assignment_jobs [of g r u d x d']
    by (simp add: tables_sound_def)
  show "insert_assignments g r ids d = Inr (x, d') \<Longrightarrow> tables_sound S d'" for g r ids x d'
    using d insert_assignments_ok [of d g r ids x d'] insert_assignments_other [of g r ids d x d'] insert_assignments_jobs [of g r ids d x d']
    by (simp add: tables_sound_def)
  show "tables_sound S (d\<lparr>db_jobs := insert_job now k p n (db_jobs d)\<rparr>)" for now k p n
    using d by (simp add: tables_sound_def jobs_ok insert_job_ok)
  show "(table_ok (db_jobs d) \<Longrightarrow> table_ok t) \<Longrightarrow> tables_sound S (d\<lparr>db_jobs := t\<rparr>)" for t
    using d by (simp add: tables_sound_def jobs_ok)
  show "f \<in> set (db_forms d) \<Longrightarrow> form_sound S f" for f
    using d by (simp add: tables_sound_def)
  show "tables_sound S (d\<lparr>db_responses := rs\<rparr>)" for rs using d by simp
  show "tables_sound S (d\<lparr>db_forms := db_forms d @ [f]\<rparr>)"
    if "form_sound S f" "fm_slug f \<notin> fm_slug ` set (db_forms d)" for f
    using d that by (auto simp: tables_sound_def db_ok_def)
  show "tables_sound S (d\<lparr>db_forms := map h (db_forms d)\<rparr>)"
    if "\<And>f. form_sound S f \<Longrightarrow> form_sound S (h f)" "\<And>f. fm_slug (h f) = fm_slug f" for h
    using d that by (auto simp: tables_sound_def db_ok_def comp_def)
  show "tables_sound S (drop_form i g d)" for i g
    using d by (auto simp: tables_sound_def db_ok_def drop_form_def distinct_filter_key)
  show "tables_sound S (unbind_links i d)" for i
    using d db_ok_links [of d "\<lambda>l. if rl_form_id l = Some i then l\<lparr>rl_form_id := None\<rparr> else l"]
    by (auto simp: tables_sound_def unbind_links_def)
  show "tables_sound S (configure_link g r p d)"
    if "conditions_sound (JArr (map condition_to_json (pc_conditions p)))" for g r p
    using d that db_ok_links [of d "\<lambda>l. if link_key l = (g, r) then l\<lparr>rl_form_id := pc_form_id p,
      rl_grant_on_any := pc_grant_on_any p, rl_conditions := JArr (map condition_to_json (pc_conditions p))\<rparr> else l"]
    by (auto simp: tables_sound_def configure_link_def)
  show "tables_sound S (upsert_link g r token d)" for g r token
    using d upsert_link_db_ok [of d g r token] conditions_sound_empty
    by (auto simp: tables_sound_def) (auto simp: upsert_link_def split: if_splits)
  show "tables_sound S (upsert_settings g vp d)" if "permission_sound vp" for g vp
    using d that by (auto simp: tables_sound_def upsert_settings_def db_ok_def distinct_filter_key)
  show "n \<notin> set (db_backfills d) \<Longrightarrow> tables_sound S (d\<lparr>db_backfills := n # db_backfills d\<rparr>)" for n
    using d by (simp add: tables_sound_def db_ok_def)
  show "tables_sound S (default_settings g d)" for g
    using d map_of_no_key [of "db_settings d" g]
    by (auto simp: tables_sound_def default_settings_def db_ok_def permission_sound_def)
qed

subsection \<open>Runs of the server\<close>

datatype admin_op =
    SetViewPermission str
  | CreateForm str "str option"
  | DuplicateForm str
  | UpdateForm str update_body
  | DeleteForm str
  | DeleteResponse str str
  | DeleteAllResponses str

definition admin_handler :: "env \<Rightarrow> site \<Rightarrow> request \<Rightarrow> str option \<Rightarrow> str \<Rightarrow> admin_op \<Rightarrow> json act" where
  "admin_handler E S rq cookie guild_id op = (case op of
       SetViewPermission vp \<Rightarrow> set_view_permission E S rq cookie guild_id vp
     | CreateForm template title \<Rightarrow> create_form E S rq cookie guild_id template title
     | DuplicateForm form_id \<Rightarrow> duplicate_form E S rq cookie guild_id form_id
     | UpdateForm form_id body \<Rightarrow> update_form E S rq cookie guild_id form_id body
     | DeleteForm form_id \<Rightarrow> delete_form E S rq cookie guild_id form_id
     | DeleteResponse form_id response_id \<Rightarrow> delete_response E S rq cookie guild_id form_id response_id
     | DeleteAllResponses form_id \<Rightarrow> delete_all_responses E S rq cookie guild_id form_id)"

text \<open>Everything that changes the tables: requests, the backfill of a starting replica, and the turns of the workers.\<close>

datatype server_event =
    Admin request "str option" str admin_op
  | Configure request "str option" str str role_config_body
  | Register request str str
  | Unregister request str str
  | Submit request "str option" str json int
  | Start
  | Work services "nat \<Rightarrow> nat" str turn int nat

definition server_step :: "env \<Rightarrow> site \<Rightarrow> server_event \<Rightarrow> world \<Rightarrow> world" where
  "server_step E S ev w = (case ev of
       Admin rq cookie guild_id op \<Rightarrow> snd (admin_handler E S rq cookie guild_id op w)
     | Configure rq cookie guild_id role_id body \<Rightarrow> snd (role_config_save E S rq cookie guild_id role_id body w)
     | Register rq guild_id role_id \<Rightarrow> snd (register E rq guild_id role_id w)
     | Unregister rq guild_id role_id \<Rightarrow> snd (delete_config E rq guild_id role_id w)
     | Submit rq cookie slug answers version \<Rightarrow> snd (post_submit E S rq cookie slug answers version w)
     | Start \<Rightarrow> resync_all_form_links E w
     | Work services sent worker_id tn last_reap received \<Rightarrow> ws_world (snd (worker_turn E services sent worker_id tn
           \<lparr>ws_last_reap = last_reap, ws_received = received, ws_world = w\<rparr>)))"

inductive server_reachable :: "env \<Rightarrow> site \<Rightarrow> world \<Rightarrow> bool" for E S where
  start: "w_db w = empty_db \<Longrightarrow> server_reachable E S w"
| event: "server_reachable E S w \<Longrightarrow> server_reachable E S (server_step E S ev w)"
| passes: "server_reachable E S w \<Longrightarrow> w_now w \<le> t \<Longrightarrow> server_reachable E S (w\<lparr>w_now := t\<rparr>)"

lemma server_step_sound: "on_db (tables_sound S) w \<Longrightarrow> on_db (tables_sound S) (server_step E S ev w)"
  by (cases ev)
    (auto simp: server_step_def admin_handler_def split: admin_op.split
      intro: server.keeps_set_view_permission [THEN keepsD] server.keeps_create_form [THEN keepsD]
        server.keeps_duplicate_form [THEN keepsD] server.keeps_update_form [THEN keepsD]
        server.keeps_delete_form [THEN keepsD] server.keeps_delete_response [THEN keepsD]
        server.keeps_delete_all_responses [THEN keepsD] server.keeps_role_config_save [THEN keepsD]
        server.keeps_register [THEN keepsD] server.keeps_delete_config [THEN keepsD]
        server.keeps_post_submit [THEN keepsD] server.keeps_worker_turn server.keeps_resync_all)

lemma empty_tables_sound: "tables_sound S empty_db"
  by (simp add: tables_sound_def empty_db_def db_ok_def table_ok_def)

lemma reachable_sound: "server_reachable E S w \<Longrightarrow> tables_sound S (w_db w)"
proof (induction rule: server_reachable.induct)
  case (event w ev)
  then show ?case using server_step_sound [of S w E ev] by (simp add: on_db_def)
qed (simp_all add: empty_tables_sound)

subsection \<open>Properties\<close>

text \<open>C1: in every state the server can reach, over any requests, submissions, starts, worker turns and failures,
  the tables are sound: every stored form can be read and obeys the limits and the one-shot rules of a
  quiz, slugs are unique, every link's conditions are read back completely, links, assignments and jobs
  are well-formed, and every guild has one known view permission.\<close>

theorem server_tables_sound:
  assumes "server_reachable E S w"
  shows "tables_sound S (w_db w)"
  by (rule reachable_sound [OF assms])

definition register_event :: server_event where
  "register_event = Register (sample_request ''POST'' [(''authorization'', ''Token t'')] None) ''g'' ''r''"

lemma sample_extract_token: "extract_token (sample_request ''POST'' [(''authorization'', ''Token t'')] None) = Inr ''t''"
  by code_simp

theorem server_tables_sound_witness:
  "tables_sound sample_site (empty_db\<lparr>db_role_links := [\<lparr>rl_guild_id = ''g'', rl_role_id = ''r'', rl_api_token = ''t'',
     rl_form_id = None, rl_grant_on_any = False, rl_conditions = JArr []\<rparr>], db_settings := [(''g'', ''managers'')]\<rparr>)"
proof -
  let ?E = "sample_env (HttpFailed [])"
  have "server_reachable ?E sample_site (server_step ?E sample_site register_event (sample_world empty_db))"
    by (intro server_reachable.event server_reachable.start) (simp add: sample_world_def)
  from server_tables_sound [OF this] show ?thesis
    by (simp add: server_step_def register_event_def register_def act_bind_def act_result_def sample_extract_token db_exec_def
        db_stmt_def Let_def sample_selectors sample_world_def upsert_link_def default_settings_def empty_db_def find_link_def)
qed

end
