(* ===== verification/Tenancy.thy ===== *)
theory Tenancy
  imports Server
begin

text \<open>
  Who may change what: every administrative write is one of a manager of the guild, from an allowed
  origin, and stays inside the guild. Then what a save does to a form, and what a deletion does to
  the roles its form gave.
\<close>

subsection \<open>Authorisation\<close>

lemma admin_handler_guarded: "\<exists>k. admin_handler E S rq cookie g op = act_bind (admin_write E S rq cookie g) k"
  by (cases op) (auto simp: admin_handler_def set_view_permission_def create_form_def duplicate_form_def update_form_def
      delete_form_def delete_response_def delete_all_responses_def)

lemma admin_write_Inr:
  assumes "admin_write E S rq cookie g w = (Inr caller, w')"
  shows "verify_origin rq (st_origins S) = Inr () \<and> is_live_manager E S w cookie g caller"
  using assms require_manager_Inr by (auto simp: admin_write_def act_Inr)

lemma admin_write_reads [simp, intro]: "reads_only (admin_write E S rq cookie g)"
  by (auto simp: admin_write_def)

lemma guarded_change:
  assumes "act_bind m k w = (r, w')" and "reads_only m" and "w_db w' \<noteq> w_db w \<or> \<not> isl r"
  shows "\<exists>x w1. m w = (Inr x, w1)"
proof (cases "m w")
  case (Pair r1 w1)
  then have "w_db w1 = w_db w" using reads_onlyD [OF assms(2)] by blast
  then show ?thesis using assms Pair by (cases r1) (auto simp: act_bind_def)
qed

lemma admin_change_authorised:
  assumes "admin_handler E S rq cookie g op w = (r, w')" and "w_db w' \<noteq> w_db w \<or> \<not> isl r"
  shows "verify_origin rq (st_origins S) = Inr () \<and> (\<exists>caller. is_live_manager E S w cookie g caller)"
proof -
  obtain k where "admin_handler E S rq cookie g op = act_bind (admin_write E S rq cookie g) k"
    using admin_handler_guarded by blast
  then show ?thesis using guarded_change [of "admin_write E S rq cookie g" k w r w'] admin_write_Inr assms by fastforce
qed

subsection \<open>Tenants\<close>

definition other_forms :: "str \<Rightarrow> db \<Rightarrow> form_row list" where
  "other_forms g d = filter (\<lambda>f. fm_guild_id f \<noteq> g) (db_forms d)"

text \<open>What the other guilds have: their forms, with the responses to them and the links bound to them, and
  their settings.\<close>

definition other_tenants ::
  "str \<Rightarrow> str set \<Rightarrow> db \<Rightarrow> form_row list \<times> response_row list \<times> role_link list \<times> (str \<times> str) list" where
  "other_tenants g ids d = (other_forms g d, filter (\<lambda>r. fr_form_id r \<in> ids) (db_responses d),
     filter (\<lambda>l. rl_form_id l \<in> Some ` ids) (db_role_links d), filter (\<lambda>x. fst x \<noteq> g) (db_settings d))"

definition tenant_inv :: "str \<Rightarrow> str set \<Rightarrow> form_row list \<times> response_row list \<times> role_link list \<times> (str \<times> str) list \<Rightarrow> db \<Rightarrow> bool" where
  "tenant_inv g ids v d \<longleftrightarrow> other_tenants g ids d = v"

lemma tenant_inv_jobs [simp]: "tenant_inv g ids v (d\<lparr>db_jobs := t\<rparr>) = tenant_inv g ids v d"
  by (simp add: tenant_inv_def other_tenants_def other_forms_def)

lemma tenant_inv_save:
  assumes "tenant_inv g ids v d" and "\<And>f. fm_guild_id (h f) = fm_guild_id f" and "\<And>f. fm_guild_id f \<noteq> g \<Longrightarrow> h f = f"
  shows "tenant_inv g ids v (d\<lparr>db_forms := map h (db_forms d)\<rparr>)"
proof -
  have "filter (\<lambda>f. fm_guild_id f \<noteq> g) (map h fs) = filter (\<lambda>f. fm_guild_id f \<noteq> g) fs" for fs
    using assms(2,3) by (induction fs) auto
  then show ?thesis using assms(1) by (simp add: tenant_inv_def other_tenants_def other_forms_def)
qed

lemma tenant_inv_steps:
  assumes "tenant_inv g ids v d"
  shows "fm_guild_id f = g \<Longrightarrow> tenant_inv g ids v (d\<lparr>db_forms := db_forms d @ [f]\<rparr>)"
    and "tenant_inv g ids v (drop_form i g d)"
    and "i \<notin> ids \<Longrightarrow> tenant_inv g ids v (drop_responses i d)"
    and "i \<notin> ids \<Longrightarrow> tenant_inv g ids v (d\<lparr>db_responses := filter (\<lambda>r. fr_id r = k \<longrightarrow> fr_form_id r \<noteq> i) (db_responses d)\<rparr>)"
    and "tenant_inv g ids v (upsert_settings g vp d)"
proof -
  show "fm_guild_id f = g \<Longrightarrow> tenant_inv g ids v (d\<lparr>db_forms := db_forms d @ [f]\<rparr>)"
    and "tenant_inv g ids v (drop_form i g d)"
    and "tenant_inv g ids v (upsert_settings g vp d)"
    using assms by (auto simp: tenant_inv_def other_tenants_def other_forms_def drop_form_def upsert_settings_def
        intro!: filter_cong)
  show "i \<notin> ids \<Longrightarrow> tenant_inv g ids v (drop_responses i d)"
    and "i \<notin> ids \<Longrightarrow> tenant_inv g ids v (d\<lparr>db_responses := filter (\<lambda>r. fr_id r = k \<longrightarrow> fr_form_id r \<noteq> i) (db_responses d)\<rparr>)"
    using assms by (auto simp: tenant_inv_def other_tenants_def other_forms_def drop_responses_def intro!: filter_cong)
qed

lemma tenant_inv_unbind:
  assumes "tenant_inv g ids v d" and "i \<notin> ids"
  shows "tenant_inv g ids v (unbind_links i d)"
proof -
  have "filter (\<lambda>l. rl_form_id l \<in> Some ` ids) (map (\<lambda>l. if rl_form_id l = Some i then l\<lparr>rl_form_id := None\<rparr> else l) ls)
      = filter (\<lambda>l. rl_form_id l \<in> Some ` ids) ls" for ls :: "role_link list"
    using assms(2) by (induction ls) auto
  then show ?thesis using assms(1) by (simp add: tenant_inv_def other_tenants_def other_forms_def unbind_links_def)
qed


subsection \<open>Isolation\<close>

definition own_ids_apart :: "str \<Rightarrow> str set \<Rightarrow> db \<Rightarrow> bool" where
  "own_ids_apart g ids d \<longleftrightarrow> (\<forall>f \<in> set (db_forms d). fm_guild_id f = g \<longrightarrow> fm_id f \<notin> ids)"

lemma keeps_insert_form_tenant:
  assumes "\<And>fid slug. fm_guild_id (row fid slug) = g"
  shows "keeps (on_db (tenant_inv g ids v)) (insert_form E S row slug)"
  unfolding insert_form_def keeps_def on_db_def db_stmt_def
  by (auto simp: Let_def assms tenant_inv_steps(1) split: option.split)

lemma keeps_insert_with_slug_tenant:
  assumes "\<And>fid slug. fm_guild_id (row fid slug) = g"
  shows "keeps (on_db (tenant_inv g ids v)) (insert_with_slug n E S row token)"
proof (induction n)
  case (Suc n)
  show ?case
    unfolding insert_with_slug.simps
    by (intro keeps_bind keeps_match keeps_tick keeps_insert_form_tenant assms)
      (auto split: app_error.split db_error.split intro: Suc)
qed simp

lemma keeps_on_jobs_tenant: "keeps (on_db (tenant_inv g ids v)) (on_jobs E f)"
  unfolding on_jobs_def keeps_def on_db_def db_exec_def db_stmt_def by (auto simp: Let_def split: option.split)

lemma keeps_enqueue_links_tenant: "keeps (on_db (tenant_inv g ids v)) (enqueue_links E links)"
  by (induction E links rule: enqueue_links.induct)
    (auto intro!: keeps_bind keeps_best_effort keeps_on_jobs_tenant simp: enqueue_config_sync_def)

lemma keeps_resync_links_tenant: "keeps (on_db (tenant_inv g ids v)) (resync_links E qids links)"
  by (induction E qids links rule: resync_links.induct)
    (auto intro!: keeps_bind keeps_best_effort keeps_on_jobs_tenant simp: enqueue_config_sync_def)

lemma keeps_save_form_tenant: "keeps (on_db (tenant_inv g ids v)) (save_form E i g b)"
  unfolding save_form_def keeps_def on_db_def db_stmt_def
  by (auto simp: Let_def intro!: tenant_inv_save split: option.split) (simp_all add: saved_form_def)

lemmas keeps_tenant = keeps_result_bind keeps_bind reads_only_keeps [OF admin_write_reads] keeps_insert_with_slug_tenant
  keeps_best_effort keeps_on_jobs_tenant keeps_enqueue_links_tenant keeps_resync_links_tenant keeps_save_form_tenant
  keeps_now keeps_tick

text \<open>\<open>from_db d0 Q m\<close>: started on the tables \<open>d0\<close>, the action ends in tables with \<open>Q\<close>.\<close>

definition from_db :: "db \<Rightarrow> (db \<Rightarrow> bool) \<Rightarrow> 'a act \<Rightarrow> bool" where
  "from_db d0 Q m \<longleftrightarrow> (\<forall>w. w_db w = d0 \<longrightarrow> Q (w_db (snd (m w))))"

lemma from_db_keeps: "Q d0 \<Longrightarrow> keeps (on_db Q) m \<Longrightarrow> from_db d0 Q m"
  by (auto simp: from_db_def keeps_def on_db_def)

lemma from_db_reads:
  assumes "Q d0" and "reads_only m" and "\<And>x. from_db d0 Q (f x)"
  shows "from_db d0 Q (act_bind m f)"
  unfolding from_db_def
proof (intro allI impI)
  fix w :: world assume w: "w_db w = d0"
  obtain r w' where m: "m w = (r, w')" by fastforce
  then have "w_db w' = d0" using reads_onlyD [OF assms(2)] w by metis
  then show "Q (w_db (snd (act_bind m f w)))" using m assms by (cases r) (auto simp: act_bind_def from_db_def)
qed

lemma from_db_form:
  assumes "Q d0" and "\<And>src. find_form u g d0 = Some src \<Longrightarrow> from_db d0 Q (f src)"
  shows "from_db d0 Q (act_bind (require_form E u g) f)"
  unfolding from_db_def
proof (intro allI impI)
  fix w :: world assume w: "w_db w = d0"
  have ro: "reads_only (require_form E u g)" unfolding require_form_def by auto
  obtain r w' where m: "require_form E u g w = (r, w')" by fastforce
  then have w': "w_db w' = d0" using reads_onlyD [OF ro m] w by simp
  show "Q (w_db (snd (act_bind (require_form E u g) f w)))"
  proof (cases r)
    case (Inr src)
    then have "find_form u g d0 = Some src" using m w by (auto simp: require_form_def act_Inr ok_or_Inr_iff)
    then show ?thesis using assms(2) m Inr w' by (simp add: act_bind_run from_db_def)
  qed (use m w' assms(1) in \<open>simp add: act_bind_run_error\<close>)
qed

lemma from_db_parse:
  assumes "Q d0" and "\<And>u. st_parse_uuid S i = Some u \<Longrightarrow> from_db d0 Q (f u)"
  shows "from_db d0 Q (act_bind (parse_form_id S i) f)"
  using assms by (auto simp: from_db_def act_bind_def parse_form_id_def act_result_def ok_or_def split: option.split)

lemma own_form_id:
  assumes "own_ids_apart g ids d" and "\<And>i. i \<in> ids \<Longrightarrow> st_parse_uuid S i = Some i"
    and "st_parse_uuid S i = Some u" and "find_form u g d = Some f"
  shows "i \<notin> ids"
  using assms by (fastforce simp: own_ids_apart_def find_form_def find_Some_iff)

lemma delete_form_tenant:
  "i \<notin> ids \<Longrightarrow> keeps (on_db (tenant_inv g ids v)) (act_bind (db_query E (bound_links i)) (\<lambda>bound.
     act_bind (db_transaction E
       (act_bind (db_exec E (unbind_links i)) (\<lambda>_.
        act_bind (db_exec E (drop_responses i)) (\<lambda>_.
        act_bind (db_stmt E (\<lambda>d. Inr (find_form u g d \<noteq> None, drop_form u g d))) (\<lambda>hit.
        act_require hit form_not_found))))) (\<lambda>_.
     act_bind (enqueue_links E bound) (\<lambda>_. act_ok success))))"
  by (intro keeps_tenant keeps_query keeps_transaction keeps_exec keeps_stmt keeps_require keeps_ok)
    (auto intro: tenant_inv_unbind tenant_inv_steps)

lemma delete_response_tenant:
  "i \<notin> ids \<Longrightarrow> keeps (on_db (tenant_inv g ids v))
     (act_bind (db_stmt E (\<lambda>d. Inr (find (\<lambda>r. fr_id r = rid \<and> fr_form_id r = i) (db_responses d),
         d\<lparr>db_responses := filter (\<lambda>r. \<not> (fr_id r = rid \<and> fr_form_id r = i)) (db_responses d)\<rparr>))) (\<lambda>deleted.
     act_bind (act_result (ok_or deleted e)) (\<lambda>r.
     act_bind (best_effort (enqueue_player_sync E (Updated (fr_discord_id r)))) (\<lambda>_. act_ok (h r)))))"
  unfolding enqueue_player_sync_def
  by (intro keeps_tenant keeps_stmt keeps_ok) (auto intro: tenant_inv_steps)

lemma delete_all_responses_tenant:
  "i \<notin> ids \<Longrightarrow> keeps (on_db (tenant_inv g ids v)) (act_bind (db_query E (bound_links i)) (\<lambda>bound.
     act_bind (db_stmt E (\<lambda>d. Inr (response_count i d, drop_responses i d))) (\<lambda>deleted.
     act_bind (enqueue_links E bound) (\<lambda>_. act_ok (h deleted)))))"
  by (intro keeps_tenant keeps_query keeps_stmt keeps_ok) (auto intro: tenant_inv_steps)

lemma admin_handler_tenant:
  assumes "tenant_inv g ids v d0" and apart: "own_ids_apart g ids d0"
    and canonical: "\<And>i. i \<in> ids \<Longrightarrow> st_parse_uuid S i = Some i"
  shows "from_db d0 (tenant_inv g ids v) (admin_handler E S rq cookie g op)"
proof -
  let ?Q = "tenant_inv g ids v"
  have own: "from_db d0 ?Q (act_bind (require_form E u g) f)"
    if "st_parse_uuid S i = Some u" "i \<notin> ids \<Longrightarrow> \<forall>src. keeps (on_db ?Q) (f src)" for u i f
    by (rule from_db_form, rule assms(1), rule from_db_keeps, rule assms(1))
      (use that own_form_id [OF apart canonical that(1)] in blast)
  have own_form: "from_db d0 ?Q (act_bind (admin_write E S rq cookie g) (\<lambda>_. act_bind (parse_form_id S i) f))"
    if "\<And>u. st_parse_uuid S i = Some u \<Longrightarrow> from_db d0 ?Q (f u)" for i f
    using that by (auto intro!: from_db_reads from_db_parse assms(1))
  have "keeps (on_db ?Q) (set_view_permission E S rq cookie g vp)" for vp
    unfolding set_view_permission_def by (auto intro!: keeps_tenant keeps_exec tenant_inv_steps)
  moreover have "keeps (on_db ?Q) (create_form E S rq cookie g t n)" for t n
    unfolding create_form_def Let_def by (intro keeps_tenant) (simp_all add: default_form_row_def)
  moreover have "keeps (on_db ?Q) (duplicate_form E S rq cookie g i)" for i
    unfolding duplicate_form_def require_form_def parse_form_id_def Let_def
    by (intro keeps_tenant keeps_query keeps_result) (simp_all add: default_form_row_def)
  moreover have "keeps (on_db ?Q) (update_form E S rq cookie g i b)" for i b
    unfolding update_form_def parse_form_id_def by (auto intro!: keeps_tenant)
  moreover have "from_db d0 ?Q (delete_form E S rq cookie g i)" for i
    unfolding delete_form_def by (rule own_form, rule own, assumption, rule allI, erule delete_form_tenant)
  moreover have "from_db d0 ?Q (delete_response E S rq cookie g i k)" for i k
    unfolding delete_response_def by (rule own_form, rule from_db_reads, rule assms(1), rule reads_only_simps, rule own, assumption, rule allI,
        erule delete_response_tenant)
  moreover have "from_db d0 ?Q (delete_all_responses E S rq cookie g i)" for i
    unfolding delete_all_responses_def by (rule own_form, rule own, assumption, rule allI, erule delete_all_responses_tenant)
  ultimately show ?thesis
    using assms(1) by (cases op) (auto simp: admin_handler_def intro: from_db_keeps)
qed

subsection \<open>What a save leaves\<close>

lemma on_jobs_only: "on_jobs E f w = (r, w') \<Longrightarrow> \<exists>t. w_db w' = (w_db w)\<lparr>db_jobs := t\<rparr>"
  by (auto simp: on_jobs_def db_exec_def db_stmt_def Let_def split: option.splits) (metis db.surjective db.update_convs(5))+

text \<open>Nothing but the jobs changed.\<close>

definition jobs_only :: "db \<Rightarrow> db \<Rightarrow> bool" where
  "jobs_only d d' \<longleftrightarrow> (\<exists>t. d' = d\<lparr>db_jobs := t\<rparr>)"

lemma jobs_only_refl [simp, intro]: "jobs_only d d"
  unfolding jobs_only_def by (rule exI [where x = "db_jobs d"]) simp

lemma keeps_jobs_only_on_jobs: "keeps (on_db (jobs_only d)) (on_jobs E f)"
  unfolding on_jobs_def keeps_def on_db_def db_exec_def db_stmt_def
  by (auto simp: Let_def jobs_only_def split: option.split)

lemma keeps_jobs_only_resync: "keeps (on_db (jobs_only d)) (resync_links E qids links)"
  by (induction E qids links rule: resync_links.induct)
    (auto intro!: keeps_bind keeps_best_effort keeps_jobs_only_on_jobs simp: enqueue_config_sync_def)

lemma keeps_jobs_only_enqueue: "keeps (on_db (jobs_only d)) (enqueue_links E links)"
  by (induction E links rule: enqueue_links.induct)
    (auto intro!: keeps_bind keeps_best_effort keeps_jobs_only_on_jobs simp: enqueue_config_sync_def)

lemma jobs_only_after:
  assumes "keeps (on_db (jobs_only (w_db w))) m" and "m w = (r, w')"
  shows "jobs_only (w_db w) (w_db w')"
  using keepsD [OF assms(1), of w] assms(2) by (simp add: on_db_def)

definition save_hits :: "str \<Rightarrow> str \<Rightarrow> update_body \<Rightarrow> form_row \<Rightarrow> bool" where
  "save_hits u g b f \<longleftrightarrow> fm_id f = u \<and> fm_guild_id f = g \<and> fm_version f = ub_version b"

definition saved_db :: "str \<Rightarrow> str \<Rightarrow> update_body \<Rightarrow> int \<Rightarrow> db \<Rightarrow> db" where
  "saved_db u g b now d = d\<lparr>db_forms := map (\<lambda>f. if save_hits u g b f then saved_form b now f else f) (db_forms d)\<rparr>"

lemma save_form_Inr:
  "save_form E u g b w = (Inr n, w') \<Longrightarrow>
     n = length (filter (save_hits u g b) (db_forms (w_db w))) \<and> w_db w' = saved_db u g b (w_now w) (w_db w)"
  by (auto simp: save_form_def stmt_done saved_db_def save_hits_def [abs_def] Let_def split: if_splits)

lemma saved_db_none: "\<not> list_ex (save_hits u g b) (db_forms d) \<Longrightarrow> saved_db u g b now d = d"
proof -
  assume "\<not> list_ex (save_hits u g b) (db_forms d)"
  then have "map (\<lambda>f. if save_hits u g b f then saved_form b now f else f) (db_forms d) = db_forms d"
    by (intro map_idI) (auto simp: list_ex_iff)
  then show ?thesis by (simp add: saved_db_def)
qed

lemma update_form_Inr:
  assumes "update_form E S rq cookie g i b w = (Inr reply, w')"
  shows "\<exists>u parsed. st_parse_uuid S i = Some u \<and> check_schema E S b = Inr parsed \<and> check_settings S b = Inr ()
     \<and> (\<exists>f \<in> set (db_forms (w_db w)). save_hits u g b f)
     \<and> jobs_only (saved_db u g b (w_now w) (w_db w)) (w_db w')"
proof -
  from assms obtain caller w1 u parsed n w2 where
      a: "admin_write E S rq cookie g w = (Inr caller, w1)" and u: "st_parse_uuid S i = Some u"
    and c: "check_schema E S b = Inr parsed" "check_settings S b = Inr ()"
    and s: "save_form E u g b w1 = (Inr n, w2)"
    and k: "(if n = 0 then
       act_bind (db_query E (find_form u g)) (\<lambda>exists. act_fail (case exists of Some _ \<Rightarrow> EStaleVersion | None \<Rightarrow> form_not_found))
     else
       act_bind (db_query E (bound_links i)) (\<lambda>links.
       act_bind (resync_links E (map q_id (iter_questions parsed)) links) (\<lambda>warnings.
       act_bind (db_query E (find_form u g)) (\<lambda>f.
       act_bind (act_result (ok_or f row_not_found)) (\<lambda>f.
       act_ok (JObj [(''version'', json_of_i64 (fm_version f)),
         (''warnings'', JArr (map JStr
           ((if ub_is_quiz b \<and> quiz_graded_count (e_crates E) parsed = 0 then [quiz_warning] else []) @ warnings)))])))))) w2
       = (Inr reply, w')"
    by (auto simp: update_form_def parse_form_id_def act_Inr ok_or_Inr_iff)
  have w1: "w_db w1 = w_db w" "w_now w1 = w_now w" using reads_onlyD [OF admin_write_reads a] by auto
  have w2: "w_db w2 = saved_db u g b (w_now w) (w_db w)" and n: "n = length (filter (save_hits u g b) (db_forms (w_db w)))"
    using save_form_Inr [OF s] w1 by auto
  have "n \<noteq> 0" using k by (cases "n = 0") (auto simp: act_bind_Inr)
  then have hit: "\<exists>f \<in> set (db_forms (w_db w)). save_hits u g b f" using n by (auto simp: filter_empty_conv)
  from k \<open>n \<noteq> 0\<close> obtain links w3 warnings w4 where
      q: "db_query E (bound_links i) w2 = (Inr links, w3)"
    and r: "resync_links E (map q_id (iter_questions parsed)) links w3 = (Inr warnings, w4)" and w': "w_db w' = w_db w4"
    by (auto simp: act_bind_Inr act_result_Inr query_done)
  have "w_db w3 = w_db w2" using q by (simp add: query_done)
  then have "jobs_only (w_db w2) (w_db w')" using jobs_only_after [OF keeps_jobs_only_resync r] w' by simp
  then show ?thesis using u c hit w2 by auto
qed

lemma update_form_no_hit:
  assumes "st_parse_uuid S i = Some u" and "\<not> list_ex (save_hits u g b) (db_forms (w_db w))"
    and "update_form E S rq cookie g i b w = (r, w')"
  shows "isl r \<and> w_db w' = w_db w"
proof -
  have "isl r" using update_form_Inr [of E S rq cookie g i b w _ w'] assms
    by (cases r) (fastforce simp: list_ex_iff)+
  let ?same = "(=) (w_db w)"
  have kept: "keeps (on_db ?same) (save_form E u g b)"
  proof (rule keepsI)
    fix w1 assume "on_db ?same w1"
    then show "on_db ?same (snd (save_form E u g b w1))"
      using assms(2) saved_db_none [OF assms(2), of "w_now w1"]
      by (auto simp: save_form_def db_stmt_def on_db_def Let_def saved_db_def save_hits_def [abs_def] split: option.split if_splits)
  qed
  have zero: "n = 0" if "save_form E u g b w1 = (Inr n, w2)" "on_db ?same w1" for w1 w2 n
    using save_form_Inr [OF that(1)] that(2) assms(2) by (auto simp: on_db_def list_ex_iff filter_empty_conv)
  have save: "from_db (w_db w) ?same (act_bind (save_form E u g b) k)"
    if "\<And>w2. w_db w2 = w_db w \<Longrightarrow> w_db (snd (k 0 w2)) = w_db w" for k :: "nat \<Rightarrow> json act"
    unfolding from_db_def
  proof (intro allI impI)
    fix w1 :: world assume w1: "w_db w1 = w_db w"
    obtain q w2 where s: "save_form E u g b w1 = (q, w2)" by fastforce
    have "w_db w2 = w_db w" using keepsD [OF kept, of w1] w1 s by (simp add: on_db_def)
    moreover have "q = Inr n \<Longrightarrow> n = 0" for n using zero [of w1] w1 s by (simp add: on_db_def)
    ultimately show "w_db w = w_db (snd (act_bind (save_form E u g b) k w1))"
      using s that by (cases q) (auto simp: act_bind_def)
  qed
  have "from_db (w_db w) ?same (update_form E S rq cookie g i b)"
    unfolding update_form_def
    by (rule from_db_reads, rule refl, rule admin_write_reads, rule from_db_parse, rule refl,
        rule from_db_reads, rule refl, rule reads_only_simps, rule from_db_reads, rule refl, rule reads_only_simps)
      (use assms(1) in \<open>auto intro!: save simp: act_bind_def db_query_def db_stmt_def Let_def split: option.split sum.split prod.split\<close>)
  then show ?thesis using \<open>isl r\<close> assms(3) by (auto simp: from_db_def)
qed

subsection \<open>What a deletion leaves\<close>

definition deleted_db :: "str \<Rightarrow> str \<Rightarrow> str \<Rightarrow> db \<Rightarrow> db" where
  "deleted_db i u g d = drop_form u g (drop_responses i (unbind_links i d))"

lemma delete_form_Inr:
  assumes "delete_form E S rq cookie g i w = (Inr v, w')"
  shows "\<exists>u. st_parse_uuid S i = Some u \<and> find_form u g (w_db w) \<noteq> None \<and> jobs_only (deleted_db i u g (w_db w)) (w_db w')"
proof -
  from assms obtain caller w1 u f w2 bound w3 x4 w4 x5 where
      a: "admin_write E S rq cookie g w = (Inr caller, w1)" and u: "st_parse_uuid S i = Some u"
    and f: "require_form E u g w1 = (Inr f, w2)" and q: "db_query E (bound_links i) w2 = (Inr bound, w3)"
    and t: "db_transaction E (act_bind (db_exec E (unbind_links i)) (\<lambda>_.
        act_bind (db_exec E (drop_responses i)) (\<lambda>_.
        act_bind (db_stmt E (\<lambda>d. Inr (find_form u g d \<noteq> None, drop_form u g d))) (\<lambda>hit.
        act_require hit form_not_found)))) w3 = (Inr x4, w4)"
    and e: "enqueue_links E bound w4 = (Inr x5, w')"
    unfolding delete_form_def parse_form_id_def by (fastforce simp only: act_bind_Inr act_result_Inr ok_or_Inr_iff act_ok_Inr)
  have "w_db w1 = w_db w" using reads_onlyD [OF admin_write_reads a] by simp
  moreover have "w_db w2 = w_db w1" "find_form u g (w_db w1) = Some f"
    using f by (auto simp: require_form_def act_Inr ok_or_Inr_iff)
  moreover have "w_db w3 = w_db w2" using q by (simp add: query_done)
  moreover have "w_db w4 = deleted_db i u g (w_db w3)"
    using transaction_Inr [OF t] by (auto simp: act_Inr deleted_db_def)
  moreover have "jobs_only (w_db w4) (w_db w')"
    using jobs_only_after [OF keeps_jobs_only_enqueue e] .
  ultimately show ?thesis using u by auto
qed

text \<open>
  \<open>Uuid::parse_str\<close> also reads other spellings of an id. Links and responses hold the canonical
  one as text and are looked up by the text of the path, so a deletion with another spelling
  removes the form and leaves its responses and the links bound to it.
\<close>

lemma other_spelling_leaves_responses:
  assumes "delete_form E S rq cookie g i w = (Inr v, w')" and "i \<notin> fr_form_id ` set (db_responses (w_db w))"
    and "Some i \<notin> rl_form_id ` set (db_role_links (w_db w))"
  shows "db_responses (w_db w') = db_responses (w_db w) \<and> db_role_links (w_db w') = db_role_links (w_db w)
    \<and> (\<exists>u. st_parse_uuid S i = Some u \<and> db_forms (w_db w') = db_forms (drop_form u g (w_db w)))"
proof -
  from delete_form_Inr [OF assms(1)] obtain u where u: "st_parse_uuid S i = Some u"
    and j: "jobs_only (deleted_db i u g (w_db w)) (w_db w')" by auto
  have "filter (\<lambda>r. fr_form_id r \<noteq> i) (db_responses (w_db w)) = db_responses (w_db w)"
    using assms(2) by (auto simp: filter_id_conv)
  moreover have "map (\<lambda>l. if rl_form_id l = Some i then l\<lparr>rl_form_id := None\<rparr> else l) (db_role_links (w_db w))
      = db_role_links (w_db w)"
    using assms(3) by (intro map_idI) (auto simp: rev_image_eqI)
  ultimately show ?thesis using u j
    by (auto simp: jobs_only_def deleted_db_def drop_form_def drop_responses_def unbind_links_def)
qed

text \<open>No sync examines a link that is bound to no form.\<close>

lemma unbound_link_skipped:
  assumes "find_link g r d = Some l" and "rl_form_id l = None" and "w_db w = d"
  shows "w_db (snd (sync_for_role_link E C g r w)) = d \<and> w_sent (snd (sync_for_role_link E C g r w)) = w_sent w"
  using assms by (auto simp: sync_for_role_link_def act_bind_def db_query_def db_stmt_def Let_def split: option.split)

lemma unbound_link_no_candidate:
  assumes "distinct (map link_key (db_role_links d))" and "l \<in> set (db_role_links d)" and "rl_form_id l = None"
  shows "link_key l \<notin> link_key ` set (candidate_links guilds d)"
  using assms by (auto simp: candidate_links_def distinct_map inj_on_def)

lemma find_link_key:
  assumes "distinct (map link_key (db_role_links d))" and "l \<in> set (db_role_links d)"
  shows "find_link (rl_guild_id l) (rl_role_id l) d = Some l"
proof -
  obtain l' where l': "find_link (rl_guild_id l) (rl_role_id l) d = Some l'"
    using assms(2) by (cases "find_link (rl_guild_id l) (rl_role_id l) d") (auto simp: find_link_def find_None_iff link_key_def)
  then have "l' \<in> set (db_role_links d)" "link_key l' = link_key l"
    by (auto simp: find_link_def find_Some_iff link_key_def)
  then have "l' = l" using assms by (auto simp: distinct_map inj_on_def)
  then show ?thesis using l' by simp
qed

lemma deleted_db_links: "db_role_links (deleted_db i u g d) =
    map (\<lambda>l. if rl_form_id l = Some i then l\<lparr>rl_form_id := None\<rparr> else l) (db_role_links d)"
  "db_assignments (deleted_db i u g d) = db_assignments d"
  by (simp_all add: deleted_db_def drop_form_def drop_responses_def unbind_links_def)

lemma delete_form_leaves_members_at:
  assumes "delete_form E S rq cookie g i w = (Inr v, w1)" and "l \<in> set (db_role_links (w_db w))" and "rl_form_id l = Some i"
    and "db_ok (w_db w)" and "w_db w2 = w_db w1"
  shows "assigned_ids (rl_guild_id l) (rl_role_id l) (w_db w1) = assigned_ids (rl_guild_id l) (rl_role_id l) (w_db w)
     \<and> w_db (snd (sync_for_role_link E' C (rl_guild_id l) (rl_role_id l) w2)) = w_db w1
     \<and> w_sent (snd (sync_for_role_link E' C (rl_guild_id l) (rl_role_id l) w2)) = w_sent w2
     \<and> (rl_guild_id l, rl_role_id l) \<notin> link_key ` set (candidate_links guilds (w_db w1))"
proof -
  from delete_form_Inr [OF assms(1)] obtain u where j: "jobs_only (deleted_db i u g (w_db w)) (w_db w1)" by auto
  let ?h = "\<lambda>l. if rl_form_id l = Some i then l\<lparr>rl_form_id := None\<rparr> else l"
  have ls: "db_role_links (w_db w1) = map ?h (db_role_links (w_db w))" and as: "db_assignments (w_db w1) = db_assignments (w_db w)"
    using j by (auto simp: jobs_only_def deleted_db_links)
  have keys: "map link_key (map ?h (db_role_links (w_db w))) = map link_key (db_role_links (w_db w))"
    by (rule link_keys_map) simp
  have d: "distinct (map link_key (db_role_links (w_db w1)))"
    using assms(4) unfolding ls keys db_ok_def by blast
  let ?l = "l\<lparr>rl_form_id := None\<rparr>"
  have l: "?l \<in> set (db_role_links (w_db w1))" using assms(2,3) unfolding ls by force
  have f: "find_link (rl_guild_id l) (rl_role_id l) (w_db w1) = Some ?l" using find_link_key [OF d l] by simp
  show ?thesis
    using unbound_link_skipped [OF f _ assms(5), of E' C] unbound_link_no_candidate [OF d l, of guilds] as
    by (simp add: assigned_ids_def link_key_def)
qed

subsection \<open>An administrator, for examples\<close>

definition admin_env :: env where
  "admin_env = (sample_env (HttpReply 200 ''m''))\<lparr>e_parse_json := (\<lambda>s. if s = ''m''
     then Some (JObj [(''is_manager'', JBool True)]) else None)\<rparr>"

definition admin_request :: request where
  "admin_request = sample_request ''POST'' [(''origin'', ''https://p'')] None"

definition sample_update :: update_body where
  "sample_update = \<lparr>ub_title = ''New'', ub_description = [], ub_schema = form_schema_to_json sample_form, ub_is_quiz = False,
     ub_open_at = None, ub_close_at = None, ub_allow_edits = True, ub_single_submission = True, ub_passing_score = Some 3,
     ub_require_verified = False, ub_min_account_age_days = 0, ub_success_message = ''ok'', ub_webhook_url = Some [],
     ub_archived = False, ub_max_attempts = 1, ub_retry_cooldown_seconds = 0, ub_retry_policy = ''keep_latest'',
     ub_lock_on_pass = True, ub_version = 1\<rparr>"

lemma admin_env_simps: "e_db_fault admin_env t = None" "e_http admin_env t rq = HttpReply 200 ''m''"
  "e_parse_json admin_env ''m'' = Some (JObj [(''is_manager'', JBool True)])" "e_crates admin_env = sample_crates"
  by (simp_all add: admin_env_def sample_env_def)

lemma sample_manager: "w_now w \<le> 9999 * nanos_per_sec \<Longrightarrow>
    admin_write admin_env sample_site admin_request (Some sample_cookie) g w
      = (Inr ''ann'', w\<lparr>w_tick := w_tick w + 1, w_sent := w_sent w @ [permission_request sample_site sample_cookie g]\<rparr>)"
  by (simp add: admin_write_def require_manager_def require_session_def check_manager_def guild_permission_def act_bind_def
      act_result_def act_now_def act_require_def session_sample sample_selectors admin_request_def sample_origin
      admin_env_simps http_send_def is_success_def json_true_def as_bool_def)

lemma form_world_simps: "w_now form_world = 0" "w_db form_world = empty_db\<lparr>db_forms := [sample_form_row]\<rparr>" "w_tick form_world = 0"
  by (simp_all add: form_world_def sample_world_def)

lemma sample_update_checks:
  "\<exists>parsed. check_schema admin_env sample_site sample_update = Inr parsed" "check_settings sample_site sample_update = Inr ()"
proof -
  have "isl (check_schema admin_env sample_site sample_update) = False" by code_simp
  then show "\<exists>parsed. check_schema admin_env sample_site sample_update = Inr parsed"
    by (cases "check_schema admin_env sample_site sample_update") auto
qed code_simp

lemma sample_ids: "st_parse_uuid sample_site = Some" "fm_guild_id sample_form_row = ''g''" "fm_version sample_form_row = 1"
  "ub_version sample_update = 1"
  by (simp_all add: sample_site_def sample_form_row_def sample_update_def)

lemma sample_saved: "\<exists>reply w'. update_form admin_env sample_site admin_request (Some sample_cookie) ''g'' ''f'' sample_update
    form_world = (Inr reply, w')"
proof -
  obtain parsed where c: "check_schema admin_env sample_site sample_update = Inr parsed" using sample_update_checks by blast
  have k: "fm_id (saved_form b n f) = fm_id f" "fm_guild_id (saved_form b n f) = fm_guild_id f" for b n f
    by (simp_all add: saved_form_def)
  show ?thesis
    using sample_row
    by (simp add: update_form_def act_bind_def sample_manager form_world_simps parse_form_id_def act_result_def sample_ids
        c sample_update_checks save_form_def db_query_def db_stmt_def Let_def admin_env_simps empty_db_def bound_links_def
        find_form_def k)
qed

definition bound_world :: world where
  "bound_world = form_world\<lparr>w_db := (w_db form_world)\<lparr>
     db_role_links := [\<lparr>rl_guild_id = ''g'', rl_role_id = ''r'', rl_api_token = ''t'', rl_form_id = Some ''f'',
       rl_grant_on_any = True, rl_conditions = JArr []\<rparr>],
     db_assignments := [\<lparr>ra_guild_id = ''g'', ra_role_id = ''r'', ra_discord_id = ''ann''\<rparr>]\<rparr>\<rparr>"

lemma sample_deleted: "\<exists>w'. delete_form admin_env sample_site admin_request (Some sample_cookie) ''g'' ''f'' bound_world
    = (Inr success, w')"
  by (simp add: delete_form_def act_bind_def sample_manager form_world_simps parse_form_id_def act_result_def sample_ids
      sample_row require_form_def find_form_def db_transaction_def db_exec_def db_query_def db_stmt_def Let_def admin_env_simps
      bound_world_def empty_db_def unbind_links_def drop_responses_def act_require_def bound_links_def link_key_def
      best_effort_def act_match_def enqueue_config_sync_def on_jobs_def)

text \<open>What a save may make of a form, said without the statement that does it.\<close>

definition saved_as :: "site \<Rightarrow> update_body \<Rightarrow> form_schema \<Rightarrow> form_row \<Rightarrow> form_row \<Rightarrow> bool" where
  "saved_as S b parsed f f' \<longleftrightarrow>
     fm_id f' = fm_id f \<and> fm_guild_id f' = fm_guild_id f \<and> fm_slug f' = fm_slug f \<and> fm_preview_token f' = fm_preview_token f
     \<and> form_schema_from_json (fm_schema f') = Some parsed
     \<and> fm_title f' = ub_title b \<and> fm_description f' = ub_description b \<and> fm_success_message f' = ub_success_message b
     \<and> fm_open_at f' = ub_open_at b \<and> fm_close_at f' = ub_close_at b \<and> fm_archived f' = ub_archived b
     \<and> fm_require_verified f' = ub_require_verified b \<and> fm_lock_on_pass f' = ub_lock_on_pass b
     \<and> fm_is_quiz f' = ub_is_quiz b
     \<and> (if ub_is_quiz b then fm_single_submission f' \<and> \<not> fm_allow_edits f' \<and> fm_passing_score f' = ub_passing_score b
        else fm_single_submission f' = ub_single_submission b \<and> fm_allow_edits f' = ub_allow_edits b \<and> fm_passing_score f' = None)
     \<and> (\<forall>t. fm_passing_score f' = Some t \<longrightarrow> 0 \<le> t \<and> t \<le> 1000000)
     \<and> (fm_webhook_url f' = None \<longleftrightarrow> ub_webhook_url b = None \<or> ub_webhook_url b = Some [])
     \<and> (\<forall>url. fm_webhook_url f' = Some url \<longrightarrow> url \<noteq> [] \<and> ub_webhook_url b = Some url \<and> is_safe_url (st_net S) url)
     \<and> fm_min_account_age_days f' = ub_min_account_age_days b \<and> fm_min_account_age_days f' \<in> {0..3650}
     \<and> fm_max_attempts f' = ub_max_attempts b \<and> fm_max_attempts f' \<in> {0..50}
     \<and> fm_retry_cooldown_seconds f' = ub_retry_cooldown_seconds b \<and> fm_retry_cooldown_seconds f' \<in> {0..7776000}
     \<and> fm_retry_policy f' = ub_retry_policy b \<and> fm_retry_policy f' \<in> {''keep_best'', ''keep_latest''}"

lemma check_schema_Inr: "check_schema E S b = Inr parsed \<Longrightarrow> form_schema_from_json (titled_schema b) = Some parsed
    \<and> sanity_check parsed = Inr () \<and> (ub_is_quiz b \<longrightarrow> validate_quiz_keys (e_crates E) parsed = Inr ())"
  by (auto simp: check_schema_def try_bind_Inr_iff ok_or_Inr_iff joined_errors_def split: sum.splits if_splits)

lemma bad_request_Inr: "bad_request bad m = Inr x \<longleftrightarrow> \<not> bad"
  by (simp add: bad_request_def)

lemma check_settings_Inr: "check_settings S b = Inr () \<longleftrightarrow>
    ub_min_account_age_days b \<in> {0..3650} \<and> (\<forall>s. ub_passing_score b = Some s \<longrightarrow> 0 \<le> s \<and> s \<le> 1000000)
    \<and> (\<forall>u. ub_webhook_url b = Some u \<longrightarrow> u \<noteq> [] \<longrightarrow> is_safe_url (st_net S) u) \<and> ub_max_attempts b \<in> {0..50}
    \<and> ub_retry_cooldown_seconds b \<in> {0..7776000} \<and> ub_retry_policy b \<in> {''keep_best'', ''keep_latest''}"
  unfolding check_settings_def try_bind_Inr_iff bad_request_Inr max_retry_attempts_def max_retry_cooldown_seconds_def
  by (auto split: option.split)

lemma saved_form_saved_as:
  assumes "form_schema_from_json (titled_schema b) = Some parsed" and "check_settings S b = Inr ()"
  shows "saved_as S b parsed f (saved_form b now f)"
  using assms unfolding check_settings_Inr by (auto simp: saved_as_def saved_form_def split: option.splits if_splits)

lemma saved_as_survey: "saved_as S b parsed f f' \<Longrightarrow> \<not> ub_is_quiz b \<Longrightarrow> fm_passing_score f' = None"
  by (simp add: saved_as_def)

subsection \<open>Properties\<close>

text \<open>An administrative request changes the tables, or succeeds, only from an allowed origin and with
  a live session whose owner the gateway confirms as a manager of the guild in the path.\<close>

lemma admin_changes_authorised:
  assumes "admin_handler E S rq cookie g op w = (r, w')" and "w_db w' \<noteq> w_db w \<or> \<not> isl r"
  shows "verify_origin rq (st_origins S) = Inr () \<and> (\<exists>caller. is_live_manager E S w cookie g caller)"
  by (rule admin_change_authorised [OF assms])

text \<open>C4: an administrative request on the forms, responses or settings of a guild (\<open>admin_op\<close>: set the view
  permission, create, duplicate, save or delete a form, delete one or all responses), whoever sends it and
  whatever it names, leaves the other guilds' forms, the responses to them, the links bound to them and the
  other guilds' settings as they were, when form ids belong to one guild and canonical ids parse to
  themselves. Saving a role configuration is another request, \<open>role_config_save\<close>.\<close>

theorem admin_stays_in_guild:
  assumes "\<And>f. f \<in> set (db_forms (w_db w)) \<Longrightarrow> fm_guild_id f = g \<Longrightarrow> fm_id f \<notin> ids"
    and "\<And>i. i \<in> ids \<Longrightarrow> st_parse_uuid S i = Some i"
  shows "other_tenants g ids (w_db (snd (admin_handler E S rq cookie g op w))) = other_tenants g ids (w_db w)"
  using admin_handler_tenant [of g ids "other_tenants g ids (w_db w)" "w_db w" S E rq cookie op] assms
  by (simp add: from_db_def tenant_inv_def own_ids_apart_def)

theorem admin_stays_in_guild_witness:
  "other_tenants ''h'' {''f''} (w_db (snd (admin_handler admin_env sample_site admin_request (Some sample_cookie) ''h''
     (DeleteForm ''f'') form_world))) = ([sample_form_row], [], [], [])"
  using admin_stays_in_guild [of form_world "''h''" "{''f''}" sample_site admin_env admin_request "Some sample_cookie" "DeleteForm ''f''"]
  by (simp add: form_world_simps sample_ids other_tenants_def other_forms_def empty_db_def)

text \<open>C12: a successful save changed the one form of the guild that still had the version the editor
  loaded, and nothing else but the jobs. That form now has the next version, its old identity, a
  readable and structurally sound schema (with valid answer keys for a quiz), the one-shot rules of a
  quiz and no pass mark otherwise, and settings within their bounds (see \<open>saved_as\<close>).\<close>

theorem update_form_saves:
  assumes "update_form E S rq cookie g i b w = (Inr reply, w')"
  shows "\<exists>u parsed fs jobs. st_parse_uuid S i = Some u \<and> form_schema_from_json (titled_schema b) = Some parsed
     \<and> sanity_check parsed = Inr () \<and> (ub_is_quiz b \<longrightarrow> validate_quiz_keys (e_crates E) parsed = Inr ())
     \<and> (\<exists>f \<in> set (db_forms (w_db w)). fm_id f = u \<and> fm_guild_id f = g \<and> fm_version f = ub_version b)
     \<and> w_db w' = (w_db w)\<lparr>db_forms := fs, db_jobs := jobs\<rparr>
     \<and> list_all2 (\<lambda>f f'. if fm_id f = u \<and> fm_guild_id f = g \<and> fm_version f = ub_version b
           then fm_version f' = fm_version f + 1 \<and> saved_as S b parsed f f' else f' = f) (db_forms (w_db w)) fs"
proof -
  from update_form_Inr [OF assms] obtain u parsed where u: "st_parse_uuid S i = Some u" "check_schema E S b = Inr parsed"
      "check_settings S b = Inr ()" "\<exists>f \<in> set (db_forms (w_db w)). save_hits u g b f"
    and j: "jobs_only (saved_db u g b (w_now w) (w_db w)) (w_db w')" by blast
  let ?save = "\<lambda>f. if save_hits u g b f then saved_form b (w_now w) f else f"
  note c = check_schema_Inr [OF u(2)]
  have "saved_as S b parsed f (saved_form b (w_now w) f) \<and> fm_version (saved_form b (w_now w) f) = fm_version f + 1" for f
    using saved_form_saved_as [OF conjunct1 [OF c] u(3)] by (simp add: saved_form_def)
  then have "list_all2 (\<lambda>f f'. if fm_id f = u \<and> fm_guild_id f = g \<and> fm_version f = ub_version b
      then fm_version f' = fm_version f + 1 \<and> saved_as S b parsed f f' else f' = f) (db_forms (w_db w)) (map ?save (db_forms (w_db w)))"
    by (auto simp: list.rel_map save_hits_def intro!: list.rel_refl)
  moreover obtain t where "w_db w' = (w_db w)\<lparr>db_forms := map ?save (db_forms (w_db w)), db_jobs := t\<rparr>"
    using j by (auto simp: jobs_only_def saved_db_def)
  ultimately show ?thesis
    using u(1,4) c by (intro exI [of _ u] exI [of _ parsed] exI [of _ "map ?save (db_forms (w_db w))"] exI [of _ t]) (auto simp: save_hits_def)
qed

theorem update_form_saves_witness:
  "\<exists>w' :: world. map fm_version (db_forms (w_db w')) = [2] \<and> map fm_passing_score (db_forms (w_db w')) = [None]"
proof -
  obtain reply w' where u: "update_form admin_env sample_site admin_request (Some sample_cookie) ''g'' ''f'' sample_update
    form_world = (Inr reply, w')" using sample_saved by blast
  have v: "ub_version sample_update = 1" "fm_version sample_form_row = 1" "\<not> ub_is_quiz sample_update"
    "fm_guild_id sample_form_row = ''g''"
    by (simp_all add: sample_update_def sample_form_row_def)
  from update_form_saves [OF u] v have "\<exists>f'. db_forms (w_db w') = [f'] \<and> fm_version f' = 2 \<and> fm_passing_score f' = None"
    by (auto simp: form_world_simps sample_ids sample_row list_all2_Cons1 dest: saved_as_survey)
  then show ?thesis by (intro exI [of _ w']) auto
qed

text \<open>C13: two editors who loaded the same version never both save: after the first save, a second one of
  that version is refused and changes nothing.\<close>

theorem second_save_refused:
  assumes "update_form E S rq cookie g i b w = (Inr reply, w1)" and "db_forms (w_db w2) = db_forms (w_db w1)"
    and "st_parse_uuid S j = st_parse_uuid S i" and "ub_version b2 = ub_version b"
    and "update_form E' S rq2 cookie2 g j b2 w2 = (r, w3)"
  shows "isl r \<and> w_db w3 = w_db w2"
proof -
  from update_form_Inr [OF assms(1)] obtain u where u: "st_parse_uuid S i = Some u"
    and j: "jobs_only (saved_db u g b (w_now w) (w_db w)) (w_db w1)" by auto
  have forms: "db_forms (w_db w2) = map (\<lambda>f. if save_hits u g b f then saved_form b (w_now w) f else f) (db_forms (w_db w))"
    using j assms(2) by (auto simp: jobs_only_def saved_db_def)
  have "\<not> save_hits u g b2 (if save_hits u g b f then saved_form b (w_now w) f else f)" for f
    using assms(4) by (simp add: save_hits_def saved_form_def)
  then have "\<not> list_ex (save_hits u g b2) (db_forms (w_db w2))"
    unfolding forms list_ex_iff set_map by blast
  then show ?thesis using update_form_no_hit [OF _ _ assms(5)] assms(3) u by simp
qed

theorem second_save_refused_witness:
  "\<exists>w. isl (fst (update_form admin_env sample_site admin_request (Some sample_cookie) ''g'' ''f'' sample_update w))
     \<and> map fm_title (db_forms (w_db w)) = [''New'']"
proof -
  obtain reply w' where u: "update_form admin_env sample_site admin_request (Some sample_cookie) ''g'' ''f'' sample_update
    form_world = (Inr reply, w')" using sample_saved by blast
  obtain r w3 where second: "update_form admin_env sample_site admin_request (Some sample_cookie) ''g'' ''f'' sample_update w' = (r, w3)"
    by fastforce
  have "jobs_only (saved_db ''f'' ''g'' sample_update 0 (w_db form_world)) (w_db w')"
    using update_form_Inr [OF u] by (auto simp: sample_ids form_world_simps)
  then have "map fm_title (db_forms (w_db w')) = [''New'']"
    by (auto simp: jobs_only_def saved_db_def form_world_simps save_hits_def sample_ids sample_row saved_form_def sample_update_def)
  moreover have "isl r" using second_save_refused [OF u refl refl refl second] by blast
  ultimately show ?thesis using second by (metis fst_conv)
qed

text \<open>C15: deleting a form leaves the members of its links with their roles: the assignments stay, the
  re-sync it queues for a link finds no form and does nothing, and no member's sync examines the link.\<close>

theorem delete_form_leaves_members:
  assumes "delete_form E S rq cookie g i w = (Inr v, w1)" and "l \<in> set (db_role_links (w_db w))" and "rl_form_id l = Some i"
    and "db_ok (w_db w)" and "w_db w2 = w_db w1"
  shows "assigned_ids (rl_guild_id l) (rl_role_id l) (w_db w1) = assigned_ids (rl_guild_id l) (rl_role_id l) (w_db w)
     \<and> w_db (snd (sync_for_role_link E' C (rl_guild_id l) (rl_role_id l) w2)) = w_db w1
     \<and> w_sent (snd (sync_for_role_link E' C (rl_guild_id l) (rl_role_id l) w2)) = w_sent w2
     \<and> (rl_guild_id l, rl_role_id l) \<notin> link_key ` set (candidate_links guilds (w_db w1))"
  by (rule delete_form_leaves_members_at [OF assms])

theorem delete_form_leaves_members_witness:
  "\<exists>w. assigned_ids ''g'' ''r'' (w_db w) = [''ann''] \<and> db_forms (w_db w) = []
     \<and> w_db (snd (sync_for_role_link admin_env sample_sync_config ''g'' ''r'' w)) = w_db w"
proof -
  obtain w' where d: "delete_form admin_env sample_site admin_request (Some sample_cookie) ''g'' ''f'' bound_world = (Inr success, w')"
    using sample_deleted by blast
  define l where "l = hd (db_role_links (w_db bound_world))"
  have l: "l \<in> set (db_role_links (w_db bound_world))" "rl_form_id l = Some ''f''" "rl_guild_id l = ''g''" "rl_role_id l = ''r''"
    and ok: "db_ok (w_db bound_world)"
    by (simp_all add: l_def bound_world_def form_world_simps db_ok_def assignment_link_def link_key_def empty_db_def)
  have "assigned_ids ''g'' ''r'' (w_db bound_world) = [''ann'']"
    by (simp add: assigned_ids_def bound_world_def assignment_link_def)
  moreover have "db_forms (w_db w') = []"
    using delete_form_Inr [OF d] by (auto simp: jobs_only_def deleted_db_def drop_form_def drop_responses_def unbind_links_def
        bound_world_def form_world_simps sample_ids sample_row empty_db_def)
  ultimately show ?thesis
    using delete_form_leaves_members [OF d l(1,2) ok refl, of admin_env sample_sync_config] l(3,4) by auto
qed

end
