(* ===== verification/RuleBuilder.thy ===== *)
theory RuleBuilder
  imports Tenancy
begin

text \<open>
  The rule builder: who may save a link's configuration, what a save stores, which operators the
  catalogue offers against those the validator accepts, and what a registration gives.
\<close>

subsection \<open>Who may save\<close>

definition may_configure :: "env \<Rightarrow> site \<Rightarrow> world \<Rightarrow> request \<Rightarrow> str option \<Rightarrow> str \<Rightarrow> str \<Rightarrow> bool" where
  "may_configure E S w rq cookie g r \<longleftrightarrow>
     (case extract_bearer rq of
        Some bearer \<Rightarrow> (\<exists>s. iframe_session_of S (w_now w) bearer = Some s \<and> is_guild_id s = g \<and> is_role_id s = r
          \<and> \<not> is_read_only s)
      | None \<Rightarrow> verify_origin rq (st_origins S) = Inr () \<and> (\<exists>caller. is_live_manager E S w cookie g caller))"

lemma role_config_access_Inr:
  assumes "require_role_config_access E S rq cookie g r w = (Inr a, w')"
  shows "(\<exists>bearer s. extract_bearer rq = Some bearer \<and> iframe_session_of S (w_now w) bearer = Some s \<and> is_guild_id s = g
       \<and> is_role_id s = r \<and> is_read_only s = rca_read_only a)
     \<or> (extract_bearer rq = None \<and> (\<exists>caller. is_live_manager E S w cookie g caller))"
  using assms require_manager_Inr
  by (fastforce simp: require_role_config_access_def act_Inr ok_or_Inr_iff split: option.splits)

lemma role_config_save_guarded:
  assumes "role_config_save E S rq cookie g r body w = (res, w')" and "w_db w' \<noteq> w_db w \<or> \<not> isl res"
  shows "may_configure E S w rq cookie g r"
proof -
  let ?origin = "if extract_bearer rq = None then act_result (verify_origin rq (st_origins S)) else act_ok ()"
  have ro: "reads_only ?origin" by simp
  obtain k where k: "role_config_save E S rq cookie g r body = act_bind ?origin (\<lambda>_.
      act_bind (require_role_config_access E S rq cookie g r) (\<lambda>access.
      act_bind (act_require (\<not> rca_read_only access) (EForbidden ''This configuration is read-only while impersonating a user.'')) k))"
    unfolding role_config_save_def by blast
  from guarded_change [OF assms(1) [unfolded k] ro assms(2)] obtain x where o: "?origin w = (Inr x, w)"
    by (auto simp: act_result_def split: if_splits)
  let ?rest = "act_bind (require_role_config_access E S rq cookie g r) (\<lambda>access.
      act_bind (act_require (\<not> rca_read_only access) (EForbidden ''This configuration is read-only while impersonating a user.'')) k)"
  have rest: "?rest w = (res, w')" using assms(1) [unfolded k] o by (simp add: act_bind_run)
  from guarded_change [OF rest require_role_config_access_reads assms(2)] obtain a w1 where
    a: "require_role_config_access E S rq cookie g r w = (Inr a, w1)" by blast
  have "w_db w1 = w_db w" using reads_onlyD [OF require_role_config_access_reads a] by simp
  then have "\<not> rca_read_only a" using rest a assms(2) by (auto simp: act_bind_def act_require_def split: if_splits)
  then show ?thesis using role_config_access_Inr [OF a] o by (auto simp: may_configure_def act_result_def split: if_splits)
qed

subsection \<open>What a save stores\<close>

definition configured_db :: "str \<Rightarrow> str \<Rightarrow> parsed_config \<Rightarrow> db \<Rightarrow> db" where
  "configured_db g r p d = (case pc_view_permission p of
       Some vp \<Rightarrow> upsert_settings g vp (configure_link g r p d) | None \<Rightarrow> configure_link g r p d)"

lemma chosen_form_reads [intro]: "reads_only (chosen_form E S g fid)"
  unfolding chosen_form_def Let_def by (auto intro!: reads_only_bind)

lemma best_effort_enqueue_jobs: "best_effort (enqueue_config_sync E g r) w = (res, w') \<Longrightarrow> jobs_only (w_db w) (w_db w')"
  by (rule jobs_only_after [where m = "best_effort (enqueue_config_sync E g r)"])
    (auto intro!: keeps_best_effort keeps_jobs_only_on_jobs simp: enqueue_config_sync_def)

lemma role_config_save_Inr:
  assumes "role_config_save E S rq cookie g r body w = (Inr v, w')"
  shows "\<exists>bound is_quiz p. parse_role_config (e_crates E) body bound is_quiz = Inr p \<and> find_link g r (w_db w) \<noteq> None
     \<and> (\<exists>w0 w1. w_db w0 = w_db w \<and> chosen_form E S g (rb_form_id body) w0 = (Inr (bound, is_quiz), w1))
     \<and> jobs_only (configured_db g r p (w_db w)) (w_db w')"
proof -
  let ?origin = "if extract_bearer rq = None then act_result (verify_origin rq (st_origins S)) else act_ok ()"
  from assms obtain x0 w0 a w1 ex w3 bq w5 p x7 w7 x8 where
      o: "?origin w = (Inr x0, w0)" and ac: "require_role_config_access E S rq cookie g r w0 = (Inr a, w1)"
    and ex: "db_query E (\<lambda>d. find_link g r d \<noteq> None) w1 = (Inr ex, w3)" "ex"
    and ch: "chosen_form E S g (rb_form_id body) w3 = (Inr bq, w5)"
    and pa: "parse_role_config (e_crates E) body (fst bq) (snd bq) = Inr p"
    and st: "store_config E g r p w5 = (Inr x7, w7)"
    and en: "best_effort (enqueue_config_sync E g r) w7 = (Inr x8, w')"
    unfolding role_config_save_def
    by (auto simp only: act_bind_Inr act_result_Inr act_require_Inr act_ok_Inr split: prod.splits) (metis fst_conv snd_conv)
  have d0: "w_db w0 = w_db w" using o by (auto simp: act_result_def split: if_splits)
  have d1: "w_db w1 = w_db w" using reads_onlyD [OF require_role_config_access_reads ac] d0 by simp
  have d3: "w_db w3 = w_db w" and link: "find_link g r (w_db w) \<noteq> None" using ex d1 by (auto simp: query_done)
  have d5: "w_db w5 = w_db w" using reads_onlyD [OF chosen_form_reads ch] d3 by simp
  have "w_db w7 = configured_db g r p (w_db w5)"
    using transaction_Inr [OF st [unfolded store_config_def]]
    by (auto simp: act_Inr configured_db_def split: option.splits)
  then have "jobs_only (configured_db g r p (w_db w)) (w_db w')" using best_effort_enqueue_jobs [OF en] d5 by simp
  then show ?thesis using pa link ch d3 by (metis prod.collapse)
qed

lemma find_configured:
  assumes "find_link g r d = Some l"
  shows "find_link g r (configured_db g r p d) = Some (l\<lparr>rl_form_id := pc_form_id p, rl_grant_on_any := pc_grant_on_any p,
     rl_conditions := JArr (map condition_to_json (pc_conditions p))\<rparr>)"
proof -
  let ?h = "\<lambda>l. if link_key l = (g, r) then l\<lparr>rl_form_id := pc_form_id p, rl_grant_on_any := pc_grant_on_any p,
     rl_conditions := JArr (map condition_to_json (pc_conditions p))\<rparr> else l"
  have "find (\<lambda>l. link_key l = (g, r)) (map ?h ls) = map_option ?h (find (\<lambda>l. link_key l = (g, r)) ls)"
    for ls :: "role_link list" by (induction ls) auto
  moreover have "link_key l = (g, r)" using assms by (auto simp: find_link_def find_Some_iff link_key_def)
  ultimately show ?thesis
    using assms by (auto simp: configured_db_def configure_link_def upsert_settings_def find_link_def split: option.split)
qed

lemma chosen_form_Inr:
  assumes "chosen_form E S g fid w = (Inr (bound, is_quiz), w')"
  shows "if str_trim (unwrap_or fid []) = [] then bound = None \<and> \<not> is_quiz
    else \<exists>u f. st_parse_uuid S (str_trim (unwrap_or fid [])) = Some u \<and> find_form u g (w_db w) = Some f
      \<and> bound = form_schema_from_json (fm_schema f) \<and> is_quiz = fm_is_quiz f"
  using assms by (auto simp: chosen_form_def Let_def act_Inr ok_or_Inr_iff split: if_splits)

subsection \<open>The operators offered\<close>

text \<open>The catalogue describes every operator once.\<close>

lemma catalogue_lists_every_operator: "map fst operator_entries = enum_class.enum"
  by (simp add: operator_entries_def enum_condition_operator_def all_operators_def)

text \<open>The catalogue offers nothing the validator refuses for a list question or the quiz score, and leaves
  out operators it accepts: inequality of a list, and both equalities of the score.\<close>

lemma offered_for_lists: "set (offered ''multi_choice'') = set array_target_ops - {OpNeq}"
  by (auto simp: offered_def operator_entries_def eq_kinds_def text_kinds_def free_text_kinds_def array_kinds_def
      numeric_kinds_def date_kinds_def array_target_ops_def)

lemma offered_for_score: "set (offered ''__quiz_total_score__'') = set quiz_target_ops - {OpEq, OpNeq}"
  by (auto simp: offered_def operator_entries_def eq_kinds_def text_kinds_def free_text_kinds_def array_kinds_def
      numeric_kinds_def date_kinds_def quiz_target_ops_def)

subsection \<open>Registration\<close>

lemma register_run:
  assumes "no_faults E" and "extract_token rq = Inr token"
  shows "register E rq g r w = (Inr success, w\<lparr>w_tick := w_tick w + 2, w_db := default_settings g (upsert_link g r token (w_db w))\<rparr>)"
  using assms by (simp add: register_def act_bind_def act_result_def db_exec_def db_stmt_def Let_def no_faults_def)

lemma find_appended: "find P xs = None \<Longrightarrow> find P (xs @ ys) = find P ys"
  by (induction xs) (auto split: if_splits)

lemma find_upserted:
  "\<exists>l. find_link g r (default_settings g (upsert_link g r token d)) = Some l \<and> rl_api_token l = token
     \<and> (\<forall>l0. find_link g r d = Some l0 \<longrightarrow> l = l0\<lparr>rl_api_token := token\<rparr>)"
proof (cases "find_link g r d")
  case None
  let ?l = "\<lparr>rl_guild_id = g, rl_role_id = r, rl_api_token = token, rl_form_id = None, rl_grant_on_any = False,
    rl_conditions = JArr []\<rparr>"
  have "find_link g r (upsert_link g r token d) = find (\<lambda>l. link_key l = (g, r)) (db_role_links d @ [?l])"
    using None by (simp add: upsert_link_def find_link_def)
  also have "\<dots> = Some ?l"
    using find_appended [OF None [unfolded find_link_def], of "[?l]"] by (simp add: link_key_def)
  finally show ?thesis using None by (simp add: default_settings_def find_link_def)
next
  case (Some l)
  let ?h = "\<lambda>l. if link_key l = (g, r) then l\<lparr>rl_api_token := token\<rparr> else l"
  have "find (\<lambda>l. link_key l = (g, r)) (map ?h ls) = map_option ?h (find (\<lambda>l. link_key l = (g, r)) ls)"
    for ls :: "role_link list" by (induction ls) auto
  moreover have "link_key l = (g, r)" using Some by (auto simp: find_link_def find_Some_iff)
  ultimately show ?thesis using Some by (auto simp: default_settings_def upsert_link_def find_link_def)
qed

subsection \<open>Examples\<close>

definition editor_request :: request where
  "editor_request = sample_request ''POST''
     [(''authorization'', ''Bearer '' @ mint_iframe_session sample_crypto 0 ''ann'' ''g'' ''r'' False None ''k'')] None"

definition any_body :: role_config_body where
  "any_body = \<lparr>rb_form_id = Some '' f '', rb_mode = ''any_submission'', rb_conditions = [], rb_view_permission = None\<rparr>"

lemma sample_digits: "char_of (48::nat) = CHR ''0''" "char_of (51::nat) = CHR ''3''" "char_of (54::nat) = CHR ''6''"
  by code_simp+

lemma editor_token:
  "mint_iframe_session sample_crypto 0 ''ann'' ''g'' ''r'' False None ''k'' = ''ifs:ann:g:r:0::3600:k/0063::0:r:g:nna''"
proof -
  have "show_int 3600 = ''3600''" by (simp add: show_int_def show_nat.simps digit_char_def sample_digits)
  then show ?thesis
    by (simp add: mint_iframe_session_def iframe_ttl_secs_def iframe_prefix_def colon_join_def colon_def mac_hex_def
        sample_crypto_def Let_def)
qed

lemma editor_session:
  "extract_bearer editor_request = Some (mint_iframe_session sample_crypto 0 ''ann'' ''g'' ''r'' False None ''k'')"
  "iframe_session_of sample_site 0 (mint_iframe_session sample_crypto 0 ''ann'' ''g'' ''r'' False None ''k'')
     = Some \<lparr>is_discord_id = ''ann'', is_guild_id = ''g'', is_role_id = ''r'', is_read_only = False, is_actor_id = None\<rparr>"
proof -
  show "extract_bearer editor_request = Some (mint_iframe_session sample_crypto 0 ''ann'' ''g'' ''r'' False None ''k'')"
    unfolding editor_token editor_request_def
    by (simp add: extract_bearer_def header_str_def sample_request_def visible_ascii_def)
  show "iframe_session_of sample_site 0 (mint_iframe_session sample_crypto 0 ''ann'' ''g'' ''r'' False None ''k'')
     = Some \<lparr>is_discord_id = ''ann'', is_guild_id = ''g'', is_role_id = ''r'', is_read_only = False, is_actor_id = None\<rparr>"
    using minted_session_verifies [of "''ann''" "''g''" "''r''" 0 False sample_crypto 0 None "''k''"]
    by (simp add: iframe_session_of_def sample_site_def unix_secs_def colon_def in_i64_def)
qed

lemma any_body_parsed: "parse_role_config C any_body bound is_quiz = Inr \<lparr>pc_form_id = Some ''f'', pc_grant_on_any = True,
    pc_conditions = [], pc_view_permission = None\<rparr>"
proof -
  have "str_trim '' f '' = ''f''" "parse_mode ''any_submission'' = Inr True" "parse_view_permission None = Inr None" by code_simp+
  then show ?thesis by (simp add: parse_role_config_def any_body_def)
qed

lemma bound_world_simps: "w_now bound_world = 0"
  "w_db bound_world = empty_db\<lparr>db_forms := [sample_form_row], db_role_links := [\<lparr>rl_guild_id = ''g'', rl_role_id = ''r'',
      rl_api_token = ''t'', rl_form_id = Some ''f'', rl_grant_on_any = True, rl_conditions = JArr []\<rparr>],
     db_assignments := [\<lparr>ra_guild_id = ''g'', ra_role_id = ''r'', ra_discord_id = ''ann''\<rparr>]\<rparr>"
  by (simp_all add: bound_world_def form_world_simps)

lemma editor_access: "w_now w = 0 \<Longrightarrow> require_role_config_access admin_env sample_site editor_request None ''g'' ''r'' w
    = (Inr \<lparr>rca_discord_id = ''ann'', rca_read_only = False\<rparr>, w)"
  by (simp add: require_role_config_access_def editor_session act_bind_def act_now_def act_result_def act_require_def)

lemma editor_choice: "w_db w = w_db bound_world \<Longrightarrow> chosen_form admin_env sample_site ''g'' (rb_form_id any_body) w
    = (Inr (form_schema_from_json (fm_schema sample_form_row), False), w\<lparr>w_tick := w_tick w + 1\<rparr>)"
proof -
  assume w: "w_db w = w_db bound_world"
  have t: "str_trim '' f '' = ''f''" by code_simp
  have "find_form ''f'' ''g'' (w_db bound_world) = Some sample_form_row"
    by (simp add: bound_world_simps find_form_def sample_ids sample_row)
  moreover have "\<not> fm_is_quiz sample_form_row" by (simp add: sample_form_row_def)
  ultimately show ?thesis
    using w t by (simp add: chosen_form_def any_body_def act_bind_def act_result_def sample_ids db_query_def db_stmt_def
        Let_def admin_env_simps)
qed

lemma sample_configured: "\<exists>w'. role_config_save admin_env sample_site editor_request None ''g'' ''r'' any_body bound_world = (Inr success, w')"
proof -
  have "find_link ''g'' ''r'' (w_db bound_world) \<noteq> None" by (simp add: bound_world_simps find_link_def link_key_def)
  then show ?thesis
    unfolding role_config_save_def
    by (simp add: act_bind_def editor_session(1) editor_access bound_world_simps(1) act_require_def db_query_def db_stmt_def Let_def
        admin_env_simps editor_choice any_body_parsed act_result_def store_config_def db_transaction_def db_exec_def
        best_effort_def act_match_def enqueue_config_sync_def on_jobs_def)
qed

subsection \<open>Properties\<close>

text \<open>A link's configuration is changed, or its save succeeds, only for a live session of the rule page
  bound to this very link and not read-only, or, without a bearer, for a manager of the guild from an
  allowed origin.\<close>

lemma role_config_changes_authorised:
  assumes "role_config_save E S rq cookie g r body w = (res, w')" and "w_db w' \<noteq> w_db w \<or> \<not> isl res"
  shows "may_configure E S w rq cookie g r"
  by (rule role_config_save_guarded [OF assms])

text \<open>C14: a successful save leaves the link with a well-formed configuration for the chosen form, which is
  one of the guild's, and a sync reads exactly the saved conditions back; besides the link, the legacy
  permission and the queued re-sync nothing changed.\<close>

theorem role_config_save_stores:
  assumes "role_config_save E S rq cookie g r body w = (Inr v, w')"
  shows "\<exists>bound is_quiz p l. parse_role_config (e_crates E) body bound is_quiz = Inr p \<and> config_ok (e_crates E) bound is_quiz p
     \<and> find_link g r (w_db w') = Some l \<and> rl_form_id l = pc_form_id p \<and> rl_grant_on_any l = pc_grant_on_any p
     \<and> read_conditions (rl_conditions l) = pc_conditions p \<and> jobs_only (configured_db g r p (w_db w)) (w_db w')
     \<and> (case pc_form_id p of None \<Rightarrow> bound = None | Some i \<Rightarrow> \<exists>u f. st_parse_uuid S i = Some u
          \<and> find_form u g (w_db w) = Some f \<and> bound = form_schema_from_json (fm_schema f) \<and> is_quiz = fm_is_quiz f)"
proof -
  from role_config_save_Inr [OF assms] obtain bound is_quiz p l w0 w1 where
      p: "parse_role_config (e_crates E) body bound is_quiz = Inr p" and l: "find_link g r (w_db w) = Some l"
    and c: "w_db w0 = w_db w" "chosen_form E S g (rb_form_id body) w0 = (Inr (bound, is_quiz), w1)"
    and j: "jobs_only (configured_db g r p (w_db w)) (w_db w')" by auto
  have ok: "config_ok (e_crates E) bound is_quiz p" by (rule parse_role_config_config_ok [OF p])
  have "find_link g r (w_db w') = find_link g r (configured_db g r p (w_db w))"
    using j by (auto simp: jobs_only_def find_link_def)
  moreover have "read_conditions (JArr (map condition_to_json (pc_conditions p))) = pc_conditions p"
    using ok conditions_storable by (auto simp: read_conditions_def as_array_def config_ok_def)
  moreover have "pc_form_id p = (if str_trim (unwrap_or (rb_form_id body) []) = [] then None
      else Some (str_trim (unwrap_or (rb_form_id body) [])))"
    using p by (auto simp: parse_role_config_def Let_def try_bind_Inr_iff split: option.splits)
  ultimately show ?thesis
    using p ok j find_configured [OF l, of p] chosen_form_Inr [OF c(2)] c(1)
    by (intro exI [of _ bound] exI [of _ is_quiz] exI [of _ p] exI [of _ "l\<lparr>rl_form_id := pc_form_id p,
      rl_grant_on_any := pc_grant_on_any p, rl_conditions := JArr (map condition_to_json (pc_conditions p))\<rparr>"]) (auto split: if_splits)
qed

theorem role_config_save_stores_witness:
  "\<exists>(w :: world) l. find_link ''g'' ''r'' (w_db w) = Some l \<and> rl_form_id l = Some ''f'' \<and> read_conditions (rl_conditions l) = []"
proof -
  obtain w' where "role_config_save admin_env sample_site editor_request None ''g'' ''r'' any_body bound_world = (Inr success, w')"
    using sample_configured by blast
  from role_config_save_stores [OF this] show ?thesis by (auto simp: any_body_parsed)
qed

text \<open>Registering needs no credential of the link: any token registers itself for any link, an existing
  link keeps its configuration under the new token, and who signs a JWT with that token is admitted to
  the link's rule page with the identity of their choice.\<close>

lemma registration_takes_over:
  assumes "no_faults E" and "extract_token rq = Inr token"
  shows "\<exists>w1 l. register E rq g r w = (Inr success, w1) \<and> find_link g r (w_db w1) = Some l \<and> rl_api_token l = token
     \<and> (\<forall>l0. find_link g r (w_db w) = Some l0 \<longrightarrow> l = l0\<lparr>rl_api_token := token\<rparr>)
     \<and> (\<forall>jwt v. verify (st_crypto S) (unix_secs (w_now w)) jwt token (st_base_url S) = Inr v \<and> v_guild_id v = g \<and> v_role_id v = r
          \<longrightarrow> (\<exists>session. fst (verify_iframe_entry E S g r jwt w1) = Inr (session, v_read_only v)))"
proof -
  from find_upserted [of g r token "w_db w"] obtain l where
    up: "find_link g r (default_settings g (upsert_link g r token (w_db w))) = Some l \<and> rl_api_token l = token
      \<and> (\<forall>l0. find_link g r (w_db w) = Some l0 \<longrightarrow> l = l0\<lparr>rl_api_token := token\<rparr>)" by (rule exE)
  note l = up [THEN conjunct1] up [THEN conjunct2, THEN conjunct1] up [THEN conjunct2, THEN conjunct2]
  let ?w1 = "w\<lparr>w_tick := w_tick w + 2, w_db := default_settings g (upsert_link g r token (w_db w))\<rparr>"
  have entry: "\<exists>session. fst (verify_iframe_entry E S g r jwt ?w1) = Inr (session, v_read_only v)"
    if "verify (st_crypto S) (unix_secs (w_now w)) jwt token (st_base_url S) = Inr v" "v_guild_id v = g" "v_role_id v = r" for jwt v
    using that l(1,2) assms(1) by (simp add: verify_iframe_entry_def db_query_run)
  show ?thesis
  proof (intro exI [of _ ?w1] exI [of _ l] conjI allI impI)
    show "register E rq g r w = (Inr success, ?w1)" by (rule register_run [OF assms])
    show "find_link g r (w_db ?w1) = Some l" using l(1) by simp
    show "rl_api_token l = token" by (rule l(2))
    show "find_link g r (w_db w) = Some l0 \<Longrightarrow> l = l0\<lparr>rl_api_token := token\<rparr>" for l0 by (rule l(3) [rule_format])
    show "\<exists>session. fst (verify_iframe_entry E S g r jwt ?w1) = Inr (session, v_read_only v)"
      if "verify (st_crypto S) (unix_secs (w_now w)) jwt token (st_base_url S) = Inr v \<and> v_guild_id v = g \<and> v_role_id v = r" for jwt v
      by (rule entry [OF that [THEN conjunct1] that [THEN conjunct2, THEN conjunct1] that [THEN conjunct2, THEN conjunct2]])
  qed
qed

end
