(* ===== verification/Config.thy ===== *)
theory Config
  imports Site
begin

text \<open>
  \<open>config.rs\<close>: the settings read from the environment variables, and what \<open>main\<close> derives from
  them: the allowed origins, the number of workers and the state the handlers share. An unset
  required variable is the panic's text. A variable that is no text counts as unset.
\<close>

record db_pool_config =
  dp_max_connections :: nat
  dp_min_connections :: nat
  dp_acquire_timeout_secs :: nat
  dp_idle_timeout_secs :: nat

record app_config =
  ac_database_url :: str
  ac_session_secret :: str
  ac_base_url :: str
  ac_listen_addr :: str
  ac_auth_gateway_url :: str
  ac_internal_api_key :: str
  ac_rl_dashboard_origin :: "str option"
  ac_rolelogic_api_url :: str
  ac_dweeb_embed_origins :: "str list"
  ac_worker_concurrency :: nat
  ac_db_pool :: db_pool_config

type_synonym vars = "str \<Rightarrow> str option"

subsection \<open>Text\<close>

text \<open>\<open>s.find(pattern)\<close>, \<open>s.parse::<u32>()\<close>, and \<open>s.split([..])\<close> at any of some characters.\<close>

fun find_str :: "str \<Rightarrow> str \<Rightarrow> nat option" where
  "find_str p [] = (if p = [] then Some 0 else None)"
| "find_str p (c # s) = (if starts_with p (c # s) then Some 0 else map_option Suc (find_str p s))"

definition parse_u32 :: "str \<Rightarrow> nat option" where
  "parse_u32 s = (case parse_u64 s of None \<Rightarrow> None | Some n \<Rightarrow> if n < 2 ^ 32 then Some n else None)"

fun split_any :: "char list \<Rightarrow> str \<Rightarrow> str list" where
  "split_any cs [] = [[]]"
| "split_any cs (x # s) =
     (if x \<in> set cs then [] # split_any cs s
      else (case split_any cs s of [] \<Rightarrow> [[x]] | p # ps \<Rightarrow> (x # p) # ps))"

subsection \<open>Reading the environment\<close>

definition derive_origin :: "str \<Rightarrow> str" where
  "derive_origin base_url =
     (case find_str ''://'' base_url of
        None \<Rightarrow> base_url
      | Some scheme_end \<Rightarrow>
          (case find_str ''/'' (drop (scheme_end + 3) base_url) of
             None \<Rightarrow> base_url
           | Some path_slash \<Rightarrow> take (scheme_end + 3 + path_slash) base_url))"

definition trim_slashes :: "str \<Rightarrow> str" where "trim_slashes s = trim_end_matches slash s"

text \<open>A trimmed origin; an empty one counts as unset.\<close>

definition origin_var :: "str option \<Rightarrow> str option" where
  "origin_var v = (case v of
       None \<Rightarrow> None
     | Some s \<Rightarrow> (let t = trim_slashes (str_trim s) in if t = [] then None else Some t))"

definition number_var :: "(str \<Rightarrow> nat option) \<Rightarrow> str option \<Rightarrow> nat \<Rightarrow> nat" where
  "number_var parse v fallback = unwrap_or (Option.bind v parse) fallback"

definition embed_origins :: "str option \<Rightarrow> str list" where
  "embed_origins v =
     (let raw = (case v of Some s \<Rightarrow> if str_trim s = [] then ''https://dweeb.faizo.net'' else s
                 | None \<Rightarrow> ''https://dweeb.faizo.net'')
      in filter (\<lambda>s. s \<noteq> []) (map (\<lambda>s. trim_slashes (str_trim s)) (split_any [CHR 0x20, CHR '',''] raw)))"

definition db_pool_from_env :: "vars \<Rightarrow> db_pool_config" where
  "db_pool_from_env var =
     \<lparr>dp_max_connections = number_var parse_u32 (var ''DB_MAX_CONNECTIONS'') 10,
      dp_min_connections = number_var parse_u32 (var ''DB_MIN_CONNECTIONS'') 2,
      dp_acquire_timeout_secs = number_var parse_u64 (var ''DB_ACQUIRE_TIMEOUT_SECS'') 5,
      dp_idle_timeout_secs = number_var parse_u64 (var ''DB_IDLE_TIMEOUT_SECS'') 600\<rparr>"

definition required :: "vars \<Rightarrow> str \<Rightarrow> str \<Rightarrow> (str, str) result" where
  "required var name note = ok_or (var name) (name @ '' must be set'' @ note)"

definition from_env :: "vars \<Rightarrow> (str, app_config) result" where
  "from_env var =
     try_bind (required var ''BASE_URL'' []) (\<lambda>base_url.
     let auth_gateway_url = (case var ''AUTH_GATEWAY_URL'' of
           Some s \<Rightarrow> trim_slashes s | None \<Rightarrow> derive_origin base_url) in
     try_bind (required var ''DATABASE_URL'' []) (\<lambda>database_url.
     try_bind (required var ''SESSION_SECRET'' []) (\<lambda>session_secret.
     try_bind (required var ''INTERNAL_API_KEY''
         ('' (must match the Auth Gateway'' @ CHR 0x27 # ''s value)'')) (\<lambda>internal_api_key.
     Inr \<lparr>ac_database_url = database_url, ac_session_secret = session_secret, ac_base_url = base_url,
          ac_listen_addr = unwrap_or (var ''LISTEN_ADDR'') ''0.0.0.0:8089'',
          ac_auth_gateway_url = auth_gateway_url, ac_internal_api_key = internal_api_key,
          ac_rl_dashboard_origin = Some (unwrap_or (origin_var (var ''RL_DASHBOARD_ORIGIN''))
            ''https://rolelogic.faizo.net''),
          ac_rolelogic_api_url = unwrap_or (origin_var (var ''ROLELOGIC_API_URL''))
            ''https://api-rolelogic.faizo.net'',
          ac_dweeb_embed_origins = embed_origins (var ''DWEEB_EMBED_ORIGINS''),
          ac_worker_concurrency = number_var parse_u32 (var ''WORKER_CONCURRENCY'') 4,
          ac_db_pool = db_pool_from_env var\<rparr>))))"

subsection \<open>What \<open>main\<close> derives\<close>

definition allowed_origins :: "app_config \<Rightarrow> str list" where
  "allowed_origins c = derive_origin (ac_base_url c)
     # (case ac_rl_dashboard_origin c of Some dash \<Rightarrow> [dash] | None \<Rightarrow> [])"

text \<open>The names of the workers that are spawned: at least one.\<close>

definition worker_ids :: "app_config \<Rightarrow> str list" where
  "worker_ids c = map (\<lambda>i. ''job-worker-'' @ show_nat i) [0..<max 1 (ac_worker_concurrency c)]"

text \<open>The shared state: the settings and, of \<open>libs\<close>, the functions of libraries.\<close>

definition app_state :: "app_config \<Rightarrow> site \<Rightarrow> site" where
  "app_state c libs = libs\<lparr>st_base_url := ac_base_url c, st_secret := ac_session_secret c,
     st_origins := allowed_origins c, st_dashboard := ac_rl_dashboard_origin c,
     st_config := \<lparr>sc_rolelogic = ac_rolelogic_api_url c, sc_gateway = ac_auth_gateway_url c,
                   sc_internal_key = ac_internal_api_key c\<rparr>\<rparr>"

subsection \<open>Origins\<close>

lemma find_str_Some: "find_str p s = Some i \<Longrightarrow> \<exists>a b. s = a @ p @ b \<and> length a = i"
proof (induction s arbitrary: i)
  case Nil
  then show ?case by (auto split: if_splits)
next
  case (Cons c s)
  show ?case
  proof (cases "starts_with p (c # s)")
    case True
    then show ?thesis using Cons.prems by (auto simp: starts_with_iff)
  next
    case False
    then obtain j where "find_str p s = Some j" "i = Suc j" using Cons.prems by auto
    then show ?thesis using Cons.IH [of j] by (metis append_Cons length_Cons)
  qed
qed

lemma find_str_None: "find_str p s = None \<longleftrightarrow> \<not> str_contains p s"
  by (induction s) auto

lemma find_char: "find_str [c] s = Some i \<Longrightarrow> c \<notin> set (take i s) \<and> i < length s \<and> s ! i = c"
proof (induction s arbitrary: i)
  case (Cons x s)
  then show ?case by (auto simp: starts_with_def split: if_splits option.splits)
qed simp

lemma find_char_None: "find_str [c] s = None \<longleftrightarrow> c \<notin> set s"
  by (induction s) (auto simp: starts_with_def)

text \<open>The origin is the URL's text up to the first slash after the scheme.\<close>

lemma derive_origin_cases:
  obtains (opaque) "\<not> str_contains ''://'' u" "derive_origin u = u"
  | (bare) scheme host where "u = scheme @ ''://'' @ host" "find_str ''://'' u = Some (length scheme)"
      "slash \<notin> set host" "derive_origin u = u"
  | (path) scheme host rest where "u = scheme @ ''://'' @ host @ slash # rest" "find_str ''://'' u = Some (length scheme)"
      "slash \<notin> set host" "derive_origin u = scheme @ ''://'' @ host"
proof (cases "find_str ''://'' u")
  case None
  then have "\<not> str_contains ''://'' u" "derive_origin u = u" by (simp_all add: derive_origin_def flip: find_str_None)
  then show thesis by (rule opaque)
next
  case (Some i)
  then obtain scheme after where u: "u = scheme @ ''://'' @ after" "length scheme = i"
    using find_str_Some by blast
  then have d: "drop (i + 3) u = after" by simp
  show thesis
  proof (cases "find_str ''/'' after")
    case None
    then have "derive_origin u = u" using Some d by (simp add: derive_origin_def)
    then show thesis using bare [of scheme after] u Some None by (simp add: find_char_None slash_def)
  next
    case j: (Some j)
    have f: "slash \<notin> set (take j after)" "after ! j = slash" "j < length after"
      using find_char [OF j] by (simp_all add: slash_def)
    then have after: "after = take j after @ slash # drop (Suc j) after" by (metis id_take_nth_drop)
    have "derive_origin u = take (i + 3 + j) u" using Some d j by (simp add: derive_origin_def)
    also have "\<dots> = scheme @ ''://'' @ take j after" using u by (simp add: eval_nat_numeral)
    finally show thesis using path [of scheme "take j after" "drop (Suc j) after"] u Some f after by simp
  qed
qed

lemma derive_origin_prefix: "\<exists>path. u = derive_origin u @ path"
  by (cases u rule: derive_origin_cases) auto

lemma derive_origin_path: "u = derive_origin u @ path \<Longrightarrow> path = [] \<or> hd path = slash"
  by (cases u rule: derive_origin_cases) auto

text \<open>The plugin's path prefix, and the URL put together again.\<close>

lemma derive_origin_strip: "\<exists>path. strip_prefix (derive_origin u) u = Some path \<and> derive_origin u @ path = u"
  using derive_origin_prefix [of u] strip_prefix_Some_iff by metis

subsection \<open>Well-formed settings\<close>

lemma trim_slashes_end: "trim_slashes s = [] \<or> last (trim_slashes s) \<noteq> slash"
proof -
  have "dropWhile (\<lambda>x. x = slash) (rev s) = [] \<or> hd (dropWhile (\<lambda>x. x = slash) (rev s)) \<noteq> slash"
    using hd_dropWhile by blast
  then show ?thesis by (auto simp: trim_slashes_def trim_end_matches_def last_rev)
qed

lemma set_trim_slashes: "set (trim_slashes s) \<subseteq> set s"
  by (auto simp: trim_slashes_def trim_end_matches_def dest: set_dropWhileD)

lemma split_any_free: "\<forall>p \<in> set (split_any cs s). set p \<inter> set cs = {}"
  by (induction cs s rule: split_any.induct) (auto split: list.split)

lemma split_any_join:
  assumes "\<And>p. p \<in> set ps \<Longrightarrow> c \<notin> set p" and "ps \<noteq> []"
  shows "split_any [c] (str_join [c] ps) = ps"
proof -
  have one: "split_any [c] (p @ c # s) = p # split_any [c] s" if "c \<notin> set p" for p s
    using that by (induction p) auto
  have last: "split_any [c] p = [p]" if "c \<notin> set p" for p
    using that by (induction p) auto
  show ?thesis
    using assms by (induction "[c]" ps rule: str_join.induct) (auto simp: one last)
qed

definition clean_origin :: "str \<Rightarrow> bool" where
  "clean_origin s \<longleftrightarrow> s \<noteq> [] \<and> last s \<noteq> slash"

lemma origin_var_clean: "origin_var v = Some s \<Longrightarrow> clean_origin s"
  using trim_slashes_end by (auto simp: origin_var_def clean_origin_def Let_def split: option.splits if_splits)

lemma embed_origins_clean:
  assumes "s \<in> set (embed_origins v)"
  shows "clean_origin s \<and> CHR 0x20 \<notin> set s \<and> CHR '','' \<notin> set s"
proof -
  obtain raw p where p: "p \<in> set (split_any [CHR 0x20, CHR '',''] raw)" "s = trim_slashes (str_trim p)" "s \<noteq> []"
    using assms by (auto simp: embed_origins_def Let_def)
  have "set p \<inter> {CHR 0x20, CHR '',''} = {}" using split_any_free p(1) by fastforce
  moreover have "set s \<subseteq> set p" using set_trim_slashes str_trim_set p(2) by fast
  ultimately show ?thesis using p trim_slashes_end by (auto simp: clean_origin_def)
qed

lemma from_env_Inr:
  "from_env var = Inr c \<Longrightarrow> var ''BASE_URL'' = Some (ac_base_url c) \<and> var ''SESSION_SECRET'' = Some (ac_session_secret c)
     \<and> ac_rl_dashboard_origin c = Some (unwrap_or (origin_var (var ''RL_DASHBOARD_ORIGIN'')) ''https://rolelogic.faizo.net'')
     \<and> ac_rolelogic_api_url c = unwrap_or (origin_var (var ''ROLELOGIC_API_URL'')) ''https://api-rolelogic.faizo.net''
     \<and> ac_dweeb_embed_origins c = embed_origins (var ''DWEEB_EMBED_ORIGINS'')"
  by (auto simp: from_env_def try_bind_Inr_iff required_def ok_or_Inr_iff Let_def)

text \<open>The server starts exactly when the four required variables are set.\<close>

lemma from_env_starts:
  "(\<exists>c. from_env var = Inr c) \<longleftrightarrow> (\<forall>v \<in> {''BASE_URL'', ''DATABASE_URL'', ''SESSION_SECRET'', ''INTERNAL_API_KEY''}. var v \<noteq> None)"
  by (auto simp: from_env_def try_bind_Inr_iff required_def ok_or_Inr_iff Let_def)

lemma show_nat_eq_iff [simp]: "show_nat m = show_nat n \<longleftrightarrow> m = n"
  by (metis digits_value_show_nat)

lemma worker_ids_distinct: "worker_ids c \<noteq> []" "distinct (worker_ids c)"
  by (auto simp: worker_ids_def distinct_map inj_on_def)

subsection \<open>Properties\<close>

lemma clean_dashboard: "from_env var = Inr c \<Longrightarrow> ac_rl_dashboard_origin c = Some d \<Longrightarrow> clean_origin d"
  by (drule from_env_Inr)
    (cases "origin_var (var ''RL_DASHBOARD_ORIGIN'')", auto simp: origin_var_clean, simp add: clean_origin_def slash_def)

lemma trim_clean: "clean_origin s \<Longrightarrow> trim_end_matches slash s = s"
  by (cases s rule: rev_cases) (simp_all add: clean_origin_def trim_end_matches_def)

text \<open>Whatever the environment, a server that starts runs at least one worker, its workers have different
  names, the framing policy of the picker page lists exactly the configured origins, and a
  state-changing request passes the origin check exactly when its Origin is, up to slashes at its
  end, the plugin's own origin or the dashboard's.\<close>

lemma started_server_origins:
  assumes "from_env var = Inr c"
  shows "worker_ids c \<noteq> [] \<and> distinct (worker_ids c)
    \<and> (ac_dweeb_embed_origins c \<noteq> [] \<longrightarrow>
        split_any [CHR 0x20] (str_join [CHR 0x20] (ac_dweeb_embed_origins c)) = ac_dweeb_embed_origins c)
    \<and> (\<exists>d. ac_rl_dashboard_origin c = Some d \<and> clean_origin d
        \<and> (verify_origin rq (st_origins (app_state c libs)) = Inr () \<longleftrightarrow>
            (\<exists>origin. header_str rq ''origin'' = Some origin
               \<and> (trim_slashes origin = d \<or> trim_slashes origin = trim_slashes (derive_origin (ac_base_url c))))))"
proof -
  obtain d where d: "ac_rl_dashboard_origin c = Some d" using from_env_Inr [OF assms] by blast
  then have clean: "clean_origin d" using clean_dashboard assms by blast
  have "verify_origin rq (st_origins (app_state c libs)) = Inr () \<longleftrightarrow>
      (\<exists>origin. header_str rq ''origin'' = Some origin
         \<and> (trim_slashes origin = d \<or> trim_slashes origin = trim_slashes (derive_origin (ac_base_url c))))"
    using d trim_clean [OF clean] by (auto simp: verify_origin_Inr app_state_def allowed_origins_def trim_slashes_def)
  moreover have "split_any [CHR 0x20] (str_join [CHR 0x20] (ac_dweeb_embed_origins c)) = ac_dweeb_embed_origins c"
    if "ac_dweeb_embed_origins c \<noteq> []"
    using that from_env_Inr [OF assms] embed_origins_clean by (intro split_any_join) auto
  ultimately show ?thesis using d clean worker_ids_distinct by blast
qed

definition sample_vars :: vars where
  "sample_vars = map_of [(''BASE_URL'', ''https://x.io/form''), (''DATABASE_URL'', ''pg''), (''SESSION_SECRET'', ''k''),
     (''INTERNAL_API_KEY'', ''i''), (''RL_DASHBOARD_ORIGIN'', ''https://d.io/''), (''WORKER_CONCURRENCY'', ''0''),
     (''DWEEB_EMBED_ORIGINS'', ''https://e.io, https://f.io'')]"

lemma sample_started: "\<exists>c. from_env sample_vars = Inr c"
  by (simp add: from_env_starts) (simp add: sample_vars_def)

lemma started_server_origins_sample:
  "\<exists>c. from_env sample_vars = Inr c \<and> worker_ids c \<noteq> [] \<and> distinct (worker_ids c)"
  using started_server_origins [where var = sample_vars] sample_started by blast

end
