(* ===== verification/Picker.thy ===== *)
theory Picker
  imports Config Tenancy
begin

text \<open>
  \<open>routes/dweeb.rs\<close>: the DWEEB integration. The public setup probe, the picker page, the bridge that
  hands a picker token to a confirmed manager, and the form list that token opens. Of a page the
  substituted values are kept. Third party: URL encoding and the templates, as in \<open>Site\<close>.
\<close>

definition is_snowflake :: "str \<Rightarrow> bool" where
  "is_snowflake s \<longleftrightarrow> 15 \<le> length s \<and> length s \<le> 25 \<and> list_all is_ascii_digit s"

text \<open>\<open>q.guild.as_deref().filter(is_snowflake)\<close>.\<close>

definition guild_query :: "str option \<Rightarrow> str option" where
  "guild_query guild = (case guild of Some g \<Rightarrow> if is_snowflake g then Some g else None | None \<Rightarrow> None)"

subsection \<open>The setup probe\<close>

definition probe_json :: "nat \<Rightarrow> str \<Rightarrow> json \<Rightarrow> response" where
  "probe_json status cache_control body =
     \<lparr>r_status = status,
      r_headers = [(''content-type'', ''application/json''), (''access-control-allow-origin'', ''*''),
        (''cache-control'', cache_control)],
      r_body = body\<rparr>"

definition role_count :: "str \<Rightarrow> db \<Rightarrow> nat" where
  "role_count guild d = length (filter (\<lambda>l. rl_guild_id l = guild) (db_role_links d))"

definition dweeb_status :: "env \<Rightarrow> str option \<Rightarrow> world \<Rightarrow> response \<times> world" where
  "dweeb_status E guild w =
     (case guild_query guild of
        None \<Rightarrow> (probe_json 400 ''no-store'' (JObj [(''error'', JStr ''guild must be a Discord server id'')]), w)
      | Some g \<Rightarrow> (case db_query E (role_count g) w of
            (Inl _, w') \<Rightarrow> (probe_json 500 ''no-store'' (JObj [(''error'', JStr ''temporarily unavailable'')]), w')
          | (Inr n, w') \<Rightarrow> (probe_json 200 ''public, max-age=60'' (JObj
               [(''configured'', JBool (n > 0)), (''guild_id'', JStr g), (''plugin'', JStr plugin_slug),
                (''role_count'', json_count n), (''schema_version'', JNum (PosInt 1))]), w')))"

subsection \<open>The picker page\<close>

datatype bridge_body =
    MissingGuild
  | WrongGuild str str  \<comment> \<open>escaped message, sign-in address\<close>
  | Granted str str str  \<comment> \<open>token, guild, the origin the token is posted to\<close>

datatype dweeb_body =
    PickerTemplate str
  | BridgeShell str bridge_body  \<comment> \<open>title, contents\<close>
  | EmptyBody

record dweeb_page =
  dp_status :: nat
  dp_headers :: "(str \<times> str) list"
  dp_body :: dweeb_body

definition picker_page :: "app_config \<Rightarrow> site \<Rightarrow> dweeb_page" where
  "picker_page c S =
     \<lparr>dp_status = 200,
      dp_headers = [(''content-type'', ''text/html; charset=utf-8''),
        (''content-security-policy'', ''frame-ancestors '' @ str_join [CHR 0x20] (ac_dweeb_embed_origins c)),
        (''cache-control'', ''public, max-age=300'')],
      dp_body = PickerTemplate (str_replace ''__BASE_URL__'' (st_base_url S) (st_template S ''dweeb_picker.html''))\<rparr>"

subsection \<open>The bridge\<close>

definition base_path :: "site \<Rightarrow> str" where
  "base_path S = unwrap_or (strip_prefix (derive_origin (st_base_url S)) (st_base_url S)) []"

definition bridge_path :: "site \<Rightarrow> str \<Rightarrow> str" where
  "bridge_path S guild = base_path S @ ''/dweeb/bridge?guild='' @ guild"

definition login_url :: "site \<Rightarrow> str \<Rightarrow> str" where
  "login_url S guild = derive_origin (st_base_url S) @ ''/auth/login?return_to='' @ st_url_encode S (bridge_path S guild)"

definition redirect_to_login :: "site \<Rightarrow> str \<Rightarrow> dweeb_page" where
  "redirect_to_login S guild = \<lparr>dp_status = 307, dp_headers = [(''location'', login_url S guild)], dp_body = EmptyBody\<rparr>"

definition bridge_html :: "nat \<Rightarrow> str \<Rightarrow> bridge_body \<Rightarrow> dweeb_page" where
  "bridge_html status title body =
     \<lparr>dp_status = status,
      dp_headers = [(''content-type'', ''text/html; charset=utf-8''), (''cache-control'', ''private, no-store'')],
      dp_body = BridgeShell title body\<rparr>"

definition bridge :: "env \<Rightarrow> site \<Rightarrow> str option \<Rightarrow> str option \<Rightarrow> world \<Rightarrow> dweeb_page \<times> world" where
  "bridge E S cookie guild w =
     (case guild_query guild of
        None \<Rightarrow> (bridge_html 400 (''Something'' @ CHR 0x27 # ''s missing'') MissingGuild, w)
      | Some g \<Rightarrow>
          (case Option.bind cookie (session_of S (w_now w)) of
             None \<Rightarrow> (redirect_to_login S g, w)
           | Some (discord_id, _) \<Rightarrow>
               (case check_manager E S (unwrap_or cookie []) g w of
                  (Inl err, w') \<Rightarrow>
                    (let msg = (case err of EForbidden m \<Rightarrow> m
                         | _ \<Rightarrow> ''Could not verify your permissions for this server. Try again.'')
                     in (bridge_html 403 (''Can'' @ CHR 0x27 # ''t use this server'')
                          (WrongGuild (escape_text msg) (login_url S g)), w'))
                | (Inr _, w') \<Rightarrow>
                    (bridge_html 200 ''Form picker'' (Granted
                       (mint_dweeb_session (st_crypto S) (unix_secs (w_now w')) discord_id g (st_secret S)) g
                       (derive_origin (st_base_url S))), w'))))"

subsection \<open>The form list\<close>

definition dweeb_bearer :: "request \<Rightarrow> str option" where
  "dweeb_bearer rq = map_option str_trim (extract_bearer rq)"

text \<open>\<open>ORDER BY updated_at DESC LIMIT 200\<close>.\<close>

definition picker_forms :: "str \<Rightarrow> db \<Rightarrow> form_row list" where
  "picker_forms guild d = take 200 (sort_key (\<lambda>f. - fm_updated_at f)
     (filter (\<lambda>f. fm_guild_id f = guild \<and> \<not> fm_archived f) (db_forms d)))"

definition picker_item :: "site \<Rightarrow> db \<Rightarrow> form_row \<Rightarrow> json" where
  "picker_item S d f = JObj [(''is_quiz'', JBool (fm_is_quiz f)), (''response_count'', json_count (response_count (fm_id f) d)),
     (''slug'', JStr (fm_slug f)), (''title'', JStr (fm_title f)), (''updated_at'', JStr (st_show_time S (fm_updated_at f)))]"

definition dweeb_forms :: "env \<Rightarrow> site \<Rightarrow> request \<Rightarrow> str option \<Rightarrow> json act" where
  "dweeb_forms E S rq guild =
     act_bind (act_result (ok_or (guild_query guild) (EBadRequest ''guild must be a Discord server id''))) (\<lambda>g.
     act_bind (act_result (ok_or (dweeb_bearer rq)
         (EUnauthorizedWith (''Sign in with Discord to list this server'' @ CHR 0x27 # ''s forms.'')))) (\<lambda>bearer.
     act_bind act_now (\<lambda>now.
     act_bind (act_result (ok_or (verify_dweeb_session (st_crypto S) (unix_secs now) bearer (st_secret S))
         (EUnauthorizedWith ''Your picker session expired. Sign in again.''))) (\<lambda>s.
     act_bind (act_require (ds_guild_id s = g)
         (EForbidden (''This session doesn'' @ CHR 0x27 # ''t grant access to that server.''))) (\<lambda>_.
     act_bind (db_query E (\<lambda>d. map (picker_item S d) (picker_forms g d))) (\<lambda>items.
     act_ok (JObj [(''forms'', JArr items), (''guild_id'', JStr g)])))))))"

subsection \<open>Addresses\<close>

text \<open>The sign-in address leaves the plugin's own origin never, and returns to the plugin's path on it.\<close>

lemma bridge_path_url: "derive_origin (st_base_url S) @ bridge_path S guild = st_base_url S @ ''/dweeb/bridge?guild='' @ guild"
  using derive_origin_strip [of "st_base_url S"] by (auto simp: bridge_path_def base_path_def)

lemma snowflake_plain: "is_snowflake g \<Longrightarrow> colon \<notin> set g"
  by (auto simp: is_snowflake_def list_all_iff is_ascii_digit_def colon_def)

lemma guild_query_Some: "guild_query guild = Some g \<longleftrightarrow> guild = Some g \<and> is_snowflake g"
  by (auto simp: guild_query_def split: option.splits if_splits)

lemma session_caller_plain: "session_of S now c = Some (caller, name) \<Longrightarrow> colon \<notin> set caller"
  unfolding session_of_def by (drule cookie_signed) (auto simp: cookie_reads_def)

subsection \<open>The list\<close>

lemma picker_forms_exact:
  "set (picker_forms g d) \<subseteq> {f \<in> set (db_forms d). fm_guild_id f = g \<and> \<not> fm_archived f}"
  "length (picker_forms g d) \<le> 200"
  "sorted_wrt (\<lambda>f f'. fm_updated_at f \<ge> fm_updated_at f') (picker_forms g d)"
proof -
  have "sorted (map (\<lambda>f. - fm_updated_at f) (sort_key (\<lambda>f. - fm_updated_at f) xs))" for xs :: "form_row list"
    by simp
  then have "sorted_wrt (\<lambda>f f'. fm_updated_at f \<ge> fm_updated_at f') (sort_key (\<lambda>f. - fm_updated_at f) xs)" for xs :: "form_row list"
    by (simp add: sorted_wrt_map)
  then show "sorted_wrt (\<lambda>f f'. fm_updated_at f \<ge> fm_updated_at f') (picker_forms g d)"
    unfolding picker_forms_def by (rule sorted_wrt_take)
qed (auto simp: picker_forms_def dest: in_set_takeD)

text \<open>The list opens to a bearer whose session is for the asked guild, and to nothing else.\<close>

lemma dweeb_forms_Inr:
  "dweeb_forms E S rq guild w = (Inr v, w') \<longleftrightarrow>
     (\<exists>g bearer s. guild_query guild = Some g \<and> dweeb_bearer rq = Some bearer
        \<and> verify_dweeb_session (st_crypto S) (unix_secs (w_now w)) bearer (st_secret S) = Some s \<and> ds_guild_id s = g
        \<and> e_db_fault E (w_tick w) = None \<and> w' = w\<lparr>w_tick := w_tick w + 1\<rparr>
        \<and> v = JObj [(''forms'', JArr (map (picker_item S (w_db w)) (picker_forms g (w_db w)))), (''guild_id'', JStr g)])"
  by (auto simp: dweeb_forms_def act_Inr ok_or_Inr_iff)

lemma bridge_granted:
  assumes "bridge E S cookie guild w = (page, w1)" and "dp_body page = BridgeShell title (Granted token g origin)"
  shows "\<exists>caller. guild_query guild = Some g \<and> is_live_manager E S w cookie g caller \<and> colon \<notin> set caller
    \<and> token = mint_dweeb_session (st_crypto S) (unix_secs (w_now w)) caller g (st_secret S)
    \<and> origin = derive_origin (st_base_url S) \<and> w_db w1 = w_db w"
proof -
  obtain caller name c x where g: "guild_query guild = Some g" and c: "cookie = Some c"
    and s: "session_of S (w_now w) c = Some (caller, name)" and m: "check_manager E S c g w = (Inr x, w1)"
    and t: "token = mint_dweeb_session (st_crypto S) (unix_secs (w_now w1)) caller g (st_secret S)"
      "origin = derive_origin (st_base_url S)"
    using assms by (auto simp: bridge_def bridge_html_def redirect_to_login_def Let_def Option.bind_eq_Some_conv
        split: option.splits prod.splits sum.splits)
  have "w_db w1 = w_db w \<and> w_now w1 = w_now w" using reads_onlyD [OF check_manager_reads m] by simp
  moreover have "is_live_manager E S w cookie g caller"
    using c s check_manager_Inr [OF m] by (auto simp: is_live_manager_def)
  ultimately show ?thesis using g t session_caller_plain [OF s] by auto
qed

lemma minted_dweeb_verifies:
  assumes "colon \<notin> set d" "colon \<notin> set g" and "in_i64 (now + dweeb_ttl_secs)"
  shows "verify_dweeb_session K now' (mint_dweeb_session K now d g secret) secret =
    (if now' \<le> now + dweeb_ttl_secs then Some \<lparr>ds_discord_id = d, ds_guild_id = g\<rparr> else None)"
  using dweeb_accepts [OF minted_dweeb_reads [OF assms], of K now' secret]
  by (simp add: mint_dweeb_session_def Let_def del: colon_join_simps)

subsection \<open>Properties\<close>

text \<open>C16: The bridge hands a token out only for the guild of the address and only to a caller whose session cookie is
  valid and whom the gateway just confirmed as a manager of that guild. For twelve hours the token
  lists the forms of that guild that are not archived, the 200 edited last, and it opens no other guild's list.\<close>

theorem picker_handshake:
  assumes "bridge E S cookie guild w = (page, w1)" and "dp_body page = BridgeShell title (Granted token g origin)"
    and "in_i64 (unix_secs (w_now w) + dweeb_ttl_secs)"
  shows "\<exists>caller. guild = Some g \<and> is_snowflake g \<and> is_live_manager E S w cookie g caller
    \<and> origin = derive_origin (st_base_url S) \<and> w_db w1 = w_db w
    \<and> (\<forall>E' rq guild' w2 w3 v. dweeb_bearer rq = Some token \<longrightarrow>
        (dweeb_forms E' S rq guild' w2 = (Inr v, w3) \<longleftrightarrow>
          guild' = Some g \<and> unix_secs (w_now w2) \<le> unix_secs (w_now w) + 12 * 60 * 60
          \<and> e_db_fault E' (w_tick w2) = None \<and> w3 = w2\<lparr>w_tick := w_tick w2 + 1\<rparr>
          \<and> v = JObj [(''forms'', JArr (map (picker_item S (w_db w2)) (picker_forms g (w_db w2)))), (''guild_id'', JStr g)]))"
proof -
  obtain caller where c: "guild_query guild = Some g" "is_live_manager E S w cookie g caller" "colon \<notin> set caller"
    "token = mint_dweeb_session (st_crypto S) (unix_secs (w_now w)) caller g (st_secret S)"
    "origin = derive_origin (st_base_url S)" "w_db w1 = w_db w"
    using bridge_granted [OF assms(1,2)] by blast
  have g: "guild = Some g" "is_snowflake g" using c(1) by (simp_all add: guild_query_Some)
  have v: "verify_dweeb_session (st_crypto S) now' token (st_secret S) =
      (if now' \<le> unix_secs (w_now w) + 12 * 60 * 60 then Some \<lparr>ds_discord_id = caller, ds_guild_id = g\<rparr> else None)" for now'
    using minted_dweeb_verifies [OF c(3) snowflake_plain [OF g(2)] assms(3)] c(4) by (simp add: dweeb_ttl_secs_def)
  have "dweeb_forms E' S rq guild' w2 = (Inr v, w3) \<longleftrightarrow>
          guild' = Some g \<and> unix_secs (w_now w2) \<le> unix_secs (w_now w) + 12 * 60 * 60
          \<and> e_db_fault E' (w_tick w2) = None \<and> w3 = w2\<lparr>w_tick := w_tick w2 + 1\<rparr>
          \<and> v = JObj [(''forms'', JArr (map (picker_item S (w_db w2)) (picker_forms g (w_db w2)))), (''guild_id'', JStr g)]"
    if "dweeb_bearer rq = Some token" for E' rq guild' w2 w3 v
    using that g(2) by (auto simp: dweeb_forms_Inr v guild_query_Some split: if_splits)
  then show ?thesis using c g by blast
qed

definition sample_guild :: str where "sample_guild = ''123456789012345''"

lemma sample_guild_query: "guild_query (Some sample_guild) = Some sample_guild"
  by code_simp

lemma sample_bridge: "\<exists>token. fst (bridge admin_env sample_site (Some sample_cookie) (Some sample_guild) form_world) =
    bridge_html 200 ''Form picker'' (Granted token sample_guild (derive_origin (st_base_url sample_site)))"
  by (simp add: bridge_def sample_guild_query form_world_simps session_sample check_manager_def act_bind_def
      guild_permission_def http_send_def admin_env_simps is_success_def json_true_def as_bool_def act_require_def) (rule exI, rule refl)

theorem picker_handshake_witness:
  "\<exists>caller. is_live_manager admin_env sample_site form_world (Some sample_cookie) sample_guild caller"
proof -
  obtain page w1 where b: "bridge admin_env sample_site (Some sample_cookie) (Some sample_guild) form_world = (page, w1)"
    by fastforce
  then obtain token where p: "dp_body page = BridgeShell ''Form picker'' (Granted token sample_guild (derive_origin (st_base_url sample_site)))"
    using sample_bridge by (auto simp: bridge_html_def)
  have "in_i64 (unix_secs (w_now form_world) + dweeb_ttl_secs)"
    by (simp add: form_world_simps unix_secs_def dweeb_ttl_secs_def in_i64_def)
  from picker_handshake [OF b p this] show ?thesis by blast
qed

subsection \<open>The other way to a token\<close>

text \<open>C21: A session cookie with the prefix \<open>dws:\<close> is itself a picker token, because both are signed
  with one secret and the signature does not cover the prefix. Whoever is signed in under a display
  name that is the id of a guild is shown the forms of that guild, and the gateway is not asked
  whether they manage it.\<close>

theorem cookie_opens_form_list:
  assumes "verify_session (st_crypto S) (unix_secs (w_now w)) cookie (st_secret S) = Some (user, display_name)"
    and "splitn 4 colon cookie = [user, g, expires, signature]" and "is_snowflake g"
    and "dweeb_bearer rq = Some (''dws:'' @ cookie)" and "e_db_fault E (w_tick w) = None"
  shows "dweeb_forms E S rq (Some g) w =
    (Inr (JObj [(''forms'', JArr (map (picker_item S (w_db w)) (picker_forms g (w_db w)))), (''guild_id'', JStr g)]),
     w\<lparr>w_tick := w_tick w + 1\<rparr>)"
proof -
  have "verify_dweeb_session (st_crypto S) (unix_secs (w_now w)) (''dws:'' @ cookie) (st_secret S)
      = Some \<lparr>ds_discord_id = user, ds_guild_id = g\<rparr>"
    using assms(1,2) by (auto simp: verify_session_def verify_dweeb_session_def dweeb_prefix_def Let_def
        split: option.splits if_splits)
  then show ?thesis using assms(3-) by (simp add: dweeb_forms_Inr guild_query_Some)
qed

text \<open>A cookie of a member who calls himself by the id of a guild.\<close>

definition guild_named_cookie :: str where
  "guild_named_cookie = ''eve:123456789012345:9999:'' @ mac_hex sample_crypto ''k'' ''eve:123456789012345:9999''"

theorem cookie_opens_form_list_witness:
  "\<exists>v. dweeb_forms (sample_env (HttpReply 403 [])) sample_site
      (sample_request ''GET'' [(''authorization'', ''Bearer dws:'' @ guild_named_cookie)] None) (Some sample_guild) form_world
    = (Inr v, form_world\<lparr>w_tick := w_tick form_world + 1\<rparr>)"
proof -
  have c: "verify_session (st_crypto sample_site) (unix_secs 0) guild_named_cookie (st_secret sample_site) = Some (''eve'', sample_guild)"
    "splitn 4 colon guild_named_cookie = [''eve'', sample_guild, ''9999'', mac_hex sample_crypto ''k'' ''eve:123456789012345:9999'']"
    "is_snowflake sample_guild"
    "dweeb_bearer (sample_request ''GET'' [(''authorization'', ''Bearer dws:'' @ guild_named_cookie)] None) = Some (''dws:'' @ guild_named_cookie)"
    by code_simp+
  have w: "w_now form_world = 0" by (simp add: form_world_simps)
  show ?thesis
    using cookie_opens_form_list [where w = form_world and E = "sample_env (HttpReply 403 [])", OF c(1) [folded w] c(2-)] by (simp add: sample_env_def)
qed

end
