(* ===== verification/Respondents.thy ===== *)
theory Respondents
  imports Picker
begin

text \<open>
  \<open>routes/respondents.rs\<close>: who may see a guild's respondents, and the list. Text is ordered by its
  bytes. The page itself is a constant of the start; its markup is not represented.
\<close>

record text_page =
  tp_headers :: "(str \<times> str) list"
  tp_body :: str

text \<open>\<open>shell\<close> is the markup around the two occurrences of the base URL.\<close>

definition respondents_page :: "(str \<Rightarrow> str) \<Rightarrow> site \<Rightarrow> text_page" where
  "respondents_page shell S =
     \<lparr>tp_headers = [(''content-type'', ''text/html; charset=utf-8''), (''cache-control'', ''public, max-age=3600'')],
      tp_body = shell (st_base_url S)\<rparr>"

text \<open>The responses of forms a link of the guild is bound to.\<close>

definition guild_responses :: "str \<Rightarrow> db \<Rightarrow> response_row list" where
  "guild_responses guild_id d = filter (\<lambda>r. fr_discord_id r \<noteq> []
     \<and> list_ex (\<lambda>l. rl_guild_id l = guild_id \<and> rl_form_id l = Some (fr_form_id r)) (db_role_links d)) (db_responses d)"

text \<open>\<open>SELECT DISTINCT ON (discord_id) .. ORDER BY discord_id, last_edited_at DESC\<close>.\<close>

definition latest_by_member :: "response_row list \<Rightarrow> response_row list" where
  "latest_by_member rs = List.map_filter (\<lambda>u. newest (filter (\<lambda>r. fr_discord_id r = u) rs))
     (sort (remdups (map fr_discord_id rs)))"

definition respondent_rows :: "str \<Rightarrow> int \<Rightarrow> db \<Rightarrow> (db_error, response_row list) result" where
  "respondent_rows guild_id limit d =
     (if limit < 0 then Inl (DbReported (Some ''2201W'') None ''LIMIT must not be negative'')
      else Inr (take (nat limit) (latest_by_member (guild_responses guild_id d))))"

text \<open>The limit is capped above only.\<close>

lemma negative_limit_fails: "n < 0 \<Longrightarrow> isl (respondent_rows g (min n 2000) d)"
  by (simp add: respondent_rows_def)

definition respondent_json :: "site \<Rightarrow> response_row \<Rightarrow> json" where
  "respondent_json S r = JObj [(''discord_id'', JStr (fr_discord_id r)),
     (''last_edited_at'', JStr (st_show_time S (fr_last_edited_at r))),
     (''submitted_at'', JStr (st_show_time S (fr_submitted_at r)))]"

definition guild_name_of :: "env \<Rightarrow> site \<Rightarrow> str \<Rightarrow> str option act" where
  "guild_name_of E S guild_id = act_match
     (fetch_guild_name E (sc_gateway (st_config S)) (sc_internal_key (st_config S)) guild_id)
     act_ok (\<lambda>_. act_ok None)"

definition respondents_data :: "env \<Rightarrow> site \<Rightarrow> str option \<Rightarrow> str \<Rightarrow> int option \<Rightarrow> json act" where
  "respondents_data E S cookie guild_id limit =
     act_bind (require_session S cookie ''Sign in with Discord to view respondents.''
         ''Your session is invalid or expired. Sign in again.'') (\<lambda>(c, _).
     act_bind (db_query E (view_permission_of guild_id)) (\<lambda>view_permission.
     act_bind (guild_permission E S c guild_id) (\<lambda>perm.
     act_bind (act_require (json_true perm ''is_member'')
       (EForbidden (''You'' @ CHR 0x27 # ''re not a member of this server.''))) (\<lambda>_.
     act_bind (act_require (\<not> (view_permission = ''managers'' \<and> \<not> json_true perm ''is_manager''))
       (EForbidden ''Only server managers can view the respondent list for this server.'')) (\<lambda>_.
     act_bind (db_stmt E (\<lambda>d. case respondent_rows guild_id (min (unwrap_or limit 500) 2000) d of
         Inl e \<Rightarrow> Inl e | Inr rows \<Rightarrow> Inr (rows, d))) (\<lambda>rows.
     act_bind (guild_name_of E S guild_id) (\<lambda>name.
     act_ok (JObj [(''guild_id'', JStr guild_id), (''guild_name'', json_opt JStr name),
       (''respondents'', JArr (map (respondent_json S) rows))]))))))))"

subsection \<open>The rows\<close>

lemma newest_latest: "newest rs = Some r \<Longrightarrow> r \<in> set rs \<and> (\<forall>r' \<in> set rs. fr_last_edited_at r' \<le> fr_last_edited_at r)"
proof (induction rs arbitrary: r)
  case (Cons x rs)
  then show ?case using newest_None [of rs] by (cases "newest rs") (fastforce split: if_splits)+
qed simp

lemma latest_members: "map fr_discord_id (latest_by_member rs) = sort (remdups (map fr_discord_id rs))"
proof -
  have n: "\<exists>r. newest (filter (\<lambda>r. fr_discord_id r = u) rs) = Some r \<and> fr_discord_id r = u" if "u \<in> set (map fr_discord_id rs)" for u
  proof -
    have "filter (\<lambda>r. fr_discord_id r = u) rs \<noteq> []" using that by (auto simp: filter_empty_conv)
    then obtain r where r: "newest (filter (\<lambda>r. fr_discord_id r = u) rs) = Some r"
      using newest_None by fastforce
    then show ?thesis using newest_latest [OF r] by auto
  qed
  have "map fr_discord_id (List.map_filter (\<lambda>u. newest (filter (\<lambda>r. fr_discord_id r = u) rs)) us) = us"
    if "set us \<subseteq> set (map fr_discord_id rs)" for us
    using that
  proof (induction us)
    case (Cons u us)
    then show ?case using n [of u] by (auto simp: List.map_filter_simps)
  qed (simp add: List.map_filter_simps)
  then show ?thesis unfolding latest_by_member_def by (metis set_remdups set_sort subset_refl)
qed

lemma latest_row:
  assumes "r \<in> set (latest_by_member rs)"
  shows "r \<in> set rs \<and> (\<forall>r' \<in> set rs. fr_discord_id r' = fr_discord_id r \<longrightarrow> fr_last_edited_at r' \<le> fr_last_edited_at r)"
proof -
  obtain u where "newest (filter (\<lambda>r. fr_discord_id r = u) rs) = Some r"
    using assms by (auto simp: latest_by_member_def List.map_filter_def)
  from newest_latest [OF this] show ?thesis by auto
qed

lemma guild_name_reads [simp, intro]: "reads_only (guild_name_of E S g)"
  by (auto simp: reads_only_def guild_name_of_def act_match_def fetch_guild_name_def act_bind_def gateway_call_state
      split: prod.split sum.split) (metis gateway_call_state snd_conv le_add1)+

lemma respondent_query_reads [simp, intro]:
  "reads_only (db_stmt E (\<lambda>d. case respondent_rows g n d of Inl e \<Rightarrow> Inl e | Inr rows \<Rightarrow> Inr (rows, d)))"
  by (auto simp: reads_only_def db_stmt_def Let_def split: option.split sum.split)

lemma respondents_data_reads: "reads_only (respondents_data E S cookie g limit)"
  unfolding respondents_data_def by (auto intro!: reads_only_bind split: prod.split)

subsection \<open>Properties\<close>

text \<open>The gateway's answer for the caller's cookie says \<open>true\<close> to a question about the guild.\<close>

definition gateway_says :: "env \<Rightarrow> site \<Rightarrow> str \<Rightarrow> str \<Rightarrow> str \<Rightarrow> nat \<Rightarrow> bool" where
  "gateway_says E S question cookie_value guild_id t \<longleftrightarrow>
     (\<exists>st body perm. e_http E t (permission_request S cookie_value guild_id) = HttpReply st body \<and> is_success st
        \<and> e_parse_json E body = Some perm \<and> jget perm question = Some (JBool True))"

lemma guild_permission_Inr:
  assumes "guild_permission E S c g w = (Inr perm, w')" and "json_true perm k"
  shows "gateway_says E S k c g (w_tick w)"
  using assms
  by (auto simp: guild_permission_def http_send_def gateway_says_def json_true_iff ok_or_Inr_iff
      split: http_reply.splits if_splits)

lemma respondents_data_Inr:
  assumes "respondents_data E S cookie g limit w = (Inr v, w')"
  obtains c caller name rows t where "cookie = Some c" "session_of S (w_now w) c = Some (caller, name)"
    "gateway_says E S ''is_member'' c g t"
    "view_permission_of g (w_db w) = ''managers'' \<longrightarrow> gateway_says E S ''is_manager'' c g t"
    "respondent_rows g (min (unwrap_or limit 500) 2000) (w_db w) = Inr rows"
    "jget v ''respondents'' = Some (JArr (map (respondent_json S) rows))"
proof -
  obtain c caller name perm w2 d rows gn where
    s: "cookie = Some c" "session_of S (w_now w) c = Some (caller, name)"
    and p: "guild_permission E S c g (w\<lparr>w_tick := Suc (w_tick w)\<rparr>) = (Inr perm, w2)"
    and m: "json_true perm ''is_member''" "view_permission_of g (w_db w) = ''managers'' \<longrightarrow> json_true perm ''is_manager''"
    and r: "(case respondent_rows g (min (unwrap_or limit 500) 2000) (w_db w2) of Inl e \<Rightarrow> Inl e | Inr rows \<Rightarrow> Inr (rows, w_db w2))
        = Inr (rows, d)"
    and v: "v = JObj [(''guild_id'', JStr g), (''guild_name'', json_opt JStr gn),
       (''respondents'', JArr (map (respondent_json S) rows))]"
    using assms
    by (clarsimp simp: respondents_data_def require_session_def act_Inr ok_or_Inr_iff)
  have "w_db w2 = w_db w" using reads_onlyD [OF guild_permission_reads p] by simp
  then have "respondent_rows g (min (unwrap_or limit 500) 2000) (w_db w) = Inr rows"
    using r by (simp split: sum.splits)
  then show thesis
    by (rule that [rotated 4]) (use s m guild_permission_Inr [OF p] v in \<open>auto simp: jget_def\<close>)
qed

text \<open>C17: The respondents of a guild are shown only to a caller whose session is valid and whom the gateway just
  confirmed as a member of the guild, and unless the guild opened the list to members, as a manager.
  The list has at most 2000 rows, one for each of its members in order, and each is that member's
  last edited response to a form some link of this guild is bound to. Showing it changes nothing.\<close>

theorem respondents_guarded:
  assumes "respondents_data E S cookie g limit w = (Inr v, w')"
  shows "\<exists>c caller name t rows. cookie = Some c \<and> session_of S (w_now w) c = Some (caller, name)
    \<and> gateway_says E S ''is_member'' c g t
    \<and> (view_permission_of g (w_db w) = ''managers'' \<longrightarrow> gateway_says E S ''is_manager'' c g t)
    \<and> jget v ''respondents'' = Some (JArr (map (respondent_json S) rows))
    \<and> length rows \<le> 2000 \<and> sorted (map fr_discord_id rows) \<and> distinct (map fr_discord_id rows)
    \<and> (\<forall>r \<in> set rows. r \<in> set (guild_responses g (w_db w))
        \<and> (\<forall>r' \<in> set (guild_responses g (w_db w)). fr_discord_id r' = fr_discord_id r \<longrightarrow>
             fr_last_edited_at r' \<le> fr_last_edited_at r))
    \<and> w_db w' = w_db w"
proof -
  from assms obtain c caller name rows t where p: "cookie = Some c" "session_of S (w_now w) c = Some (caller, name)"
    "gateway_says E S ''is_member'' c g t"
    "view_permission_of g (w_db w) = ''managers'' \<longrightarrow> gateway_says E S ''is_manager'' c g t"
    and r: "respondent_rows g (min (unwrap_or limit 500) 2000) (w_db w) = Inr rows"
    and v: "jget v ''respondents'' = Some (JArr (map (respondent_json S) rows))"
    by (rule respondents_data_Inr)
  let ?all = "latest_by_member (guild_responses g (w_db w))"
  let ?n = "nat (min (unwrap_or limit 500) 2000)"
  have rows: "rows = take ?n ?all" using r by (auto simp: respondent_rows_def split: if_splits)
  have ids: "map fr_discord_id rows = take ?n (sort (remdups (map fr_discord_id (guild_responses g (w_db w)))))"
    by (simp add: rows latest_members flip: take_map)
  have "length rows \<le> 2000" using rows by simp
  moreover have "sorted (map fr_discord_id rows)" "distinct (map fr_discord_id rows)"
    by (simp_all add: ids sorted_wrt_take)
  moreover have "r \<in> set ?all" if "r \<in> set rows" for r using that rows by (auto dest: in_set_takeD)
  moreover have "w_db w' = w_db w" using reads_onlyD [OF respondents_data_reads assms] by simp
  ultimately show ?thesis using p v latest_row by blast
qed

definition member_env :: env where
  "member_env = (sample_env (HttpReply 200 ''m''))\<lparr>e_parse_json :=
     (\<lambda>s. Some (JObj [(''is_manager'', JBool True), (''is_member'', JBool True)]))\<rparr>"

lemma member_env_simps: "e_db_fault member_env t = None" "e_http member_env t rq = HttpReply 200 ''m''"
  "e_parse_json member_env b = Some (JObj [(''is_manager'', JBool True), (''is_member'', JBool True)])"
  by (simp_all add: member_env_def sample_env_def)

lemma sample_guild_name: "guild_name_of member_env S g w = (Inr None, w\<lparr>w_tick := w_tick w + 1,
    w_sent := w_sent w @ [gateway_request (sc_gateway (st_config S)) (sc_internal_key (st_config S)) ''guild_member_ids''
      [(''guild_id'', g)]]\<rparr>)"
  by (simp add: guild_name_of_def fetch_guild_name_def act_match_def act_bind_def gateway_call_def http_send_def
      member_env_simps is_success_def read_guild_name_def opt_def ok_or_def)

lemma sample_respondents:
  "\<exists>v w'. respondents_data member_env sample_site (Some sample_cookie) ''g'' None form_world = (Inr v, w')"
  by (simp add: respondents_data_def require_session_def act_bind_def act_result_def act_now_def act_require_def
      session_sample form_world_simps db_query_def db_stmt_def Let_def member_env_simps guild_permission_def http_send_def
      is_success_def json_true_def as_bool_def respondent_rows_def sample_guild_name)

theorem respondents_guarded_witness:
  "\<exists>t. gateway_says member_env sample_site ''is_member'' sample_cookie ''g'' t"
  using sample_respondents respondents_guarded [of member_env sample_site "Some sample_cookie" "''g''" None form_world]
  by blast

end
