(* ===== verification/Export.thy ===== *)
theory Export
  imports RoleApi
begin

text \<open>
  The CSV export against a reader of RFC 4180: what a spreadsheet reads back is the header and, for
  every response, the cells the code wrote.
\<close>

subsection \<open>A reader of RFC 4180\<close>

datatype csv_mode = Plain | Quoted | Closed

text \<open>The cell read so far is reversed, as are the cells of the row before it.\<close>

fun csv_read :: "csv_mode \<Rightarrow> str \<Rightarrow> str list \<Rightarrow> str \<Rightarrow> str list list" where
  "csv_read mode cell row [] = (if cell = [] \<and> row = [] then [] else [rev (rev cell # row)])"
| "csv_read Plain cell row (c # s) =
     (if c = quote \<and> cell = [] then csv_read Quoted [] row s
      else if c = comma then csv_read Plain [] (rev cell # row) s
      else if c = lf then rev (rev cell # row) # csv_read Plain [] [] s
      else csv_read Plain (c # cell) row s)"
| "csv_read Quoted cell row (c # s) =
     (if c = quote then csv_read Closed cell row s else csv_read Quoted (c # cell) row s)"
| "csv_read Closed cell row (c # s) =
     (if c = quote then csv_read Quoted (quote # cell) row s
      else if c = comma then csv_read Plain [] (rev cell # row) s
      else if c = lf then rev (rev cell # row) # csv_read Plain [] [] s
      else csv_read Plain (c # cell) row s)"

definition read_csv :: "str \<Rightarrow> str list list" where "read_csv = csv_read Plain [] []"

subsection \<open>One cell\<close>

lemma separators [simp]: "comma \<noteq> quote" "quote \<noteq> comma" "lf \<noteq> quote" "quote \<noteq> lf" "comma \<noteq> lf" "lf \<noteq> comma"
  by (simp_all add: comma_def quote_def lf_def)

lemma read_plain_chars:
  assumes "set s \<inter> {quote, comma, lf} = {}"
  shows "csv_read Plain cell row (s @ t) = csv_read Plain (rev s @ cell) row t"
  using assms by (induction s arbitrary: cell) auto

lemma read_quoted_chars:
  "csv_read Quoted cell row (replace_char quote [quote, quote] s @ quote # t) = csv_read Closed (rev s @ cell) row t"
  by (induction s arbitrary: cell) (auto simp: replace_char_def)

text \<open>An escaped cell and the separator that ends it.\<close>

lemma read_cell:
  assumes "sep = comma \<or> sep = lf"
  shows "csv_read Plain [] row (csv_escape s @ sep # t) =
    (if sep = comma then csv_read Plain [] (s # row) t else rev (s # row) # csv_read Plain [] [] t)"
proof (cases "comma \<in> set s \<or> quote \<in> set s \<or> lf \<in> set s \<or> CHR 0x0D \<in> set s")
  case True
  then have "csv_escape s @ sep # t = quote # replace_char quote [quote, quote] s @ quote # sep # t"
    by (simp add: csv_escape_def)
  then show ?thesis using assms by (auto simp: read_quoted_chars)
next
  case False
  then have "csv_escape s = s" "set s \<inter> {quote, comma, lf} = {}" by (auto simp: csv_escape_def)
  then show ?thesis using read_plain_chars [of s "[]" row "sep # t"] assms by auto
qed

subsection \<open>Rows\<close>

lemma read_cells:
  "cells \<noteq> [] \<Longrightarrow> csv_read Plain [] row (str_join [comma] (map csv_escape cells) @ lf # t)
     = rev (rev cells @ row) # csv_read Plain [] [] t"
proof (induction cells arbitrary: row)
  case (Cons c cells)
  show ?case
  proof (cases cells)
    case Nil
    then show ?thesis by (simp add: read_cell)
  next
    case (Cons d ds)
    then show ?thesis using Cons.IH [of "c # row"] by (simp add: read_cell)
  qed
qed simp

lemma read_rows: "list_all (\<lambda>r. r \<noteq> []) rows \<Longrightarrow> read_csv (concat (map csv_row rows)) = rows"
  unfolding read_csv_def
  by (induction rows) (simp_all add: csv_row_def read_cells)

subsection \<open>Properties\<close>

text \<open>C19: the export is read back exactly: the header row and one row per response with the cells of the
  answers, whatever commas, quotes or line breaks titles and answers contain.\<close>

theorem csv_roundtrip:
  "read_csv (csv_text E S is_quiz qs rows) = csv_header is_quiz qs # map (csv_cells E S is_quiz qs) rows"
proof -
  have "csv_text E S is_quiz qs rows = concat (map csv_row (csv_header is_quiz qs # map (csv_cells E S is_quiz qs) rows))"
    by (simp add: csv_text_def comp_def)
  moreover have "list_all (\<lambda>r. r \<noteq> []) (csv_header is_quiz qs # map (csv_cells E S is_quiz qs) rows)"
    by (simp add: csv_header_def csv_cells_def list_all_iff)
  ultimately show ?thesis by (simp only: read_rows)
qed

end
