(* ===== verification/Router.thy ===== *)
theory Router
  imports Bodies RuleBuilder Respondents Export Pages
begin

text \<open>
  \<open>main.rs\<close> and \<open>routes/health.rs\<close>: the table of routes, which endpoint a request reaches, the
  read-only guard in front of all of them and the whole of serving one request. Third party
  (\<open>framework\<close>): the value of the session cookie, the pairs of a query, the JSON of a body, chrono's
  reader of an instant and the milliseconds a statement took. A refusal of the framework itself is
  \<open>Rejected\<close>. The rate limiter, CORS, request ids, tracing and compression see no table and are left out.
\<close>

subsection \<open>The route table\<close>

datatype endpoint =
    PluginRegister | PluginGetConfig | PluginPostConfig | PluginDeleteConfig
  | GetForm | PostSubmit | GetDone | GetPreview
  | ListPage | ListData | CreateForm | SetViewPermission | BuilderPage | UpdateForm | DeleteForm | BuilderData
  | DuplicateForm | ResponsesPage | DeleteAllResponses | ResponsesData | DeleteResponse | ResponsesCsv
  | RoleConfigPage | RoleConfigSave | RoleConfigData
  | DweebStatus | DweebPicker | DweebBridge | DweebForms
  | RespondentsPage | RespondentsData
  | Favicon | Health | Ready

text \<open>All of them, in the order of the source, for the library's finite quantifiers.\<close>

definition all_endpoints :: "endpoint list" where
  "all_endpoints =
     [PluginRegister, PluginGetConfig, PluginPostConfig, PluginDeleteConfig, GetForm, PostSubmit,
      GetDone, GetPreview, ListPage, ListData, CreateForm, SetViewPermission, BuilderPage,
      UpdateForm, DeleteForm, BuilderData, DuplicateForm, ResponsesPage, DeleteAllResponses,
      ResponsesData, DeleteResponse, ResponsesCsv, RoleConfigPage, RoleConfigSave, RoleConfigData,
      DweebStatus, DweebPicker, DweebBridge, DweebForms, RespondentsPage, RespondentsData, Favicon,
      Health, Ready]"

lemma all_endpoints_UNIV: "set all_endpoints = UNIV"
proof (rule UNIV_eq_I [symmetric])
  fix x :: endpoint
  show "x \<in> set all_endpoints" by (cases x) (simp_all add: all_endpoints_def)
qed

instantiation endpoint :: enum
begin

definition enum_endpoint :: "endpoint list" where
  "enum_endpoint = all_endpoints"

definition enum_all_endpoint :: "(endpoint \<Rightarrow> bool) \<Rightarrow> bool" where
  "enum_all_endpoint P \<longleftrightarrow> list_all P all_endpoints"

definition enum_ex_endpoint :: "(endpoint \<Rightarrow> bool) \<Rightarrow> bool" where
  "enum_ex_endpoint P \<longleftrightarrow> list_ex P all_endpoints"

instance
proof
  show "(UNIV :: endpoint set) = set enum_class.enum" by (simp add: enum_endpoint_def all_endpoints_UNIV)
  show "distinct (enum_class.enum :: endpoint list)" by (simp add: enum_endpoint_def all_endpoints_def)
  show "enum_class.enum_all P \<longleftrightarrow> Ball UNIV P" for P :: "endpoint \<Rightarrow> bool"
    by (simp add: enum_all_endpoint_def list_all_iff all_endpoints_UNIV)
  show "enum_class.enum_ex P \<longleftrightarrow> Bex UNIV P" for P :: "endpoint \<Rightarrow> bool"
    by (simp add: enum_ex_endpoint_def list_ex_iff all_endpoints_UNIV)
qed

end

definition routes :: "(str \<times> str \<times> endpoint) list" where
  "routes =
     [(''POST'', ''/register'', PluginRegister), (''GET'', ''/config'', PluginGetConfig),
      (''POST'', ''/config'', PluginPostConfig), (''DELETE'', ''/config'', PluginDeleteConfig),
      (''GET'', ''/f/{slug}'', GetForm), (''POST'', ''/f/{slug}/submit'', PostSubmit),
      (''GET'', ''/f/{slug}/done'', GetDone), (''GET'', ''/f/{slug}/preview'', GetPreview),
      (''GET'', ''/admin/{guild_id}'', ListPage), (''GET'', ''/admin/{guild_id}/forms'', ListData),
      (''POST'', ''/admin/{guild_id}/forms'', CreateForm),
      (''POST'', ''/admin/{guild_id}/view-permission'', SetViewPermission),
      (''GET'', ''/admin/{guild_id}/forms/{form_id}'', BuilderPage),
      (''PUT'', ''/admin/{guild_id}/forms/{form_id}'', UpdateForm),
      (''DELETE'', ''/admin/{guild_id}/forms/{form_id}'', DeleteForm),
      (''GET'', ''/admin/{guild_id}/forms/{form_id}/edit'', BuilderData),
      (''POST'', ''/admin/{guild_id}/forms/{form_id}/duplicate'', DuplicateForm),
      (''GET'', ''/admin/{guild_id}/forms/{form_id}/responses'', ResponsesPage),
      (''DELETE'', ''/admin/{guild_id}/forms/{form_id}/responses'', DeleteAllResponses),
      (''GET'', ''/admin/{guild_id}/forms/{form_id}/responses/data'', ResponsesData),
      (''DELETE'', ''/admin/{guild_id}/forms/{form_id}/responses/{response_id}'', DeleteResponse),
      (''GET'', ''/admin/{guild_id}/forms/{form_id}/responses/csv'', ResponsesCsv),
      (''GET'', ''/admin/{guild_id}/role/{role_id}'', RoleConfigPage),
      (''POST'', ''/admin/{guild_id}/role/{role_id}'', RoleConfigSave),
      (''GET'', ''/admin/{guild_id}/role/{role_id}/data'', RoleConfigData),
      (''GET'', ''/dweeb/status'', DweebStatus), (''GET'', ''/dweeb/picker'', DweebPicker),
      (''GET'', ''/dweeb/bridge'', DweebBridge), (''GET'', ''/dweeb/forms'', DweebForms),
      (''GET'', ''/respondents/{guild_id}'', RespondentsPage), (''GET'', ''/respondents/{guild_id}/data'', RespondentsData),
      (''GET'', ''/favicon.ico'', Favicon), (''GET'', ''/health'', Health), (''GET'', ''/ready'', Ready)]"

text \<open>A pattern's segments: a literal or, as \<open>None\<close>, a parameter, which matches any segment but an empty one.\<close>

definition pattern_of :: "str \<Rightarrow> str option list" where
  "pattern_of p = map (\<lambda>s. if starts_with ''{'' s then None else Some s) (split_on slash (tl p))"

fun match_path :: "str option list \<Rightarrow> str list \<Rightarrow> str list option" where
  "match_path [] [] = Some []"
| "match_path (Some l # p) (s # ss) = (if l = s then match_path p ss else None)"
| "match_path (None # p) (s # ss) = (if s = [] then None else map_option ((#) s) (match_path p ss))"
| "match_path _ _ = None"

datatype target = NoRoute | WrongMethod | Endpoint endpoint "str list"

text \<open>Of the patterns that match, the one with a literal where they first differ; \<open>HEAD\<close> is served by \<open>GET\<close>.\<close>

definition matching :: "str list \<Rightarrow> (str \<times> str \<times> endpoint) list" where
  "matching segs = filter (\<lambda>(_, p, _). match_path (pattern_of p) segs \<noteq> None) routes"

definition best_pattern :: "(str \<times> str \<times> endpoint) list \<Rightarrow> str" where
  "best_pattern rs = hd (sort_key (\<lambda>p. map (\<lambda>s. s = None) (pattern_of p)) (map (fst \<circ> snd) rs))"

definition dispatch :: "str \<Rightarrow> str list \<Rightarrow> target" where
  "dispatch method segs =
     (case matching segs of
        [] \<Rightarrow> NoRoute
      | rs \<Rightarrow>
          (let p = best_pattern rs; m = (if method = ''HEAD'' then ''GET'' else method) in
           case find (\<lambda>(m', p', _). m' = m \<and> p' = p) rs of
             None \<Rightarrow> WrongMethod
           | Some (_, _, ep) \<Rightarrow> Endpoint ep (unwrap_or (match_path (pattern_of p) segs) [])))"

definition plugin_prefix :: str where "plugin_prefix = ''/form-respondent-role''"

text \<open>\<open>nest\<close>: the path after the prefix, as segments.\<close>

definition nested_segments :: "str \<Rightarrow> str list option" where
  "nested_segments path = (case strip_prefix plugin_prefix path of
       Some (c # rest) \<Rightarrow> if c = slash then Some (split_on slash rest) else None
     | _ \<Rightarrow> None)"

subsection \<open>Replies\<close>

datatype reply =
    Json response
  | AdminHtml admin_page
  | FormHtml page_view
  | DoneHtml str
  | CsvFile csv_file
  | DweebReply dweeb_page
  | RespondentsHtml text_page
  | FaviconIco
  | NotFound
  | MethodNotAllowed
  | Rejected

record framework =
  fw_cookie :: "request \<Rightarrow> str option"
  fw_pairs :: "str \<Rightarrow> (str \<times> str) list"
  fw_json :: "request \<Rightarrow> str \<Rightarrow> json option"
  fw_datetime :: "str \<Rightarrow> int option"
  fw_elapsed_ms :: "nat \<Rightarrow> nat"
  fw_shell :: "str \<Rightarrow> str"

type_synonym serving = "world \<Rightarrow> reply \<times> world"

definition json_ok :: "json \<Rightarrow> response" where "json_ok v = \<lparr>r_status = 200, r_headers = [], r_body = v\<rparr>"

definition served :: "('a \<Rightarrow> reply) \<Rightarrow> 'a act \<Rightarrow> serving" where
  "served f m w = (case m w of (Inl e, w') \<Rightarrow> (Json (into_response e), w') | (Inr x, w') \<Rightarrow> (f x, w'))"

abbreviation api :: "json act \<Rightarrow> serving" where "api \<equiv> served (\<lambda>v. Json (json_ok v))"

definition page_of :: "('p \<Rightarrow> reply) \<Rightarrow> (world \<Rightarrow> 'p \<times> world) \<Rightarrow> serving" where
  "page_of f m w = (case m w of (p, w') \<Rightarrow> (f p, w'))"

text \<open>The extractors: a member of the query (once at most), and a body of at most 256 KB.\<close>

definition query_member :: "framework \<Rightarrow> request \<Rightarrow> str \<Rightarrow> str option option" where
  "query_member F rq name =
     (case filter (\<lambda>(k, _). k = name) (fw_pairs F (unwrap_or (rq_query rq) [])) of
        [] \<Rightarrow> Some None | [(_, v)] \<Rightarrow> Some (Some v) | _ \<Rightarrow> None)"

definition extracted :: "'a option \<Rightarrow> ('a \<Rightarrow> serving) \<Rightarrow> serving" where
  "extracted x k w = (case x of None \<Rightarrow> (Rejected, w) | Some a \<Rightarrow> k a w)"

definition max_body_bytes :: nat where "max_body_bytes = 256 * 1024"

definition typed_body :: "framework \<Rightarrow> request \<Rightarrow> str \<Rightarrow> (json \<Rightarrow> 'a option) \<Rightarrow> 'a option" where
  "typed_body F rq body rd = (if length body > max_body_bytes then None else Option.bind (fw_json F rq body) rd)"

definition limit_member :: "framework \<Rightarrow> request \<Rightarrow> int option option" where
  "limit_member F rq = (case query_member F rq ''limit'' of
       None \<Rightarrow> None | Some None \<Rightarrow> Some None | Some (Some s) \<Rightarrow> map_option Some (parse_i64 s))"

fun all_some :: "'a option list \<Rightarrow> 'a list option" where
  "all_some [] = Some []"
| "all_some (x # xs) = (case (x, all_some xs) of (Some a, Some as) \<Rightarrow> Some (a # as) | _ \<Rightarrow> None)"

subsection \<open>Health\<close>

definition health :: "framework \<Rightarrow> env \<Rightarrow> site \<Rightarrow> world \<Rightarrow> response \<times> world" where
  "health F E S w =
     (case db_query E (\<lambda>_. ()) w of (r, w') \<Rightarrow>
       (let db_ok = \<not> isl r in
        (\<lparr>r_status = (if db_ok then 200 else 503), r_headers = [], r_body = JObj
            [(''checks'', JObj [(''database'', JObj [(''latency_ms'', JNum (PosInt (fw_elapsed_ms F (w_tick w)))),
                (''status'', JStr (if db_ok then ''up'' else ''down''))])]),
             (''status'', JStr (if db_ok then ''healthy'' else ''unhealthy'')),
             (''timestamp'', JStr (st_show_time S (w_now w')))]\<rparr>, w')))"

definition ready :: "bool \<Rightarrow> response" where
  "ready draining = (if draining then json_response 503 [(''status'', JStr ''draining'')]
     else json_response 200 [(''status'', JStr ''ready'')])"

subsection \<open>One endpoint\<close>

text \<open>The parts every endpoint gets: the framework, the outside world, settings and state, whether the replica
  drains, and the request with its body.\<close>

record server =
  sv_framework :: framework
  sv_env :: env
  sv_config :: app_config
  sv_site :: site
  sv_draining :: bool

definition run_endpoint :: "server \<Rightarrow> endpoint \<Rightarrow> str list \<Rightarrow> request \<Rightarrow> str \<Rightarrow> serving" where
  "run_endpoint V ep ps rq body =
     (let F = sv_framework V; E = sv_env V; S = sv_site V; cookie = fw_cookie F rq;
          p0 = ps ! 0; p1 = ps ! 1; p2 = ps ! 2;
          query = (\<lambda>k f. extracted (query_member F rq k) f) in
      case ep of
        PluginRegister \<Rightarrow> extracted (typed_body F rq body guild_role_from_json) (\<lambda>(g, r). api (register E rq g r))
      | PluginGetConfig \<Rightarrow> api (get_config E S rq)
      | PluginPostConfig \<Rightarrow> extracted (typed_body F rq body guild_role_from_json) (\<lambda>(g, r). api (post_config E rq g r))
      | PluginDeleteConfig \<Rightarrow> extracted (typed_body F rq body guild_role_from_json) (\<lambda>(g, r). api (delete_config E rq g r))
      | GetForm \<Rightarrow> served FormHtml (get_form E S cookie p0)
      | PostSubmit \<Rightarrow> extracted (typed_body F rq body submit_body_from_json)
          (\<lambda>(answers, version). api (post_submit E S rq cookie p0 answers version))
      | GetDone \<Rightarrow> Pair (DoneHtml (get_done S))
      | GetPreview \<Rightarrow> query ''token'' (\<lambda>t. extracted t (\<lambda>token. served FormHtml (get_preview E S p0 token)))
      | ListPage \<Rightarrow> query ''ifs'' (\<lambda>ifs. page_of AdminHtml (list_page E S cookie p0 ifs))
      | ListData \<Rightarrow> api (list_data E S rq cookie p0)
      | CreateForm \<Rightarrow> extracted (typed_body F rq body create_body_from_json)
          (\<lambda>(template, title). api (create_form E S rq cookie p0 template title))
      | SetViewPermission \<Rightarrow> extracted (typed_body F rq body view_permission_from_json)
          (\<lambda>vp. api (set_view_permission E S rq cookie p0 vp))
      | BuilderPage \<Rightarrow> query ''ifs'' (\<lambda>ifs. page_of AdminHtml (builder_page E S p1 cookie p0 ifs))
      | UpdateForm \<Rightarrow> extracted (typed_body F rq body (update_body_from_json (fw_datetime F)))
          (\<lambda>b. api (update_form E S rq cookie p0 p1 b))
      | DeleteForm \<Rightarrow> api (delete_form E S rq cookie p0 p1)
      | BuilderData \<Rightarrow> api (builder_data E S rq cookie p0 p1)
      | DuplicateForm \<Rightarrow> api (duplicate_form E S rq cookie p0 p1)
      | ResponsesPage \<Rightarrow> query ''ifs'' (\<lambda>ifs. page_of AdminHtml (responses_page E S p1 cookie p0 ifs))
      | DeleteAllResponses \<Rightarrow> api (delete_all_responses E S rq cookie p0 p1)
      | ResponsesData \<Rightarrow> api (responses_data E S rq cookie p0 p1)
      | DeleteResponse \<Rightarrow> api (delete_response E S rq cookie p0 p1 p2)
      | ResponsesCsv \<Rightarrow> served CsvFile (responses_csv E S cookie p0 p1)
      | RoleConfigPage \<Rightarrow> query ''rl_token'' (\<lambda>t. page_of AdminHtml (role_config_page E S cookie p0 p1 t))
      | RoleConfigSave \<Rightarrow> extracted (typed_body F rq body role_config_body_from_json)
          (\<lambda>b. api (role_config_save E S rq cookie p0 p1 b))
      | RoleConfigData \<Rightarrow> api (role_config_data E S rq cookie p0 p1)
      | DweebStatus \<Rightarrow> query ''guild'' (\<lambda>g. page_of Json (dweeb_status E g))
      | DweebPicker \<Rightarrow> Pair (DweebReply (picker_page (sv_config V) S))
      | DweebBridge \<Rightarrow> query ''guild'' (\<lambda>g. page_of DweebReply (bridge E S cookie g))
      | DweebForms \<Rightarrow> query ''guild'' (\<lambda>g. api (dweeb_forms E S rq g))
      | RespondentsPage \<Rightarrow> Pair (RespondentsHtml (respondents_page (fw_shell F) S))
      | RespondentsData \<Rightarrow> extracted (limit_member F rq) (\<lambda>limit. api (respondents_data E S cookie p0 limit))
      | Favicon \<Rightarrow> Pair FaviconIco
      | Health \<Rightarrow> page_of Json (health F E S)
      | Ready \<Rightarrow> Pair (Json (ready (sv_draining V))))"

subsection \<open>Serving\<close>

definition writes_blocked :: "server \<Rightarrow> request \<Rightarrow> world \<Rightarrow> bool" where
  "writes_blocked V rq w \<longleftrightarrow> rq_method rq \<notin> set safe_methods
     \<and> read_only_session_on (st_crypto (sv_site V)) (unix_secs (w_now w)) rq (st_secret (sv_site V)) \<noteq> None"

definition serve :: "server \<Rightarrow> request \<Rightarrow> str \<Rightarrow> str \<Rightarrow> serving" where
  "serve V rq path body w =
     (case nested_segments path of
        None \<Rightarrow> (NotFound, w)
      | Some segs \<Rightarrow>
          (case dispatch (rq_method rq) segs of
             NoRoute \<Rightarrow> (NotFound, w)
           | t \<Rightarrow>
               if writes_blocked V rq w then (Json read_only_refusal, w)
               else (case t of
                   Endpoint ep raw \<Rightarrow> extracted (all_some (map (url_decode (st_crypto (sv_site V))) raw))
                     (\<lambda>ps. run_endpoint V ep ps rq body) w
                 | _ \<Rightarrow> (MethodNotAllowed, w))))"

subsection \<open>Reading endpoints\<close>

definition untouched :: "serving \<Rightarrow> bool" where
  "untouched f \<longleftrightarrow> (\<forall>w. w_db (snd (f w)) = w_db w)"

lemma untouched_served: "reads_only m \<Longrightarrow> untouched (served f m)"
  by (auto simp: untouched_def served_def split: prod.split sum.split dest: reads_onlyD)

lemma untouched_extracted: "(\<And>a. untouched (k a)) \<Longrightarrow> untouched (extracted x k)"
  by (auto simp: untouched_def extracted_def split: option.split)

lemma untouched_page: "(\<And>w. w_db (snd (m w)) = w_db w) \<Longrightarrow> untouched (page_of f m)"
  by (auto simp: untouched_def page_of_def split: prod.split) (metis snd_conv)

lemma untouched_Pair: "untouched (Pair r)"
  by (simp add: untouched_def)

lemmas untouched_rules = untouched_served untouched_extracted untouched_page untouched_Pair

lemma reads_match:
  assumes "reads_only m" and "\<And>x. reads_only (f x)" and "\<And>e. reads_only (h e)"
  shows "reads_only (act_match m f h)"
  unfolding reads_only_def act_match_def
  using assms by (auto split: prod.split sum.split simp: reads_only_def) (metis snd_conv order_trans)+

lemma require_form_reads [simp, intro]: "reads_only (require_form E i g)"
  unfolding require_form_def by auto

lemma parse_form_id_reads [simp, intro]: "reads_only (parse_form_id S i)"
  unfolding parse_form_id_def by simp

lemma membership_page_reads [simp, intro]: "reads_only (membership_page E S f u)"
  unfolding membership_page_def by (auto intro!: reads_match)

lemma member_page_reads [simp, intro]: "reads_only (member_page E S f slug u n now)"
  unfolding member_page_def retry_status_def by (auto intro!: reads_only_bind split: option.split)

lemma load_form_reads [simp, intro]: "reads_only (load_form E slug)"
  unfolding load_form_def by auto

lemma read_endpoints [intro]:
  "reads_only (get_form E S cookie slug)" "reads_only (get_preview E S slug token)" "reads_only (get_config E S rq)"
  "reads_only (list_data E S rq cookie g)" "reads_only (builder_data E S rq cookie g i)"
  "reads_only (responses_data E S rq cookie g i)" "reads_only (responses_csv E S cookie g i)"
  "reads_only (role_config_data E S rq cookie g r)" "reads_only (dweeb_forms E S rq guild)"
  unfolding get_form_def get_preview_def get_config_def list_data_def builder_data_def responses_data_def responses_csv_def
    role_config_data_def dweeb_forms_def Let_def
  by (auto intro!: reads_only_bind split: option.split)

lemma require_manager_html_db: "w_db (snd (require_manager_html E S cookie g w)) = w_db w"
  using reads_onlyD [OF check_manager_reads]
  by (auto simp: require_manager_html_def split: option.split prod.split sum.split app_error.split)

lemma guild_page_db: "w_db (snd (guild_page E S template fill cookie g ifs w)) = w_db w"
  using require_manager_html_db [of E S cookie g w]
  by (auto simp: guild_page_def Let_def split: sum.split prod.split)

lemma query_db: "db_query E f w = (r, w') \<Longrightarrow> w_db w' = w_db w"
  using reads_onlyD [OF reads_only_simps(7)] by blast

lemma verify_iframe_entry_db: "w_db (snd (verify_iframe_entry E S g r t w)) = w_db w"
  by (auto simp: verify_iframe_entry_def split: sum.split prod.split option.split dest!: query_db)

lemma page_endpoints_db:
  "w_db (snd (list_page E S cookie g ifs w)) = w_db w" "w_db (snd (builder_page E S i cookie g ifs w)) = w_db w"
  "w_db (snd (responses_page E S i cookie g ifs w)) = w_db w"
  by (simp_all add: list_page_def builder_page_def responses_page_def guild_page_db)

lemma role_config_page_db: "w_db (snd (role_config_page E S cookie g r t w)) = w_db w"
  using require_manager_html_db [of E S cookie g w] verify_iframe_entry_db [of E S g r "unwrap_or t []" w]
  by (auto simp: role_config_page_def split: sum.split prod.split)

lemma dweeb_endpoints_db:
  "w_db (snd (dweeb_status E guild w)) = w_db w" "w_db (snd (bridge E S cookie guild w)) = w_db w"
  using reads_onlyD [OF check_manager_reads]
  by (auto simp: dweeb_status_def bridge_def Let_def split: sum.split prod.split option.split dest!: query_db)

lemma health_db: "w_db (snd (health F E S w)) = w_db w"
  by (auto simp: health_def Let_def split: prod.split dest!: query_db)

lemma get_endpoint_untouched: "(''GET'', p, ep) \<in> set routes \<Longrightarrow> untouched (run_endpoint V ep ps rq body)"
  unfolding routes_def
  by (auto simp: run_endpoint_def Let_def page_endpoints_db role_config_page_db dweeb_endpoints_db health_db
      respondents_data_reads intro!: untouched_rules)

subsection \<open>Dispatching\<close>

lemma match_path_length: "match_path p ss = Some ps \<Longrightarrow> length p = length ss"
  by (induction p ss arbitrary: ps rule: match_path.induct) (auto split: if_splits)

lemma dispatch_Endpoint:
  assumes "dispatch method segs = Endpoint ep ps"
  shows "\<exists>p. (if method = ''HEAD'' then ''GET'' else method, p, ep) \<in> set routes \<and> match_path (pattern_of p) segs = Some ps"
proof -
  let ?m = "if method = ''HEAD'' then ''GET'' else method"
  let ?P = "\<lambda>(m', p', _). m' = ?m \<and> p' = best_pattern (matching segs)"
  obtain r rs where m: "matching segs = r # rs" using assms by (cases "matching segs") (auto simp: dispatch_def)
  have "dispatch method segs = (case find ?P (matching segs) of None \<Rightarrow> WrongMethod
      | Some (_, _, ep) \<Rightarrow> Endpoint ep (unwrap_or (match_path (pattern_of (best_pattern (matching segs))) segs) []))"
    unfolding dispatch_def Let_def m list.case ..
  then obtain m' p where f: "find ?P (matching segs) = Some (m', p, ep)"
    and ps: "ps = unwrap_or (match_path (pattern_of (best_pattern (matching segs))) segs) []"
    using assms by (auto split: option.splits)
  then have "(m', p, ep) \<in> set (matching segs)" "m' = ?m" "p = best_pattern (matching segs)"
    by (auto simp: find_Some_iff dest: nth_mem)
  then show ?thesis using ps by (auto simp: matching_def)
qed

text \<open>No method and pattern is registered twice, and the literal siblings hide the parameter of a response.\<close>

lemma routes_distinct: "distinct (map (\<lambda>(m, p, _). (m, p)) routes)"
  by (simp add: routes_def)

lemma every_endpoint_routed_once: "map (snd \<circ> snd) routes = enum_class.enum"
  by (simp add: routes_def enum_endpoint_def all_endpoints_def)

lemma literal_before_parameter:
  "dispatch ''DELETE'' [''admin'', ''g'', ''forms'', ''f'', ''responses'', ''data''] = WrongMethod"
  "dispatch ''DELETE'' [''admin'', ''g'', ''forms'', ''f'', ''responses'', ''x''] = Endpoint DeleteResponse [''g'', ''f'', ''x'']"
  by code_simp+

lemma serve_cases:
  obtains (idle) r where "serve V rq path body w = (r, w)" "r \<in> {NotFound, MethodNotAllowed, Rejected, Json read_only_refusal}"
  | (run) ep p raw ps segs where "nested_segments path = Some segs" "\<not> writes_blocked V rq w"
      "(if rq_method rq = ''HEAD'' then ''GET'' else rq_method rq, p, ep) \<in> set routes"
      "match_path (pattern_of p) segs = Some raw" "all_some (map (url_decode (st_crypto (sv_site V))) raw) = Some ps"
      "serve V rq path body w = run_endpoint V ep ps rq body w"
proof (cases "nested_segments path")
  case None
  then show thesis using idle by (simp add: serve_def)
next
  case (Some segs)
  show thesis
  proof (cases "dispatch (rq_method rq) segs")
    case (Endpoint ep raw)
    then obtain p where p: "(if rq_method rq = ''HEAD'' then ''GET'' else rq_method rq, p, ep) \<in> set routes"
      "match_path (pattern_of p) segs = Some raw" using dispatch_Endpoint by blast
    show thesis
    proof (cases "writes_blocked V rq w")
      case True
      then show thesis using idle Some Endpoint by (simp add: serve_def)
    next
      case False
      then show thesis
        using run [OF Some False p] idle Some Endpoint
        by (cases "all_some (map (url_decode (st_crypto (sv_site V))) raw)") (simp_all add: serve_def extracted_def)
    qed
  qed (use idle Some in \<open>cases "writes_blocked V rq w"; auto simp: serve_def\<close>)+
qed

lemma no_unsafe_routes: "(m, p, ep) \<in> set routes \<Longrightarrow> m = ''GET'' \<or> m \<notin> set safe_methods"
  by (auto simp: routes_def safe_methods_def)

lemma safe_serve_untouched:
  assumes "rq_method rq \<in> set safe_methods"
  shows "w_db (snd (serve V rq path body w)) = w_db w"
proof (cases V rq path body w rule: serve_cases)
  case (run ep p raw ps segs)
  then have "(''GET'', p, ep) \<in> set routes"
    using assms no_unsafe_routes [OF run(3)] by (auto simp: safe_methods_def split: if_splits)
  then show ?thesis using run(6) get_endpoint_untouched by (simp add: untouched_def)
qed simp

subsection \<open>Writing endpoints\<close>

text \<open>Whoever may change the tables through an endpoint: anyone who registers a link under a token of their choice, the
  owner of a link's token who deletes it, a configurator of the link, a signed-in sender of a submission from an
  allowed origin, and for everything else a confirmed manager of the guild from an allowed origin.\<close>

definition authorised :: "server \<Rightarrow> endpoint \<Rightarrow> str list \<Rightarrow> request \<Rightarrow> str \<Rightarrow> world \<Rightarrow> bool" where
  "authorised V ep ps rq body w \<longleftrightarrow>
     (let E = sv_env V; S = sv_site V; cookie = fw_cookie (sv_framework V) rq in
      case ep of
        PluginRegister \<Rightarrow> \<exists>token. extract_token rq = Inr token
      | PluginDeleteConfig \<Rightarrow> \<exists>token g r. typed_body (sv_framework V) rq body guild_role_from_json = Some (g, r)
          \<and> extract_token rq = Inr token \<and> owns_link g r token (w_db w)
      | RoleConfigSave \<Rightarrow> may_configure E S w rq cookie (ps ! 0) (ps ! 1)
      | PostSubmit \<Rightarrow> verify_origin rq (st_origins S) = Inr ()
          \<and> (\<exists>c u. cookie = Some c \<and> session_of S (w_now w) c = Some u)
      | _ \<Rightarrow> ep \<in> {CreateForm, SetViewPermission, UpdateForm, DeleteForm, DuplicateForm, DeleteAllResponses, DeleteResponse}
          \<and> verify_origin rq (st_origins S) = Inr () \<and> (\<exists>caller. is_live_manager E S w cookie (ps ! 0) caller))"

definition changes :: "('a \<times> world) \<Rightarrow> world \<Rightarrow> bool" where
  "changes out w \<longleftrightarrow> w_db (snd out) \<noteq> w_db w"

lemma changes_served [simp]: "changes (served f m w) w = changes (m w) w"
  by (simp add: changes_def served_def split: prod.split sum.split)

lemma changes_extracted: "changes (extracted x k w) w \<Longrightarrow> \<exists>a. x = Some a \<and> changes (k a w) w"
  by (cases x) (simp_all add: changes_def extracted_def)

lemma admin_change:
  assumes "changes (admin_handler E S rq cookie g op w) w"
  shows "verify_origin rq (st_origins S) = Inr () \<and> (\<exists>caller. is_live_manager E S w cookie g caller)"
  using assms admin_change_authorised [of E S rq cookie g op w] by (auto simp: changes_def prod_eq_iff)

lemma register_change: "changes (register E rq g r w) w \<Longrightarrow> \<exists>token. extract_token rq = Inr token"
  by (cases "extract_token rq") (simp_all add: changes_def register_def act_bind_def act_result_def)

lemma delete_config_change:
  assumes "changes (delete_config E rq g r w) w"
  shows "\<exists>token. extract_token rq = Inr token \<and> owns_link g r token (w_db w)"
proof (cases "extract_token rq")
  case (Inl e)
  then show ?thesis using assms by (simp add: changes_def delete_config_def act_bind_def act_result_def)
next
  case (Inr token)
  then show ?thesis
    using assms by (auto simp: changes_def delete_config_def act_bind_def act_result_def db_stmt_def Let_def act_require_def
        split: option.splits if_splits)
qed

lemma role_config_change: "changes (role_config_save E S rq cookie g r body w) w \<Longrightarrow> may_configure E S w rq cookie g r"
  using role_config_save_guarded [of E S rq cookie g r body w] by (auto simp: changes_def prod_eq_iff)

lemma submit_change:
  assumes "changes (post_submit E S rq cookie slug answers version w) w"
  shows "verify_origin rq (st_origins S) = Inr () \<and> (\<exists>c u. cookie = Some c \<and> session_of S (w_now w) c = Some u)"
proof -
  obtain r w' where p: "post_submit E S rq cookie slug answers version w = (r, w')" by fastforce
  show ?thesis
  proof (cases r)
    case (Inl e)
    then show ?thesis using assms p post_submit_error_keeps_db by (simp add: changes_def)
  next
    case (Inr reply)
    then show ?thesis using p post_submit_Inr unfolding submitted_def by blast
  qed
qed

lemma admin_ops:
  "set_view_permission E S rq c g vp = admin_handler E S rq c g (admin_op.SetViewPermission vp)"
  "create_form E S rq c g t ti = admin_handler E S rq c g (admin_op.CreateForm t ti)"
  "duplicate_form E S rq c g i = admin_handler E S rq c g (admin_op.DuplicateForm i)"
  "update_form E S rq c g i b = admin_handler E S rq c g (admin_op.UpdateForm i b)"
  "delete_form E S rq c g i = admin_handler E S rq c g (admin_op.DeleteForm i)"
  "delete_response E S rq c g i r = admin_handler E S rq c g (admin_op.DeleteResponse i r)"
  "delete_all_responses E S rq c g i = admin_handler E S rq c g (admin_op.DeleteAllResponses i)"
  by (simp_all add: admin_handler_def)

lemma not_GET: "(m, p, ep) \<in> set routes \<Longrightarrow> m \<noteq> ''GET'' \<Longrightarrow>
    ep \<in> {PluginRegister, PluginPostConfig, PluginDeleteConfig, PostSubmit, CreateForm, SetViewPermission, UpdateForm,
      DeleteForm, DuplicateForm, DeleteAllResponses, DeleteResponse, RoleConfigSave}"
  by (auto simp: routes_def)

lemma post_config_reads: "reads_only (post_config E rq g r)"
  unfolding post_config_def by auto

lemma endpoint_change:
  assumes route: "(m, p, ep) \<in> set routes" and change: "changes (run_endpoint V ep ps rq body w) w"
  shows "m \<noteq> ''GET'' \<and> authorised V ep ps rq body w"
proof -
  have m: "m \<noteq> ''GET''" using assms get_endpoint_untouched by (auto simp: untouched_def changes_def)
  have unread: "\<not> changes (post_config E rq g r w) w" for E g r
    using post_config_reads by (simp add: reads_only_def changes_def)
  show ?thesis
    using not_GET [OF route m] change m unread
    by (elim insertE emptyE)
      (auto simp: run_endpoint_def Let_def authorised_def admin_ops
        dest!: changes_extracted admin_change register_change delete_config_change role_config_change submit_change)
qed

lemma serve_change:
  assumes "changes (serve V rq path body w) w"
  obtains ep p raw ps segs where "nested_segments path = Some segs" "(rq_method rq, p, ep) \<in> set routes"
    "match_path (pattern_of p) segs = Some raw" "all_some (map (url_decode (st_crypto (sv_site V))) raw) = Some ps"
    "rq_method rq \<notin> set safe_methods" "\<not> writes_blocked V rq w" "authorised V ep ps rq body w"
proof (cases V rq path body w rule: serve_cases)
  case (run ep p raw ps segs)
  have "rq_method rq \<notin> set safe_methods" using assms safe_serve_untouched by (auto simp: changes_def)
  then have "rq_method rq \<noteq> ''HEAD''" by (auto simp: safe_methods_def)
  then show thesis
    using that run endpoint_change [OF run(3)] assms \<open>rq_method rq \<notin> set safe_methods\<close> by auto
qed (use assms in \<open>simp add: changes_def\<close>)

subsection \<open>Properties\<close>

text \<open>C2: Serving a request changes no table when its method is one of GET, HEAD and OPTIONS, whatever the path
  and the credentials; nor, whatever the method, the path and the body, when it presents a live read-only
  session as its bearer token, or in its query without any bearer token. (With another bearer token beside
  the session of its query a request passes the guard and can write on its other credentials, see
  \<open>smuggled_session_writes\<close>.)\<close>

theorem views_never_write:
  assumes "rq_method rq \<in> set safe_methods
    \<or> (\<exists>token session. (bearer_token rq = Some token
          \<or> bearer_token rq = None \<and> (\<exists>q. rq_query rq = Some q \<and> query_param (st_crypto (sv_site V)) q ''ifs'' = Some token))
        \<and> verify_iframe_session (st_crypto (sv_site V)) (unix_secs (w_now w)) token (st_secret (sv_site V)) = Some session
        \<and> is_read_only session)"
  shows "w_db (snd (serve V rq path body w)) = w_db w"
proof (rule ccontr)
  assume "w_db (snd (serve V rq path body w)) \<noteq> w_db w"
  then have "changes (serve V rq path body w) w" by (simp add: changes_def)
  then show False by (rule serve_change) (use assms in \<open>auto simp: writes_blocked_def read_only_session_on_def\<close>)
qed

definition sample_server :: server where
  "sample_server = \<lparr>sv_framework = \<lparr>fw_cookie = (\<lambda>_. Some sample_cookie), fw_pairs = (\<lambda>_. []),
       fw_json = (\<lambda>_ _. Some (JObj [(''guild_id'', JStr ''g''), (''role_id'', JStr ''r'')])), fw_datetime = (\<lambda>_. None),
       fw_elapsed_ms = (\<lambda>_. 0), fw_shell = (\<lambda>s. s)\<rparr>,
     sv_env = sample_env (HttpFailed []),
     sv_config = \<lparr>ac_database_url = [], ac_session_secret = ''k'', ac_base_url = ''https://p'', ac_listen_addr = [],
       ac_auth_gateway_url = ''https://gw'', ac_internal_api_key = ''k'', ac_rl_dashboard_origin = None,
       ac_rolelogic_api_url = ''https://rl'', ac_dweeb_embed_origins = [], ac_worker_concurrency = 1,
       ac_db_pool = \<lparr>dp_max_connections = 10, dp_min_connections = 2, dp_acquire_timeout_secs = 5,
         dp_idle_timeout_secs = 600\<rparr>\<rparr>,
     sv_site = sample_site, sv_draining = False\<rparr>"

definition read_only_token :: str where
  "read_only_token = mint_iframe_session sample_crypto 0 ''u'' ''g'' ''r'' True None ''k''"

lemma read_only_token_verifies: "\<exists>s. verify_iframe_session sample_crypto 0 read_only_token ''k'' = Some s \<and> is_read_only s"
  unfolding read_only_token_def
  by (subst minted_session_verifies) (simp_all add: colon_def in_i64_def)

theorem views_never_write_witness:
  "w_db (snd (serve sample_server (sample_request ''GET'' [] None) ''/form-respondent-role/f/join'' [] form_world)) = w_db form_world
   \<and> w_db (snd (serve sample_server (sample_request ''PUT'' [(''authorization'', ''Bearer '' @ read_only_token)] None)
        ''/form-respondent-role/admin/g/forms/f'' [] form_world)) = w_db form_world"
proof
  show "w_db (snd (serve sample_server (sample_request ''GET'' [] None) ''/form-respondent-role/f/join'' [] form_world)) = w_db form_world"
    by (rule views_never_write) (simp add: sample_request_def safe_methods_def)
  have "bearer_token (sample_request ''PUT'' [(''authorization'', ''Bearer '' @ read_only_token)] None) = Some read_only_token"
    by code_simp
  moreover have "st_crypto (sv_site sample_server) = sample_crypto" "st_secret (sv_site sample_server) = ''k''"
    "unix_secs (w_now form_world) = 0"
    by (simp_all add: sample_server_def sample_site_def form_world_def sample_world_def unix_secs_def)
  ultimately show "w_db (snd (serve sample_server (sample_request ''PUT'' [(''authorization'', ''Bearer '' @ read_only_token)] None)
        ''/form-respondent-role/admin/g/forms/f'' [] form_world)) = w_db form_world"
    using read_only_token_verifies by (intro views_never_write) auto
qed

text \<open>A member's submission that carries a live read-only session in its query, and some bearer value.\<close>

definition smuggling_request :: request where
  "smuggling_request = sample_request ''POST'' [(''authorization'', ''Bearer x''), (''origin'', ''https://p'')]
     (Some (''ifs='' @ read_only_token))"

lemma sample_site_selectors: "st_crypto sample_site = sample_crypto" "st_secret sample_site = ''k''" "url_decode sample_crypto = Some"
  by (simp_all add: sample_site_def sample_crypto_def)

lemma smuggling_parts: "rq_method smuggling_request = ''POST''" "bearer_token smuggling_request = Some ''x''"
  "verify_iframe_session sample_crypto t ''x'' ''k'' = None" "verify_origin smuggling_request [''https://p''] = Inr ()"
  "header_str smuggling_request ''x-rl-preview'' = None"
  "\<exists>q. rq_query smuggling_request = Some q \<and> query_param sample_crypto q ''ifs'' = Some read_only_token"
  by (code_simp, code_simp, code_simp, code_simp, code_simp, simp add: smuggling_request_def sample_request_def) code_simp

lemma submit_dispatch: "nested_segments ''/form-respondent-role/f/join/submit'' = Some [''f'', ''join'', ''submit'']"
  "dispatch ''POST'' [''f'', ''join'', ''submit''] = Endpoint PostSubmit [''join'']"
  by code_simp+

definition smuggling_server :: server where
  "smuggling_server = sample_server\<lparr>sv_framework := (sv_framework sample_server)\<lparr>fw_json := (\<lambda>_ _. Some (JObj
     [(''answers'', JObj [(''q1'', JStr ''Ann''), (''q2'', JArr [JStr ''b''])]), (''version'', JNum (PosInt 1))]))\<rparr>\<rparr>"

lemma smuggled_submission:
  "\<exists>reply w'. post_submit (sample_env rp) sample_site smuggling_request (Some sample_cookie) ''join''
     (JObj [(''q1'', JStr ''Ann''), (''q2'', JArr [JStr ''b''])]) 1 form_world = (Inr reply, w') \<and> db_responses (w_db w') \<noteq> []"
  using sample_row
  by (simp add: post_submit_def act_bind_def act_result_def act_now_def smuggling_parts session_sample db_transaction_def
      db_query_def db_stmt_def submit_in_tx_def sample_selectors sample_open sample_grade check_member_def
      find_form_by_slug_def form_world_def sample_world_def empty_db_def store_response_def store_attempt_def
      canonical_attempt_def user_responses_def insert_response_def enqueue_follow_up_def enqueue_player_sync_def
      on_jobs_def db_exec_def Let_def)

lemma smuggling_body: "submit_body_from_json (JObj
     [(''answers'', JObj [(''q1'', JStr ''Ann''), (''q2'', JArr [JStr ''b''])]), (''version'', JNum (PosInt 1))])
   = Some (JObj [(''q1'', JStr ''Ann''), (''q2'', JArr [JStr ''b''])], 1)"
  by code_simp

lemma smuggled_session_writes:
  "(\<exists>q s. rq_query smuggling_request = Some q \<and> query_param sample_crypto q ''ifs'' = Some read_only_token
      \<and> verify_iframe_session sample_crypto 0 read_only_token ''k'' = Some s \<and> is_read_only s)
    \<and> w_db (snd (serve smuggling_server smuggling_request ''/form-respondent-role/f/join/submit'' [] form_world)) \<noteq> w_db form_world"
proof
  show "\<exists>q s. rq_query smuggling_request = Some q \<and> query_param sample_crypto q ''ifs'' = Some read_only_token
      \<and> verify_iframe_session sample_crypto 0 read_only_token ''k'' = Some s \<and> is_read_only s"
    using smuggling_parts(6) read_only_token_verifies by blast
  obtain reply w' where p: "post_submit (sample_env (HttpFailed [])) sample_site smuggling_request (Some sample_cookie) ''join''
     (JObj [(''q1'', JStr ''Ann''), (''q2'', JArr [JStr ''b''])]) 1 form_world = (Inr reply, w')" "db_responses (w_db w') \<noteq> []"
    using smuggled_submission by blast
  have "snd (serve smuggling_server smuggling_request ''/form-respondent-role/f/join/submit'' [] form_world) = w'"
    by (simp add: serve_def submit_dispatch smuggling_parts writes_blocked_def read_only_session_on_def extracted_def
        run_endpoint_def smuggling_server_def sample_server_def sample_site_selectors typed_body_def smuggling_body [unfolded One_nat_def] served_def p(1) Let_def)
  moreover have "db_responses (w_db form_world) = []" by (simp add: form_world_def sample_world_def empty_db_def)
  ultimately show "w_db (snd (serve smuggling_server smuggling_request ''/form-respondent-role/f/join/submit'' [] form_world))
    \<noteq> w_db form_world" using p(2) by metis
qed

definition register_request :: request where
  "register_request = sample_request ''POST'' [(''authorization'', ''Token t'')] None"

lemma register_dispatch: "nested_segments ''/form-respondent-role/register'' = Some [''register'']"
  "dispatch ''POST'' [''register''] = Endpoint PluginRegister []"
  by code_simp+

lemma register_request_parts: "rq_method register_request = ''POST''" "bearer_token register_request = None"
  "rq_query register_request = None" "extract_token register_request = Inr ''t''"
  by (simp add: register_request_def sample_request_def, code_simp, simp add: register_request_def sample_request_def)
    (simp add: register_request_def sample_extract_token)

lemma sample_registered: "db_settings (w_db (snd (serve sample_server register_request ''/form-respondent-role/register'' []
    (sample_world empty_db)))) = [(''g'', ''managers'')]"
  by (simp add: serve_def register_dispatch register_request_parts writes_blocked_def read_only_session_on_def extracted_def
      run_endpoint_def sample_server_def typed_body_def guild_role_from_json_def struct_members_def need_def as_str_def
      served_def register_def act_bind_def act_result_def db_exec_def db_stmt_def Let_def sample_selectors sample_world_def
      upsert_link_def default_settings_def empty_db_def find_link_def)

text \<open>C3: A request that changes a table is authorised for the endpoint its method and path name: over all routes,
  only the registration of a link goes without a credential the server checks (see \<open>authorised\<close>).\<close>

theorem every_write_authorised:
  assumes "w_db (snd (serve V rq path body w)) \<noteq> w_db w"
  shows "\<exists>ep p segs raw ps. nested_segments path = Some segs \<and> (rq_method rq, p, ep) \<in> set routes
    \<and> match_path (pattern_of p) segs = Some raw \<and> all_some (map (url_decode (st_crypto (sv_site V))) raw) = Some ps
    \<and> rq_method rq \<in> {''POST'', ''PUT'', ''DELETE''} \<and> authorised V ep ps rq body w"
proof -
  have "changes (serve V rq path body w) w" using assms by (simp add: changes_def)
  then show ?thesis
  proof (rule serve_change)
    fix ep p raw ps segs
    assume r: "nested_segments path = Some segs" "(rq_method rq, p, ep) \<in> set routes"
      "match_path (pattern_of p) segs = Some raw" "all_some (map (url_decode (st_crypto (sv_site V))) raw) = Some ps"
      "rq_method rq \<notin> set safe_methods" "authorised V ep ps rq body w"
    have "rq_method rq \<in> {''POST'', ''PUT'', ''DELETE''}" using r(2,5) by (auto simp: routes_def safe_methods_def)
    then show ?thesis using r by blast
  qed
qed

theorem every_write_authorised_witness:
  "\<exists>ep ps. authorised sample_server ep ps register_request [] (sample_world empty_db)"
proof -
  have "w_db (snd (serve sample_server register_request ''/form-respondent-role/register'' [] (sample_world empty_db)))
      \<noteq> w_db (sample_world empty_db)"
    using sample_registered by (auto simp: sample_world_def empty_db_def)
  from every_write_authorised [OF this] show ?thesis by blast
qed

end
