(* ===== verification/Stack.thy ===== *)
theory Stack
  imports Router
begin

text \<open>
  The layers \<open>main\<close> puts around the router, outermost first: compression, the security headers, the
  per-address rate limiter, CORS, and the request id; tracing and the redaction of headers for
  it change no reply. The layers of \<open>tower\<close> crates are parameters (\<open>layers\<close>): what the limiter answers
  when it refuses, which requests CORS answers itself and which headers each of them adds. Their
  order, the origins CORS gets and the \<open>connection: close\<close> of a refusal are the code's. A reply keeps
  its status, its headers and what it says.
\<close>

subsection \<open>A reply on the wire\<close>

definition html_type :: "str \<times> str" where "html_type = (''content-type'', ''text/html; charset=utf-8'')"

fun reply_status :: "(reply \<Rightarrow> nat) \<Rightarrow> reply \<Rightarrow> nat" where
  "reply_status rejects (Json r) = r_status r"
| "reply_status rejects (AdminHtml p) = ap_status p"
| "reply_status rejects (DweebReply p) = dp_status p"
| "reply_status rejects NotFound = 404"
| "reply_status rejects MethodNotAllowed = 405"
| "reply_status rejects Rejected = rejects Rejected"
| "reply_status rejects _ = 200"

fun reply_headers :: "reply \<Rightarrow> (str \<times> str) list" where
  "reply_headers (Json r) = or_insert ''content-type'' ''application/json'' (r_headers r)"
| "reply_headers (AdminHtml p) = ap_headers p"
| "reply_headers (FormHtml _) = [html_type]"
| "reply_headers (DoneHtml _) = [html_type]"
| "reply_headers (CsvFile c) = [(''content-type'', ''text/csv; charset=utf-8''), (''content-disposition'', cf_disposition c)]"
| "reply_headers (DweebReply p) = dp_headers p"
| "reply_headers (RespondentsHtml p) = tp_headers p"
| "reply_headers FaviconIco = [(''content-type'', ''image/x-icon''), (''cache-control'', ''public, max-age=2592000, immutable'')]"
| "reply_headers _ = []"

datatype content = Handled reply | Throttled | Preflight

record wire =
  wi_status :: nat
  wi_headers :: "(str \<times> str) list"
  wi_content :: content

subsection \<open>The layers\<close>

record layers =
  ly_refuses :: "world \<Rightarrow> request \<Rightarrow> (nat \<times> (str \<times> str) list) option"
  ly_preflight :: "request \<Rightarrow> bool"
  ly_cors :: "str list \<Rightarrow> request \<Rightarrow> (str \<times> str) list"
  ly_new_id :: "nat \<Rightarrow> str"
  ly_compress :: "request \<Rightarrow> (str \<times> str) list \<Rightarrow> (str \<times> str) list"
  ly_rejects :: "reply \<Rightarrow> nat"

text \<open>\<open>HeaderMap::insert\<close> replaces.\<close>

definition set_header :: "str \<Rightarrow> str \<Rightarrow> (str \<times> str) list \<Rightarrow> (str \<times> str) list" where
  "set_header name v hs = filter (\<lambda>h. fst h \<noteq> name) hs @ [(name, v)]"

definition request_id :: str where "request_id = ''x-request-id''"

text \<open>A fresh id unless the proxy sent one; it is echoed in the reply.\<close>

definition with_request_id :: "layers \<Rightarrow> nat \<Rightarrow> request \<Rightarrow> request" where
  "with_request_id L t rq = rq\<lparr>rq_headers := or_insert request_id (ly_new_id L t) (rq_headers rq)\<rparr>"

definition echo_request_id :: "request \<Rightarrow> (str \<times> str) list \<Rightarrow> (str \<times> str) list" where
  "echo_request_id rq hs = (case map_of (rq_headers rq) request_id of None \<Rightarrow> hs | Some v \<Rightarrow> or_insert request_id v hs)"

definition inner_app :: "layers \<Rightarrow> server \<Rightarrow> request \<Rightarrow> str \<Rightarrow> str \<Rightarrow> world \<Rightarrow> wire \<times> world" where
  "inner_app L V rq path body w =
     (if ly_preflight L rq then (\<lparr>wi_status = 200, wi_headers = ly_cors L (st_origins (sv_site V)) rq, wi_content = Preflight\<rparr>, w)
      else let rq' = with_request_id L (w_tick w) rq in
        (case serve V rq' path body w of (r, w') \<Rightarrow>
          (\<lparr>wi_status = reply_status (ly_rejects L) r,
            wi_headers = echo_request_id rq' (reply_headers r) @ ly_cors L (st_origins (sv_site V)) rq,
            wi_content = Handled r\<rparr>, w')))"

definition rate_limited :: "layers \<Rightarrow> server \<Rightarrow> request \<Rightarrow> str \<Rightarrow> str \<Rightarrow> world \<Rightarrow> wire \<times> world" where
  "rate_limited L V rq path body w = (case ly_refuses L w rq of
       Some (st, hs) \<Rightarrow> (\<lparr>wi_status = st, wi_headers = set_header ''connection'' ''close'' hs, wi_content = Throttled\<rparr>, w)
     | None \<Rightarrow> inner_app L V rq path body w)"

definition app :: "layers \<Rightarrow> server \<Rightarrow> request \<Rightarrow> str \<Rightarrow> str \<Rightarrow> world \<Rightarrow> wire \<times> world" where
  "app L V rq path body w = (case rate_limited L V rq path body w of (resp, w') \<Rightarrow>
     (resp\<lparr>wi_headers := ly_compress L rq (baseline_headers (wi_headers resp))\<rparr>, w'))"

subsection \<open>Who may frame a page\<close>

definition csp :: str where "csp = ''content-security-policy''"

definition framed_by_dashboard :: "site \<Rightarrow> admin_page \<Rightarrow> bool" where
  "framed_by_dashboard S p \<longleftrightarrow> map_of (ap_headers p) csp = Some (admin_iframe_csp (st_dashboard S))"

lemma admin_html_framed [simp]: "framed_by_dashboard S (admin_html S st b c)"
  by (simp add: framed_by_dashboard_def admin_html_def csp_def)

lemma error_pages_framed [simp]:
  "framed_by_dashboard S (admin_signin_page S)" "framed_by_dashboard S (render_access_denied S m)"
  "framed_by_dashboard S (render_iframe_error S m)" "framed_by_dashboard S (role_config_html S g r t ro)"
  by (simp_all add: admin_signin_page_def render_access_denied_def render_iframe_error_def role_config_html_def)

lemma manager_page_framed: "require_manager_html E S cookie g w = (Inl p, w') \<Longrightarrow> framed_by_dashboard S p"
  by (auto simp: require_manager_html_def split: option.splits prod.splits sum.splits app_error.splits)

lemma read_only_page_framed: "check_read_only_page_entry S now g ifs = Inl p \<Longrightarrow> framed_by_dashboard S p"
  by (auto simp: check_read_only_page_entry_def split: option.splits if_splits)

lemma iframe_page_framed: "verify_iframe_entry E S g r t w = (Inl p, w') \<Longrightarrow> framed_by_dashboard S p"
  by (auto simp: verify_iframe_entry_def split: option.splits prod.splits sum.splits if_splits)

lemma guild_page_framed: "framed_by_dashboard S (fst (guild_page E S template fill cookie g ifs w))"
  using manager_page_framed read_only_page_framed
  by (auto simp: guild_page_def Let_def split: sum.split prod.split)

lemma admin_pages_framed:
  "framed_by_dashboard S (fst (list_page E S cookie g ifs w))" "framed_by_dashboard S (fst (builder_page E S i cookie g ifs w))"
  "framed_by_dashboard S (fst (responses_page E S i cookie g ifs w))"
  "framed_by_dashboard S (fst (role_config_page E S cookie g r t w))"
  using manager_page_framed iframe_page_framed
  by (auto simp: list_page_def builder_page_def responses_page_def guild_page_framed role_config_page_def split: sum.split prod.split)

text \<open>The policy a reply has to end up with.\<close>

fun frame_policy :: "server \<Rightarrow> content \<Rightarrow> str" where
  "frame_policy V (Handled (AdminHtml p)) = admin_iframe_csp (st_dashboard (sv_site V))"
| "frame_policy V (Handled (DweebReply p)) = (case dp_body p of
      PickerTemplate _ \<Rightarrow> ''frame-ancestors '' @ str_join [CHR 0x20] (ac_dweeb_embed_origins (sv_config V))
    | _ \<Rightarrow> public_page_csp)"
| "frame_policy V _ = public_page_csp"

definition framed :: "server \<Rightarrow> reply \<Rightarrow> bool" where
  "framed V r \<longleftrightarrow> unwrap_or (map_of (reply_headers r) csp) public_page_csp = frame_policy V (Handled r)"

lemma json_framed: "map_of (r_headers r) csp = None \<Longrightarrow> framed V (Json r)"
  by (simp add: framed_def or_insert_map csp_def)

lemma csp_ne: "csp \<noteq> ''retry-after''" "csp \<noteq> request_id"
  by (simp_all add: csp_def request_id_def)

lemma error_headers [simp]: "map_of (r_headers (error_response st m)) csp = None" "map_of (r_headers (json_response st ms)) csp = None"
  by (simp_all add: error_response_def json_response_def)

lemma error_framed [simp]: "framed V (Json (into_response e))"
  by (rule json_framed, cases e) (auto simp: classify_db_error_def csp_ne Let_def split: db_error.split)

lemma plain_framed [simp]:
  "framed V (Json (json_ok v))" "framed V (FormHtml f)" "framed V (DoneHtml d)" "framed V (CsvFile c)"
  "framed V FaviconIco" "framed V NotFound" "framed V MethodNotAllowed" "framed V Rejected"
  "framed V (RespondentsHtml (respondents_page shell S))" "framed V (Json (ready b))"
  "framed V (Json (probe_json st cache j))" "framed V (Json read_only_refusal)"
  by (auto simp: framed_def csp_def json_ok_def html_type_def respondents_page_def or_insert_def ready_def
      probe_json_def read_only_refusal_def error_response_def json_response_def)

lemma admin_framed: "framed_by_dashboard (sv_site V) p \<Longrightarrow> framed V (AdminHtml p)"
  by (simp add: framed_by_dashboard_def framed_def)

lemma dweeb_framed [simp]: "framed V (DweebReply (picker_page (sv_config V) S))" "framed V (DweebReply (bridge_html st t b))"
  "framed V (DweebReply (redirect_to_login S g))"
  by (simp_all add: framed_def csp_def picker_page_def bridge_html_def redirect_to_login_def)

definition serves :: "(reply \<Rightarrow> bool) \<Rightarrow> serving \<Rightarrow> bool" where
  "serves P m \<longleftrightarrow> (\<forall>w. P (fst (m w)))"

lemma serves_served: "(\<And>x. P (f x)) \<Longrightarrow> (\<And>e. P (Json (into_response e))) \<Longrightarrow> serves P (served f m)"
  by (auto simp: serves_def served_def split: prod.split sum.split)

lemma serves_extracted: "P Rejected \<Longrightarrow> (\<And>a. serves P (k a)) \<Longrightarrow> serves P (extracted x k)"
  by (auto simp: serves_def extracted_def split: option.split)

lemma serves_page: "(\<And>w. P (f (fst (m w)))) \<Longrightarrow> serves P (page_of f m)"
  by (auto simp: serves_def page_of_def split: prod.split) (metis fst_conv)

lemma serves_Pair: "P r \<Longrightarrow> serves P (Pair r)"
  by (simp add: serves_def)

lemmas serves_rules = serves_served serves_extracted serves_page serves_Pair

lemma probe_framed: "framed V (Json (fst (dweeb_status E g w)))"
  by (auto simp: dweeb_status_def split: option.split prod.split sum.split)

lemma bridge_framed: "framed V (DweebReply (fst (bridge E S cookie g w)))"
  by (auto simp: bridge_def Let_def split: option.split prod.split sum.split)

lemma health_framed: "framed V (Json (fst (health F E S w)))"
  by (auto simp: health_def Let_def intro!: json_framed split: prod.split)

lemma endpoint_framed: "serves (framed V) (run_endpoint V ep ps rq body)"
  by (cases ep) (auto simp: run_endpoint_def Let_def admin_framed admin_pages_framed probe_framed bridge_framed health_framed
      intro!: serves_rules split: prod.split)

lemma serve_framed: "framed V (fst (serve V rq path body w))"
proof -
  have "framed V (fst (extracted x (\<lambda>ps. run_endpoint V ep ps rq body) w))" for x :: "str list option" and ep
    using serves_extracted [of "framed V" "\<lambda>ps. run_endpoint V ep ps rq body" x] endpoint_framed by (simp add: serves_def)
  then show ?thesis by (auto simp: serve_def split: option.split target.split)
qed

subsection \<open>Properties\<close>

definition security_headers :: "str list" where
  "security_headers = [csp, ''x-content-type-options'', ''referrer-policy'', ''strict-transport-security'']"

text \<open>The layers of the crates leave the security headers alone.\<close>

definition quiet_layers :: "layers \<Rightarrow> bool" where
  "quiet_layers L \<longleftrightarrow> (\<forall>k \<in> set security_headers.
     (\<forall>origins rq. map_of (ly_cors L origins rq) k = None)
     \<and> (\<forall>rq hs. map_of (ly_compress L rq hs) k = map_of hs k)
     \<and> (\<forall>w rq st hs. ly_refuses L w rq = Some (st, hs) \<longrightarrow> map_of hs k = None))"

lemma echo_other: "k \<noteq> request_id \<Longrightarrow> map_of (echo_request_id rq hs) k = map_of hs k"
  by (auto simp: echo_request_id_def or_insert_map split: option.split)

lemma map_of_filter_ne: "k \<noteq> name \<Longrightarrow> map_of (filter (\<lambda>h. fst h \<noteq> name) hs) k = map_of hs k"
  by (induction hs) auto

lemma map_of_filter_same: "map_of (filter (\<lambda>h. fst h \<noteq> name) hs) name = None"
  by (induction hs) auto

lemma set_header_other: "k \<noteq> name \<Longrightarrow> map_of (set_header name v hs) k = map_of hs k"
  by (simp add: set_header_def map_add_def map_of_filter_ne split: option.split)

text \<open>Before the outer layers the policy is the one of the content, or none.\<close>

lemma inner_policy:
  assumes "quiet_layers L" and "rate_limited L V rq path body w = (resp, w')"
  shows "unwrap_or (map_of (wi_headers resp) csp) public_page_csp = frame_policy V (wi_content resp)
    \<and> ((\<forall>r. wi_content resp \<noteq> Handled r) \<longrightarrow> w' = w)"
proof (cases "ly_refuses L w rq")
  case (Some p)
  obtain st hs where p: "p = (st, hs)" by (cases p)
  then have "map_of hs csp = None" using assms(1) Some unfolding quiet_layers_def security_headers_def by auto
  moreover have "csp \<noteq> ''connection''" by (simp add: csp_def)
  ultimately have "map_of (set_header ''connection'' ''close'' hs) csp = None" by (simp add: set_header_other)
  then show ?thesis using assms(2) Some p by (auto simp: rate_limited_def)
next
  case None
  have cors: "map_of (ly_cors L origins rq) csp = None" for origins
    using assms(1) unfolding quiet_layers_def security_headers_def by auto
  show ?thesis
  proof (cases "ly_preflight L rq")
    case True
    then show ?thesis using assms(2) None cors by (auto simp: rate_limited_def inner_app_def)
  next
    case False
    let ?rq = "with_request_id L (w_tick w) rq"
    obtain r w1 where r: "serve V ?rq path body w = (r, w1)" by (cases "serve V ?rq path body w")
    then have "framed V r" using serve_framed [of V ?rq path body w] by simp
    moreover have "map_of (echo_request_id ?rq (reply_headers r) @ ly_cors L (st_origins (sv_site V)) rq) csp = map_of (reply_headers r) csp"
      using cors by (simp add: echo_other csp_ne map_add_def split: option.split)
    ultimately show ?thesis using assms(2) None False r by (auto simp: rate_limited_def inner_app_def framed_def)
  qed
qed

text \<open>C8: every reply, of any route, of an error, of the rate limiter or to a preflight, carries the
  security headers, and may be framed by no page; only an administrative page may be, by the
  dashboard, and the form picker, by the DWEEB origins. A request no handler saw changed nothing.\<close>

theorem framing_restricted:
  assumes "quiet_layers L" and "app L V rq path body w = (resp, w')"
  shows "map_of (wi_headers resp) csp = Some (frame_policy V (wi_content resp))
    \<and> (\<forall>k \<in> set security_headers. map_of (wi_headers resp) k \<noteq> None)
    \<and> ((\<forall>r. wi_content resp \<noteq> Handled r) \<longrightarrow> w' = w)"
proof -
  obtain r0 where r0: "rate_limited L V rq path body w = (r0, w')"
    and resp: "resp = r0\<lparr>wi_headers := ly_compress L rq (baseline_headers (wi_headers r0))\<rparr>"
    using assms(2) by (auto simp: app_def split: prod.splits)
  have outer: "map_of (wi_headers resp) k = map_of (baseline_headers (wi_headers r0)) k" if "k \<in> set security_headers" for k
    using assms(1) that resp unfolding quiet_layers_def by simp
  have "map_of (wi_headers resp) csp = Some (unwrap_or (map_of (wi_headers r0) csp) public_page_csp)"
    using outer [of csp] by (simp add: baseline_headers_map security_headers_def csp_def split: option.split)
  moreover have "map_of (wi_headers resp) k \<noteq> None" if "k \<in> set security_headers" for k
    using outer [OF that] that by (auto simp: baseline_headers_map security_headers_def csp_def split: option.splits)
  ultimately show ?thesis using inner_policy [OF assms(1) r0] resp by auto
qed

text \<open>The limiter refuses before any other layer, and says that the connection closes.\<close>

lemma throttled_closes:
  assumes "ly_refuses L w rq = Some (st, hs)"
  shows "rate_limited L V rq path body w =
    (\<lparr>wi_status = st, wi_headers = set_header ''connection'' ''close'' hs, wi_content = Throttled\<rparr>, w)"
    and "map_of (set_header ''connection'' ''close'' hs) ''connection'' = Some ''close''"
  using assms by (simp_all add: rate_limited_def set_header_def map_add_def map_of_filter_same)

definition sample_layers :: layers where
  "sample_layers = \<lparr>ly_refuses = (\<lambda>_ _. None), ly_preflight = (\<lambda>rq. rq_method rq = ''OPTIONS''),
     ly_cors = (\<lambda>_ _. [(''vary'', ''origin'')]), ly_new_id = show_nat, ly_compress = (\<lambda>_ hs. hs), ly_rejects = (\<lambda>_. 400)\<rparr>"

lemma sample_quiet: "quiet_layers sample_layers"
  by (simp add: quiet_layers_def security_headers_def csp_def sample_layers_def)

lemma picker_dispatch: "nested_segments ''/form-respondent-role/dweeb/picker'' = Some [''dweeb'', ''picker'']"
  "dispatch ''GET'' [''dweeb'', ''picker''] = Endpoint DweebPicker []"
  by code_simp+

theorem framing_restricted_witness:
  "\<exists>resp w'. app sample_layers sample_server (sample_request ''GET'' [] None) ''/form-respondent-role/dweeb/picker'' [] form_world = (resp, w')
    \<and> map_of (wi_headers resp) csp = Some ''frame-ancestors ''"
proof -
  let ?rq = "sample_request ''GET'' [] None"
  obtain resp w' where a: "app sample_layers sample_server ?rq ''/form-respondent-role/dweeb/picker'' [] form_world = (resp, w')"
    by (metis surj_pair)
  have "serve sample_server (with_request_id sample_layers t ?rq) ''/form-respondent-role/dweeb/picker'' [] form_world
      = (DweebReply (picker_page (sv_config sample_server) (sv_site sample_server)), form_world)" for t
    by (simp add: serve_def picker_dispatch with_request_id_def sample_request_def writes_blocked_def safe_methods_def
        extracted_def run_endpoint_def Let_def)
  then have "wi_content resp = Handled (DweebReply (picker_page (sv_config sample_server) (sv_site sample_server)))"
    using a by (auto simp: app_def rate_limited_def inner_app_def sample_layers_def Let_def sample_request_def)
  then show ?thesis
    using framing_restricted [OF sample_quiet a] a by (auto simp: picker_page_def sample_server_def)
qed

end
