(* ===== verification/Listener.thy ===== *)
theory Listener
  imports Worker
begin

text \<open>
  \<open>tasks/job_listener.rs\<close>: the task that turns notifications of the database into wakes of the idle
  workers. The connection is a third party: an event says how each of its awaits ends. A wake
  reaches the workers that are waiting at that moment (\<open>Notified\<close> in \<open>run_worker\<close>) and is counted here.
\<close>

datatype listener_phase = Outer | Pausing | Subscribed | Stopped

datatype listener_event =
    Attempt bool bool  \<comment> \<open>the top of the loop: connecting and listening succeed or not\<close>
  | Slept
  | Shut  \<comment> \<open>the shutdown branch of a \<open>select!\<close> wins\<close>
  | Notification
  | Broken

record listener =
  li_phase :: listener_phase
  li_received :: nat
  li_wakes :: nat

text \<open>\<open>shutdown.wait()\<close> is over once a signal is unread, lagged behind or not.\<close>

definition on_shutdown :: "nat \<Rightarrow> listener \<Rightarrow> listener" where
  "on_shutdown sent s =
     (if li_received s < sent
      then s\<lparr>li_phase := Stopped, li_received := snd (is_triggered sent (li_received s))\<rparr> else s)"

definition attempt_connection :: "nat \<Rightarrow> bool \<Rightarrow> bool \<Rightarrow> listener \<Rightarrow> listener" where
  "attempt_connection sent connects listens s =
     (case is_triggered sent (li_received s) of
        (True, r) \<Rightarrow> s\<lparr>li_phase := Stopped, li_received := r\<rparr>
      | (False, r) \<Rightarrow> s\<lparr>li_phase := (if connects \<and> listens then Subscribed else Pausing), li_received := r\<rparr>)"

definition listener_step :: "nat \<Rightarrow> listener_event \<Rightarrow> listener \<Rightarrow> listener" where
  "listener_step sent ev s = (case (li_phase s, ev) of
       (Outer, Attempt c l) \<Rightarrow> attempt_connection sent c l s
     | (Pausing, Slept) \<Rightarrow> s\<lparr>li_phase := Outer\<rparr>
     | (Pausing, Shut) \<Rightarrow> on_shutdown sent s
     | (Subscribed, Notification) \<Rightarrow> s\<lparr>li_wakes := li_wakes s + 1\<rparr>
     | (Subscribed, Broken) \<Rightarrow> s\<lparr>li_phase := Outer\<rparr>
     | (Subscribed, Shut) \<Rightarrow> on_shutdown sent s
     | _ \<Rightarrow> s)"

text \<open>Each event comes with the number of signals sent by then.\<close>

fun run_listener :: "(nat \<times> listener_event) list \<Rightarrow> listener \<Rightarrow> listener" where
  "run_listener [] s = s"
| "run_listener ((sent, ev) # evs) s = run_listener evs (listener_step sent ev s)"

text \<open>Unlike a worker, the listener never uses up a signal without stopping.\<close>

lemma listener_step_keeps_signal:
  assumes "li_received s < sent" and "sent \<le> sent'"
  shows "li_phase (listener_step sent' ev s) = Stopped \<or> li_received (listener_step sent' ev s) < sent'"
  using assms by (auto simp: listener_step_def attempt_connection_def on_shutdown_def is_triggered_def
      split: listener_phase.split listener_event.split)

lemma stopped_stays: "li_phase s = Stopped \<Longrightarrow> run_listener evs s = s"
  by (induction evs) (auto simp: listener_step_def)

lemma listener_keeps_signal:
  assumes "li_received s < sent" and "sorted_wrt (\<le>) (sent # map fst evs)"
  shows "li_phase (run_listener evs s) = Stopped \<or> li_received (run_listener evs s) < last (sent # map fst evs)"
  using assms
proof (induction evs arbitrary: s sent)
  case (Cons e evs)
  obtain sent' ev where e: "e = (sent', ev)" by (cases e)
  have "li_phase (listener_step sent' ev s) = Stopped \<or> li_received (listener_step sent' ev s) < sent'"
    using listener_step_keeps_signal Cons.prems e by simp
  then show ?case using Cons.IH [of "listener_step sent' ev s" sent'] Cons.prems(2) stopped_stays e by auto
qed simp

text \<open>The wait of a pause or of a subscription ends it; so does the next round, unless the guard lagged.\<close>

lemma listener_stops:
  assumes "li_received s < sent"
  shows "li_phase s \<in> {Pausing, Subscribed} \<Longrightarrow> li_phase (listener_step sent Shut s) = Stopped"
    and "li_phase s = Outer \<Longrightarrow> sent = li_received s + 1 \<Longrightarrow> li_phase (listener_step sent (Attempt c l) s) = Stopped"
  using assms by (auto simp: listener_step_def attempt_connection_def on_shutdown_def is_triggered_def)

text \<open>A notification that arrives while it is not subscribed is lost; the workers' poll makes up for it.\<close>

lemma unsubscribed_loses: "li_phase s \<noteq> Subscribed \<Longrightarrow> listener_step sent Notification s = s"
  by (simp add: listener_step_def split: listener_phase.split)

end
