(* ===== verification/Lifecycle.thy ===== *)
theory Lifecycle
  imports Router Listener
begin

text \<open>
  The life of a replica, \<open>main.rs\<close> and \<open>tasks/shutdown.rs\<close>: the tasks \<open>main\<close> starts (the HTTP server, the
  job listener, the workers), the one task that waits for the OS signal, and \<open>main\<close> waiting for all
  of them. What matters of a task is where it looks at its shutdown guard. The workers and the listener
  subscribe before the signal task is spawned, the server after it, and a guard gets only what is
  sent after it was made. Draining of open connections is part of the server's end; no task panics.
\<close>

subsection \<open>The start\<close>

text \<open>
  \<open>db.rs\<close>: the migrations, in order at every start. The effect of a migration's SQL is a
  parameter, as is the pool.
\<close>

definition migration_ids :: "str list" where
  "migration_ids = [''001'', ''002'', ''003'', ''004'', ''005'', ''006'', ''007'', ''008'', ''009'', ''010'']"

fun run_migrations :: "(str \<Rightarrow> 'd \<Rightarrow> (str, 'd) result) \<Rightarrow> str list \<Rightarrow> 'd \<Rightarrow> str option \<times> 'd" where
  "run_migrations sql [] d = (None, d)"
| "run_migrations sql (i # is) d = (case sql i d of
       Inl e \<Rightarrow> (Some (''Migration '' @ i @ '' failed: '' @ e), d)
     | Inr d' \<Rightarrow> run_migrations sql is d')"

text \<open>\<open>main\<close> up to the first task: a panic, the end of the \<open>migrate\<close> command, or the tasks to start.\<close>

datatype 'd start_outcome = Panicked str 'd | Migrated 'd | Serving app_config "str list" 'd

definition start_main :: "(str \<Rightarrow> str option) \<Rightarrow> (app_config \<Rightarrow> str option) \<Rightarrow> (str \<Rightarrow> 'd \<Rightarrow> (str, 'd) result)
    \<Rightarrow> str list \<Rightarrow> 'd \<Rightarrow> 'd start_outcome" where
  "start_main env pool_error sql args d = (case from_env env of
       Inl e \<Rightarrow> Panicked e d
     | Inr c \<Rightarrow> (case pool_error c of
         Some e \<Rightarrow> Panicked e d
       | None \<Rightarrow> (case run_migrations sql migration_ids d of
           (Some e, d') \<Rightarrow> Panicked e d'
         | (None, d') \<Rightarrow>
             if (case args of _ # a # _ \<Rightarrow> a = ''migrate'' | _ \<Rightarrow> False) then Migrated d'
             else Serving c (worker_ids c) d')))"

text \<open>A start over tables at which every migration has nothing left to do changes nothing.\<close>

lemma run_migrations_noop: "(\<And>i. i \<in> set is \<Longrightarrow> sql i d = Inr d) \<Longrightarrow> run_migrations sql is d = (None, d)"
  by (induction "is") auto

lemma run_migrations_fails: "run_migrations sql is d = (Some e, d') \<Longrightarrow>
    \<exists>done i rest m. is = done @ i # rest \<and> run_migrations sql done d = (None, d') \<and> sql i d' = Inl m
      \<and> e = ''Migration '' @ i @ '' failed: '' @ m"
proof (induction "is" arbitrary: d)
  case (Cons i "is")
  show ?case
  proof (cases "sql i d")
    case (Inl m)
    then show ?thesis using Cons.prems by (intro exI [of _ "[]"] exI [of _ i] exI [of _ "is"] exI [of _ m]) simp
  next
    case (Inr d1)
    then obtain dn j rest m where "is = dn @ j # rest" "run_migrations sql dn d1 = (None, d')" "sql j d' = Inl m"
      "e = ''Migration '' @ j @ '' failed: '' @ m" using Cons by fastforce
    then show ?thesis using Inr by (intro exI [of _ "i # dn"] exI [of _ j] exI [of _ rest] exI [of _ m]) simp
  qed
qed simp

text \<open>Tasks run only over fully migrated tables.\<close>

lemma serving_migrated: "start_main env pool_error sql args d = Serving c ws d' \<Longrightarrow>
    from_env env = Inr c \<and> run_migrations sql migration_ids d = (None, d') \<and> ws = worker_ids c"
  by (auto simp: start_main_def split: sum.splits option.splits prod.splits if_splits list.splits)

subsection \<open>A worker, seen from its guard\<close>

text \<open>\<open>run\<close> of \<open>tasks/job_worker.rs\<close>: at the top of the loop or idle, inside a batch, or returned. The
  number is that of the signals received.\<close>

datatype worker_task = At_top nat | In_batch nat | Returned

inductive task_step :: "nat \<Rightarrow> worker_task \<Rightarrow> worker_task \<Rightarrow> bool" for sent where
  top_stop: "is_triggered sent r = (True, r') \<Longrightarrow> task_step sent (At_top r) Returned"
| top_idle: "is_triggered sent r = (False, r') \<Longrightarrow> task_step sent (At_top r) (At_top r')"
| top_claim: "is_triggered sent r = (False, r') \<Longrightarrow> task_step sent (At_top r) (In_batch r')"
| woken: "r < sent \<Longrightarrow> task_step sent (At_top r) Returned"
| job: "task_step sent (In_batch r) (In_batch (snd (is_triggered sent r)))"
| batch_done: "task_step sent (In_batch r) (At_top r)"

inductive_cases task_stepE: "task_step sent t t'"

text \<open>The steps of a turn, the signals counted at each statement.\<close>

abbreviation task_run :: "(nat \<Rightarrow> nat) \<Rightarrow> worker_task \<Rightarrow> worker_task \<Rightarrow> bool" where
  "task_run sent \<equiv> (\<lambda>x y. \<exists>t. task_step (sent t) x y)\<^sup>*\<^sup>*"

lemma task_run1: "task_step (sent t) x y \<Longrightarrow> task_run sent x y"
  by (rule r_into_rtranclp) blast

lemma process_job_task: "process_job E S sent j (r, w) = (h, r', w') \<Longrightarrow> task_run sent (In_batch r) (In_batch r')"
proof -
  assume "process_job E S sent j (r, w) = (h, r', w')"
  then have "r' = snd (is_triggered (sent (w_tick w)) r)"
    by (auto simp: process_job_def split: prod.splits bool.splits)
  then show ?thesis using task_run1 [of sent "w_tick w", OF job] by simp
qed

lemma process_batch_task: "process_batch E S sent js (r, w) = (hs, r', w') \<Longrightarrow> task_run sent (In_batch r) (In_batch r')"
proof (induction js arbitrary: r w hs)
  case (Cons j js)
  obtain h r1 w1 where j: "process_job E S sent j (r, w) = (h, r1, w1)" by (metis prod_cases3)
  obtain hs1 where "process_batch E S sent js (r1, w1) = (hs1, r', w')"
    using Cons.prems j by (auto split: prod.splits)
  from Cons.IH [OF this] process_job_task [OF j] show ?case by simp
qed simp

lemma await_more_task: "await_more c tn s = (stop, s') \<Longrightarrow>
    (stop \<and> ws_received s < c) \<or> (\<not> stop \<and> s' = s)"
  by (auto simp: await_more_def split: if_splits)

text \<open>A turn of the worker's loop is a run of its guard.\<close>

lemma worker_turn_task:
  assumes "worker_turn E S sent worker_id tn s = (stop, s')"
  shows "task_run sent (At_top (ws_received s)) (if stop then Returned else At_top (ws_received s'))"
proof -
  let ?s = "s\<lparr>ws_world := (ws_world s)\<lparr>w_now := tn_now tn\<rparr>\<rparr>"
  obtain b r where g: "is_triggered (sent (w_tick (ws_world ?s))) (ws_received s) = (b, r)" by (metis surj_pair)
  show ?thesis
  proof (cases b)
    case True
    then have "stop" using assms g by (auto simp: worker_turn_def Let_def)
    moreover have "task_run sent (At_top (ws_received s)) Returned" using task_run1 [of sent "w_tick (ws_world ?s)", OF top_stop] g True by simp
    ultimately show ?thesis by simp
  next
    case False
    let ?s1 = "reap_due E (?s\<lparr>ws_received := r\<rparr>)"
    have r: "ws_received ?s1 = r" by (simp add: reap_due_def)
    obtain x w where c: "claim_jobs E worker_id (tn_busy tn) (ws_world ?s1) = (x, w)" by (metis surj_pair)
    have g: "is_triggered (sent (w_tick (ws_world ?s))) (ws_received s) = (False, r)" using g False by simp
    have idle: "task_run sent (At_top (ws_received s)) (At_top r)" by (rule task_run1 [of sent "w_tick (ws_world ?s)", OF top_idle [OF g]])
    show ?thesis
    proof (cases "\<exists>j js. x = Inr (j # js)")
      case True
      then obtain j js hs r' w' where b: "process_batch E S sent (j # js) (r, w) = (hs, r', w')" and x: "x = Inr (j # js)"
        by (metis prod_cases3)
      then have s': "\<not> stop" "ws_received s' = r'" using assms g False c r by (auto simp: worker_turn_def Let_def)
      have "task_run sent (At_top (ws_received s)) (In_batch r)" by (rule task_run1 [of sent "w_tick (ws_world ?s)", OF top_claim [OF g]])
      also have "task_run sent \<dots> (In_batch r')" by (rule process_batch_task [OF b])
      also have "task_run sent \<dots> (At_top r')" by (rule task_run1 [of sent 0, OF batch_done])
      finally show ?thesis using s' by simp
    next
      case no: False
      then have "await_more (sent (w_tick w)) tn (?s1\<lparr>ws_world := w\<rparr>) = (stop, s')"
        using assms g False c by (cases x) (auto simp: worker_turn_def Let_def split: list.splits)
      from await_more_task [OF this] r consider "stop" "r < sent (w_tick w)" | "\<not> stop" "ws_received s' = r" by auto
      then show ?thesis
      proof cases
        case 1
        then have "task_run sent (At_top r) Returned" by (intro task_run1 [of sent "w_tick w", OF woken])
        then show ?thesis using idle 1 by auto
      qed (use idle in simp)
    qed
  qed
qed

subsection \<open>The replica\<close>

text \<open>The server before it subscribes; serving, with the number of signals its guard is past; and after
  \<open>axum::serve\<close> has returned.\<close>

datatype server_task = Unsubscribed | Serves nat | Served

record replica =
  rp_draining :: bool  \<comment> \<open>read by \<open>/ready\<close>\<close>
  rp_sent :: nat  \<comment> \<open>the shutdown signals sent\<close>
  rp_http :: server_task
  rp_listener :: listener
  rp_workers :: "worker_task list"

text \<open>When the signal task has been spawned.\<close>

definition replica_start :: "nat \<Rightarrow> replica" where
  "replica_start n = \<lparr>rp_draining = False, rp_sent = 0, rp_http = Unsubscribed,
     rp_listener = \<lparr>li_phase = Outer, li_received = 0, li_wakes = 0\<rparr>, rp_workers = replicate n (At_top 0)\<rparr>"

text \<open>The signal task sets the flag and then fires, once each; the server waits for its first signal.\<close>

inductive life_step :: "replica \<Rightarrow> replica \<Rightarrow> bool" where
  drain: "\<not> rp_draining s \<Longrightarrow> life_step s (s\<lparr>rp_draining := True\<rparr>)"
| trigger: "rp_draining s \<Longrightarrow> rp_sent s = 0 \<Longrightarrow> life_step s (s\<lparr>rp_sent := 1\<rparr>)"
| subscribe: "rp_http s = Unsubscribed \<Longrightarrow> life_step s (s\<lparr>rp_http := Serves (rp_sent s)\<rparr>)"
| http_end: "rp_http s = Serves r \<Longrightarrow> r < rp_sent s \<Longrightarrow> life_step s (s\<lparr>rp_http := Served\<rparr>)"
| listen: "life_step s (s\<lparr>rp_listener := listener_step (rp_sent s) ev (rp_listener s)\<rparr>)"
| work: "i < length (rp_workers s) \<Longrightarrow> task_step (rp_sent s) (rp_workers s ! i) t \<Longrightarrow>
    life_step s (s\<lparr>rp_workers := (rp_workers s)[i := t]\<rparr>)"

abbreviation life_run :: "replica \<Rightarrow> replica \<Rightarrow> bool" where "life_run \<equiv> life_step\<^sup>*\<^sup>*"

text \<open>\<open>main\<close> returns once the server, every worker and the listener have.\<close>

definition main_returns :: "replica \<Rightarrow> bool" where
  "main_returns s \<longleftrightarrow> rp_http s = Served \<and> list_all (\<lambda>t. t = Returned) (rp_workers s) \<and> li_phase (rp_listener s) = Stopped"

subsection \<open>What every state satisfies\<close>

text \<open>A task that has not returned has read no more signals than were sent; only a worker reads one and goes on.\<close>

fun task_ok :: "nat \<Rightarrow> worker_task \<Rightarrow> bool" where
  "task_ok sent (At_top r) = (r \<le> sent)"
| "task_ok sent (In_batch r) = (r \<le> sent)"
| "task_ok sent Returned = (0 < sent)"

definition listener_ok :: "nat \<Rightarrow> listener \<Rightarrow> bool" where
  "listener_ok sent l \<longleftrightarrow> (if li_phase l = Stopped then 0 < sent else li_received l = 0)"

fun server_ok :: "nat \<Rightarrow> server_task \<Rightarrow> bool" where
  "server_ok sent Unsubscribed = True"
| "server_ok sent (Serves r) = (r \<le> sent)"
| "server_ok sent Served = (0 < sent)"

definition life_ok :: "replica \<Rightarrow> bool" where
  "life_ok s \<longleftrightarrow> rp_sent s \<le> 1 \<and> (0 < rp_sent s \<longrightarrow> rp_draining s) \<and> server_ok (rp_sent s) (rp_http s)
     \<and> listener_ok (rp_sent s) (rp_listener s)
     \<and> list_all (task_ok (rp_sent s)) (rp_workers s)"

lemma task_step_ok: "task_step sent t t' \<Longrightarrow> sent \<le> 1 \<Longrightarrow> task_ok sent t \<Longrightarrow> task_ok sent t'"
  by (erule task_stepE) (auto simp: is_triggered_def split: if_splits)

lemma listener_step_ok: "sent \<le> 1 \<Longrightarrow> listener_ok sent l \<Longrightarrow> listener_ok sent (listener_step sent ev l)"
  by (auto simp: listener_ok_def listener_step_def attempt_connection_def on_shutdown_def is_triggered_def
      split: listener_phase.split listener_event.split if_splits)

lemma listener_ok_sent: "listener_ok a l \<Longrightarrow> a \<le> b \<Longrightarrow> listener_ok b l"
  by (auto simp: listener_ok_def split: if_splits)

lemma task_ok_mono: "task_ok a t \<Longrightarrow> a \<le> b \<Longrightarrow> task_ok b t"
  by (cases t) auto

lemma life_step_ok: "life_step s s' \<Longrightarrow> life_ok s \<Longrightarrow> life_ok s'"
proof (induction rule: life_step.induct)
  case (trigger s)
  then have "server_ok 1 (rp_http s)" by (cases "rp_http s") (simp_all add: life_ok_def)
  then show ?case using trigger task_ok_mono [of 0 _ 1] listener_ok_sent [of 0 _ 1] by (auto simp: life_ok_def list_all_iff)
next
  case (listen s ev)
  then show ?case using listener_step_ok [of "rp_sent s" "rp_listener s" ev] by (simp add: life_ok_def)
next
  case (work i s t)
  have "task_ok (rp_sent s) t"
    using task_step_ok [OF work(2)] work(1,3) by (simp add: life_ok_def list_all_length)
  then show ?case using work(3) set_update_subset_insert [of "rp_workers s" i t]
    by (auto simp: life_ok_def list_all_iff)
qed (auto simp: life_ok_def)

lemma start_ok: "life_ok (replica_start n)"
  by (simp add: life_ok_def listener_ok_def replica_start_def list_all_iff)

lemma life_run_ok: "life_run s s' \<Longrightarrow> life_ok s \<Longrightarrow> life_ok s'"
  by (induction rule: rtranclp_induct) (auto intro: life_step_ok)

subsection \<open>A spent signal\<close>

text \<open>The worker has read the one signal and goes on.\<close>

definition spent :: "worker_task \<Rightarrow> bool" where
  "spent t \<longleftrightarrow> t = At_top 1 \<or> t = In_batch 1"

lemma spent_stays: "task_step sent t t' \<Longrightarrow> sent \<le> 1 \<Longrightarrow> spent t \<Longrightarrow> spent t'"
  by (erule task_stepE) (auto simp: spent_def is_triggered_def split: if_splits)

lemma spent_forever:
  assumes "life_run s s'" and "life_ok s" and "i < length (rp_workers s)" and "spent (rp_workers s ! i)"
  shows "i < length (rp_workers s') \<and> spent (rp_workers s' ! i)"
  using assms(1)
proof (induction rule: rtranclp_induct)
  case base
  then show ?case using assms by simp
next
  case (step s1 s2)
  have "rp_sent s1 \<le> 1" using life_run_ok [OF step(1) assms(2)] by (simp add: life_ok_def)
  with step(2,3) show ?case by cases (auto simp: nth_list_update intro: spent_stays)
qed

text \<open>The server is not told: the signal was sent before it subscribed.\<close>

definition untold :: "replica \<Rightarrow> bool" where
  "untold s \<longleftrightarrow> rp_sent s = 1 \<and> (rp_http s = Unsubscribed \<or> rp_http s = Serves 1)"

lemma untold_stays: "life_step s s' \<Longrightarrow> untold s \<Longrightarrow> untold s'"
  by (induction rule: life_step.induct) (auto simp: untold_def)

lemma untold_forever: "life_run s s' \<Longrightarrow> untold s \<Longrightarrow> untold s'"
  by (induction rule: rtranclp_induct) (auto intro: untold_stays)

lemma untold_blocks:
  assumes "life_run s s'" and "untold s"
  shows "\<not> main_returns s'"
  using untold_forever [OF assms] by (auto simp: untold_def main_returns_def)

lemma spent_blocks:
  assumes "life_run s s'" and "life_ok s" and "t \<in> set (rp_workers s)" and "spent t"
  shows "\<not> main_returns s'"
proof -
  obtain i where "i < length (rp_workers s)" "rp_workers s ! i = t" using assms(3) by (auto simp: in_set_conv_nth)
  then have "i < length (rp_workers s') \<and> spent (rp_workers s' ! i)" using spent_forever [OF assms(1,2)] assms(4) by simp
  then show ?thesis by (auto simp: main_returns_def list_all_length spent_def)
qed

text \<open>Every other worker can still return, and so can the rest.\<close>

lemma worker_returns:
  assumes "rp_workers s = xs @ t # ys" and "rp_sent s = 1" and "task_ok 1 t" and "\<not> spent t"
  shows "life_run s (s\<lparr>rp_workers := xs @ Returned # ys\<rparr>)"
proof -
  have w: "life_run s (s\<lparr>rp_workers := xs @ Returned # ys\<rparr>)" if "rp_workers s = xs @ At_top 0 # ys" "rp_sent s = 1" for s
    using work [of "length xs" s Returned] woken [of 0 1] that by (simp add: r_into_rtranclp)
  have "t = Returned \<or> t = At_top 0 \<or> t = In_batch 0"
    using assms(3,4) by (cases t) (auto simp: spent_def le_Suc_eq)
  then show ?thesis
  proof (elim disjE)
    assume "t = In_batch 0"
    then have "life_step s (s\<lparr>rp_workers := xs @ At_top 0 # ys\<rparr>)"
      using work [of "length xs" s "At_top 0"] batch_done [of 1 0] assms(1,2) by simp
    then show ?thesis using w [of "s\<lparr>rp_workers := xs @ At_top 0 # ys\<rparr>"] assms(2)
      by (simp add: converse_rtranclp_into_rtranclp)
  next
    assume "t = Returned"
    then have "s\<lparr>rp_workers := xs @ Returned # ys\<rparr> = s" using assms(1) by simp
    then show ?thesis by simp
  qed (use w assms in simp)
qed

lemma workers_return:
  assumes "rp_workers s = xs @ ys" and "rp_sent s = 1" and "\<forall>t \<in> set ys. task_ok 1 t \<and> \<not> spent t"
  shows "life_run s (s\<lparr>rp_workers := xs @ replicate (length ys) Returned\<rparr>)"
  using assms
proof (induction ys arbitrary: s xs)
  case Nil
  then have "s\<lparr>rp_workers := xs @ replicate (length []) Returned\<rparr> = s" by simp
  then show ?case by simp
next
  case (Cons t ys)
  let ?s1 = "s\<lparr>rp_workers := xs @ Returned # ys\<rparr>"
  have "life_run s ?s1" using worker_returns [OF Cons.prems(1,2)] Cons.prems(3) by simp
  moreover have "life_run ?s1 (?s1\<lparr>rp_workers := (xs @ [Returned]) @ replicate (length ys) Returned\<rparr>)"
    using Cons.IH [of ?s1 "xs @ [Returned]"] Cons.prems(2,3) by simp
  ultimately show ?case by simp
qed

lemma listener_returns:
  assumes "rp_sent s = 1" and "li_phase (rp_listener s) \<noteq> Stopped" and "li_received (rp_listener s) = 0"
  shows "\<exists>l. life_run s (s\<lparr>rp_listener := l\<rparr>) \<and> li_phase l = Stopped"
proof -
  let ?l = "rp_listener s" and ?ev = "if li_phase (rp_listener s) = Outer then Attempt True True else Shut"
  have "li_phase (listener_step 1 ?ev ?l) = Stopped"
    using assms listener_stops [of ?l 1] by (cases "li_phase ?l") auto
  moreover have "life_run s (s\<lparr>rp_listener := listener_step 1 ?ev ?l\<rparr>)"
    using listen [of s ?ev] assms(1) by (simp add: r_into_rtranclp)
  ultimately show ?thesis by blast
qed

lemma server_stops:
  assumes "life_ok s" and "rp_sent s = 1" and "\<not> untold s"
  shows "life_run s (s\<lparr>rp_http := Served\<rparr>)"
proof (cases "rp_http s")
  case (Serves r)
  then have "r < rp_sent s" using assms by (auto simp: life_ok_def untold_def)
  then show ?thesis using http_end [OF Serves] by (simp add: r_into_rtranclp)
next
  case Served
  then have "s\<lparr>rp_http := Served\<rparr> = s" by simp
  then show ?thesis by (simp only: rtranclp.rtrancl_refl)
qed (use assms in \<open>simp add: untold_def\<close>)

text \<open>The signal can still be sent so that the server gets it, if it has not missed it already.\<close>

lemma signal_arrives:
  assumes "life_ok s" and "\<not> untold s"
  shows "\<exists>s'. life_run s s' \<and> rp_sent s' = 1 \<and> \<not> untold s' \<and> rp_workers s' = rp_workers s"
proof (cases "rp_sent s = 0")
  case True
  let ?d = "s\<lparr>rp_draining := True\<rparr>"
  let ?u = "?d\<lparr>rp_http := if rp_http s = Unsubscribed then Serves 0 else rp_http s\<rparr>"
  have "life_run s ?d"
  proof (cases "rp_draining s")
    case True
    then have "?d = s" by simp
    then show ?thesis by (simp only: rtranclp.rtrancl_refl)
  qed (use drain [of s] in blast)
  also have "life_run ?d ?u"
  proof (cases "rp_http s = Unsubscribed")
    case True
    then show ?thesis using subscribe [of ?d] \<open>rp_sent s = 0\<close> by (simp add: r_into_rtranclp)
  next
    case False
    then have "?u = ?d" by simp
    then show ?thesis by (simp only: rtranclp.rtrancl_refl)
  qed
  also have "life_run ?u (?u\<lparr>rp_sent := 1\<rparr>)" using trigger [of ?u] True by (simp add: r_into_rtranclp)
  finally have "life_run s (?u\<lparr>rp_sent := 1\<rparr>)" .
  moreover have "\<not> untold (?u\<lparr>rp_sent := 1\<rparr>)" using assms(1) True by (auto simp: untold_def life_ok_def)
  ultimately show ?thesis by (intro exI [of _ "?u\<lparr>rp_sent := 1\<rparr>"]) simp
next
  case False
  then have "rp_sent s = 1" using assms(1) by (simp add: life_ok_def)
  then show ?thesis using assms(2) by blast
qed

lemma can_return:
  assumes "life_ok s" and "\<forall>t \<in> set (rp_workers s). \<not> spent t" and "\<not> untold s"
  shows "\<exists>s'. life_run s s' \<and> main_returns s'"
proof -
  obtain s1 where s1: "life_run s s1" "rp_sent s1 = 1" "rp_workers s1 = rp_workers s" "\<not> untold s1"
    using signal_arrives [OF assms(1,3)] by blast
  let ?s2 = "s1\<lparr>rp_http := Served\<rparr>"
  have s2: "life_run s ?s2" using s1(1) server_stops [OF life_run_ok [OF s1(1) assms(1)] s1(2,4)] by (rule rtranclp_trans)
  have "\<exists>l. life_run ?s2 (?s2\<lparr>rp_listener := l\<rparr>) \<and> li_phase l = Stopped"
  proof (cases "li_phase (rp_listener ?s2) = Stopped")
    case True
    then show ?thesis by (intro exI [of _ "rp_listener ?s2"]) simp
  next
    case False
    then show ?thesis using listener_returns [of ?s2] life_run_ok [OF s2 assms(1)] s1(2) by (auto simp: life_ok_def listener_ok_def)
  qed
  then obtain l where l: "life_run ?s2 (?s2\<lparr>rp_listener := l\<rparr>)" "li_phase l = Stopped" by blast
  let ?s3 = "?s2\<lparr>rp_listener := l\<rparr>"
  have s3: "life_run s ?s3" using s2 l(1) by (rule rtranclp_trans)
  have "\<forall>t \<in> set (rp_workers ?s3). task_ok 1 t \<and> \<not> spent t"
    using life_run_ok [OF s3 assms(1)] assms(2) s1(2,3) by (simp add: life_ok_def list_all_iff)
  then have "life_run ?s3 (?s3\<lparr>rp_workers := [] @ replicate (length (rp_workers ?s3)) Returned\<rparr>)"
    using s1(2) by (intro workers_return) auto
  with s3 have "life_run s (?s3\<lparr>rp_workers := replicate (length (rp_workers ?s3)) Returned\<rparr>)" by (simp add: rtranclp_trans)
  moreover have "main_returns (?s3\<lparr>rp_workers := replicate (length (rp_workers ?s3)) Returned\<rparr>)"
    using l(2) by (simp add: main_returns_def list_all_iff)
  ultimately show ?thesis by blast
qed

subsection \<open>Properties\<close>

text \<open>C9: in every state of a replica's life nothing has stopped before \<open>/ready\<close> refuses traffic, and
  \<open>main\<close> can still return exactly when nobody has lost the shutdown signal. A worker loses it by
  reading it inside a batch, and then never stops; the server loses it when it is sent before the
  server subscribes, and then never stops either; \<open>main\<close> waits for both forever.\<close>

theorem replica_stops_unless_signal_spent:
  assumes "life_run (replica_start n) s"
  shows "(rp_http s = Served \<or> li_phase (rp_listener s) = Stopped \<or> Returned \<in> set (rp_workers s)
      \<longrightarrow> r_status (ready (rp_draining s)) = 503)
    \<and> ((\<exists>s'. life_run s s' \<and> main_returns s') \<longleftrightarrow>
        (\<forall>t \<in> set (rp_workers s). \<not> (t = At_top 1 \<or> t = In_batch 1))
        \<and> \<not> (rp_sent s = 1 \<and> (rp_http s = Unsubscribed \<or> rp_http s = Serves 1)))"
proof -
  have ok: "life_ok s" using life_run_ok [OF assms start_ok] .
  then have "rp_draining s" if "rp_http s = Served \<or> li_phase (rp_listener s) = Stopped \<or> Returned \<in> set (rp_workers s)"
    using that by (auto simp: life_ok_def listener_ok_def list_all_iff)
  moreover have "r_status (ready True) = 503" by (simp add: ready_def json_response_def)
  moreover have "(\<exists>s'. life_run s s' \<and> main_returns s') \<longleftrightarrow> (\<forall>t \<in> set (rp_workers s). \<not> spent t) \<and> \<not> untold s"
    using can_return [OF ok] spent_blocks [OF _ ok] untold_blocks by blast
  ultimately show ?thesis unfolding spent_def untold_def by auto
qed

text \<open>The signal is sent before the server subscribes.\<close>

definition deaf_replica :: replica where
  "deaf_replica = (replica_start 1)\<lparr>rp_draining := True, rp_sent := 1, rp_http := Serves 1\<rparr>"

lemma deaf_reached: "life_run (replica_start 1) deaf_replica"
proof -
  let ?s1 = "(replica_start 1)\<lparr>rp_draining := True\<rparr>"
  let ?s2 = "?s1\<lparr>rp_sent := 1\<rparr>"
  have "life_step (replica_start 1) ?s1" using drain [of "replica_start 1"] by (simp add: replica_start_def)
  moreover have "life_step ?s1 ?s2" using trigger [of ?s1] by (simp add: replica_start_def)
  moreover have "life_step ?s2 deaf_replica" using subscribe [of ?s2] by (simp add: replica_start_def deaf_replica_def)
  ultimately show ?thesis by (meson r_into_rtranclp rtranclp.rtrancl_into_rtrancl)
qed

text \<open>One worker takes a batch, the signal arrives, and the next job of the batch reads it.\<close>

definition spent_replica :: replica where
  "spent_replica = (replica_start 2)\<lparr>rp_draining := True, rp_sent := 1, rp_workers := [In_batch 1, At_top 0]\<rparr>"

lemma spent_reached: "life_run (replica_start 2) spent_replica"
proof -
  let ?s0 = "replica_start 2"
  let ?s1 = "?s0\<lparr>rp_workers := [In_batch 0, At_top 0]\<rparr>"
  let ?s2 = "?s1\<lparr>rp_draining := True\<rparr>"
  let ?s3 = "?s2\<lparr>rp_sent := 1\<rparr>"
  have "life_step ?s0 ?s1" using work [of 0 ?s0 "In_batch 0"] top_claim [of 0 0 0]
    by (simp add: replica_start_def is_triggered_def numeral_2_eq_2)
  moreover have "life_step ?s1 ?s2" using drain [of ?s1] by (simp add: replica_start_def)
  moreover have "life_step ?s2 ?s3" using trigger [of ?s2] by (simp add: replica_start_def)
  moreover have "life_step ?s3 spent_replica" using work [of 0 ?s3 "In_batch 1"] job [of 1 0]
    by (simp add: replica_start_def spent_replica_def is_triggered_def numeral_2_eq_2)
  ultimately show ?thesis by (meson r_into_rtranclp rtranclp.rtrancl_into_rtrancl)
qed

theorem replica_stops_unless_signal_spent_witness:
  "\<not> (\<exists>s'. life_run spent_replica s' \<and> main_returns s')
    \<and> \<not> (\<exists>s'. life_run deaf_replica s' \<and> main_returns s')
    \<and> (\<exists>s'. life_run (replica_start 2) s' \<and> main_returns s')"
proof (intro conjI)
  show "\<not> (\<exists>s'. life_run spent_replica s' \<and> main_returns s')"
    using replica_stops_unless_signal_spent [OF spent_reached] by (auto simp: spent_replica_def)
  show "\<not> (\<exists>s'. life_run deaf_replica s' \<and> main_returns s')"
    using replica_stops_unless_signal_spent [OF deaf_reached] by (auto simp: deaf_replica_def)
  show "\<exists>s'. life_run (replica_start 2) s' \<and> main_returns s'"
    using replica_stops_unless_signal_spent [of 2 "replica_start 2"] by (auto simp: replica_start_def)
qed

end
