(* ===== verification/Interleave.thy ===== *)
theory Interleave
  imports Submit
begin

text \<open>
  Concurrent submissions, statement by statement: the transactions of \<open>post_submit\<close> and the saves of
  forms, in any order. A transaction reads its form and keeps a share lock on it (\<open>FOR SHARE\<close>), which
  holds up a save of that form; on a form that keeps one response it takes the advisory lock of
  the form and the member before it loads their row. It sees the committed rows when it loads;
  its own write becomes visible when it commits, which also releases its locks. What it writes is
  the effect of \<open>store_response\<close>. An attempt is one request: \<open>at_accepts\<close> is what the checks and the
  grading give for a form, \<open>at_rid\<close> the id the database gives the row if one is inserted. Two clocks
  tell its time: \<open>at_now\<close> is \<open>Utc::now()\<close>, which the handler takes once it has the form and the gate
  decides by, \<open>at_stamp\<close> is the database's \<open>now()\<close>, the start of the transaction, which the row is
  stamped with. Nothing is assumed of how the two are related.
\<close>

subsection \<open>The effect of one attempt\<close>

record attempt =
  at_slug :: str
  at_user :: str
  at_accepts :: "form_row \<Rightarrow> grading option"
  at_now :: int
  at_stamp :: int
  at_rid :: str

definition attempt_key :: "attempt \<Rightarrow> form_row \<Rightarrow> str \<times> str" where
  "attempt_key a f = (fm_id f, at_user a)"

definition rows_of :: "str \<times> str \<Rightarrow> response_row list \<Rightarrow> response_row list" where
  "rows_of k rs = filter (\<lambda>r. (fr_form_id r, fr_discord_id r) = k) rs"

definition rows_canonical :: "str \<times> str \<Rightarrow> response_row list \<Rightarrow> response_row option" where
  "rows_canonical k rs = newest (rows_of k rs)"

definition insert_fresh :: "attempt \<Rightarrow> form_row \<Rightarrow> grading \<Rightarrow> response_row list \<Rightarrow> response_row list" where
  "insert_fresh a f g rs = rs @ [new_response (at_rid a) (at_stamp a) f (at_user a) g (gr_score g) (gr_passed g) 1]"

definition edit_write :: "attempt \<Rightarrow> form_row \<Rightarrow> grading \<Rightarrow> response_row option \<Rightarrow> response_row list \<Rightarrow> response_row list" where
  "edit_write a f g existing = (case existing of
       Some r \<Rightarrow> replaced (fr_id r) (\<lambda>r. r\<lparr>fr_answers := JObj (gr_answers g), fr_total_score := gr_score g,
         fr_passed := gr_passed g, fr_schema_version := fm_version f, fr_last_edited_at := at_stamp a\<rparr>)
     | None \<Rightarrow> insert_fresh a f g)"

definition gate_decision ::
  "attempt \<Rightarrow> form_row \<Rightarrow> grading \<Rightarrow> response_row option \<Rightarrow> (deny_reason, accepted_attempt) result" where
  "gate_decision a f g existing =
     decide (at_now a) (retry_config_from_form f) (map_option existing_of existing) (attempt_of g)"

definition gate_write ::
  "attempt \<Rightarrow> form_row \<Rightarrow> grading \<Rightarrow> response_row option \<Rightarrow> accepted_attempt \<Rightarrow> response_row list \<Rightarrow> response_row list" where
  "gate_write a f g existing x = (case existing of
       Some r \<Rightarrow> replaced (fr_id r) (apply_accepted (at_stamp a) f g x)
     | None \<Rightarrow> (\<lambda>rs. rs @ [new_response (at_rid a) (at_stamp a) f (at_user a) g
         (aa_total_score x) (aa_passed x) (aa_attempt_count x)]))"

text \<open>\<open>None\<close> when the gate denies.\<close>

definition attempt_effect ::
  "attempt \<Rightarrow> form_row \<Rightarrow> grading \<Rightarrow> response_row option \<Rightarrow> (response_row list \<Rightarrow> response_row list) option" where
  "attempt_effect a f g existing =
     (if \<not> is_single f then Some (insert_fresh a f g)
      else if is_editable f then Some (edit_write a f g existing)
      else case gate_decision a f g existing of
          Inl _ \<Rightarrow> None | Inr x \<Rightarrow> Some (gate_write a f g existing x))"

lemma rows_canonical_db: "canonical_attempt i u d = rows_canonical (i, u) (db_responses d)"
  by (simp add: canonical_attempt_def user_responses_def rows_canonical_def rows_of_def)

subsection \<open>It is the effect of the handler\<close>

lemma store_fresh_effect:
  assumes "store_fresh E S f u g now w = (Inr st, w')"
  shows "\<exists>rid. db_responses (w_db w') = db_responses (w_db w) @ [new_response rid now f u g (gr_score g) (gr_passed g) 1]"
  using assms by (auto simp: store_fresh_def act_Inr insert_response_Inr)

lemma store_edit_effect:
  assumes "store_edit E S f u g now w = (Inr st, w')"
  shows "\<exists>rid. \<forall>a. at_user a = u \<and> at_now a = now \<and> at_stamp a = now \<and> at_rid a = rid \<longrightarrow>
    db_responses (w_db w') = edit_write a f g (rows_canonical (fm_id f, u) (db_responses (w_db w))) (db_responses (w_db w))"
proof (cases "canonical_attempt (fm_id f) u (w_db w)")
  case None
  then have "store_fresh E S f u g now (w\<lparr>w_tick := Suc (w_tick w)\<rparr>) = (Inr st, w')"
    using assms by (auto simp: store_edit_def act_Inr)
  from store_fresh_effect [OF this] None show ?thesis
    by (auto simp: edit_write_def insert_fresh_def rows_canonical_db)
next
  case (Some r)
  then show ?thesis using assms
    by (auto simp: store_edit_def act_Inr update_response_Inr edit_write_def rows_canonical_db)
qed

lemma store_attempt_effect:
  assumes "store_attempt E S f u g now w = (Inr st, w')"
  shows "\<exists>rid. \<forall>a. at_user a = u \<and> at_now a = now \<and> at_stamp a = now \<and> at_rid a = rid \<longrightarrow>
    (\<exists>x. gate_decision a f g (rows_canonical (fm_id f, u) (db_responses (w_db w))) = Inr x
      \<and> db_responses (w_db w') = gate_write a f g (rows_canonical (fm_id f, u) (db_responses (w_db w))) x (db_responses (w_db w)))"
proof -
  let ?c = "canonical_attempt (fm_id f) u (w_db w)" and ?w2 = "w\<lparr>w_tick := Suc (w_tick w)\<rparr>"
  obtain x rid where x: "decide now (retry_config_from_form f) (map_option existing_of ?c) (attempt_of g) = Inr x"
    and run: "(case ?c of Some r \<Rightarrow> update_response E (fr_id r) (apply_accepted now f g x)
       | None \<Rightarrow> insert_response E S (\<lambda>rid. new_response rid now f u g (aa_total_score x) (aa_passed x) (aa_attempt_count x)))
       ?w2 = (Inr rid, w')"
    using store_attempt_Inr [OF assms] by (auto simp: Let_def)
  have "db_responses (w_db w') = gate_write a f g ?c x (db_responses (w_db w))"
    if "at_user a = u" "at_now a = now" "at_stamp a = now" "at_rid a = rid" for a
    using run that by (cases ?c) (auto simp: gate_write_def insert_response_Inr update_response_Inr)
  then show ?thesis using x by (intro exI [of _ rid]) (auto simp: gate_decision_def rows_canonical_db)
qed

lemma store_response_effect:
  assumes "store_response E S f u g now w = (Inr st, w')"
  shows "\<exists>rid. \<forall>a. at_user a = u \<and> at_now a = now \<and> at_stamp a = now \<and> at_rid a = rid \<longrightarrow>
    (\<exists>h. attempt_effect a f g (rows_canonical (attempt_key a f) (db_responses (w_db w))) = Some h
      \<and> db_responses (w_db w') = h (db_responses (w_db w)))"
proof -
  let ?w1 = "w\<lparr>w_tick := Suc (w_tick w)\<rparr>"
  consider "\<not> is_single f" "store_fresh E S f u g now w = (Inr st, w')"
    | "is_single f" "is_editable f" "store_edit E S f u g now ?w1 = (Inr st, w')"
    | "is_single f" "\<not> is_editable f" "store_attempt E S f u g now ?w1 = (Inr st, w')"
    using assms by (auto simp: store_response_def act_Inr split: if_splits)
  then show ?thesis
  proof cases
    case 1
    then show ?thesis using store_fresh_effect [OF 1(2)] by (auto simp: attempt_effect_def insert_fresh_def)
  next
    case 2
    then show ?thesis using store_edit_effect [OF 2(3)] by (auto simp: attempt_effect_def attempt_key_def)
  next
    case 3
    from store_attempt_effect [OF 3(3)] 3(1,2) show ?thesis
      by (fastforce simp: attempt_effect_def attempt_key_def)
  qed
qed

text \<open>The attempt of a request. The membership is asked outside the tables, so it is not part of it.\<close>

definition request_attempt :: "env \<Rightarrow> site \<Rightarrow> str \<Rightarrow> str \<Rightarrow> json \<Rightarrow> int \<Rightarrow> int \<Rightarrow> int \<Rightarrow> str \<Rightarrow> attempt" where
  "request_attempt E S slug u answers version now stamp rid = \<lparr>at_slug = slug, at_user = u,
     at_accepts = (\<lambda>f. case check_open now f slug version u of Inl _ \<Rightarrow> None
       | Inr _ \<Rightarrow> (case grade E S f answers of Inl _ \<Rightarrow> None | Inr g \<Rightarrow> Some g)),
     at_now = now, at_stamp = stamp, at_rid = rid\<rparr>"

subsection \<open>Transactions step by step\<close>

datatype phase =
    Waiting
  | Opened form_row grading
  | Locked form_row grading
  | Loaded form_row grading "response_row option"
  | Stored form_row grading "response_row list \<Rightarrow> response_row list"
  | Ended

text \<open>The form whose row it holds, and whether it holds the advisory lock.\<close>

fun form_held :: "phase \<Rightarrow> form_row option" where
  "form_held Waiting = None"
| "form_held (Opened f g) = Some f"
| "form_held (Locked f g) = Some f"
| "form_held (Loaded f g ex) = Some f"
| "form_held (Stored f g h) = Some f"
| "form_held Ended = None"

fun holds_lock :: "phase \<Rightarrow> bool" where
  "holds_lock (Locked f g) = True"
| "holds_lock (Loaded f g ex) = True"
| "holds_lock (Stored f g h) = is_single f"
| "holds_lock _ = False"

datatype history_event = Committed nat | Saved str form_row

text \<open>The committed tables (forms by slug), the transactions, and what was committed, in order.\<close>

record isolation =
  iv_forms :: "str \<Rightarrow> form_row option"
  iv_rows :: "response_row list"
  iv_phase :: "nat \<Rightarrow> phase"
  iv_log :: "history_event list"

definition enter :: "nat \<Rightarrow> phase \<Rightarrow> isolation \<Rightarrow> isolation" where
  "enter i p s = s\<lparr>iv_phase := (iv_phase s)(i := p)\<rparr>"

inductive tx_step :: "(nat \<Rightarrow> attempt) \<Rightarrow> isolation \<Rightarrow> isolation \<Rightarrow> bool" for A where
  opens: "iv_phase s i = Waiting \<Longrightarrow> iv_forms s (at_slug (A i)) = Some f \<Longrightarrow> at_accepts (A i) f = Some g \<Longrightarrow>
    tx_step A s (enter i (Opened f g) s)"
| lock: "iv_phase s i = Opened f g \<Longrightarrow> is_single f \<Longrightarrow>
    (\<And>j f'. holds_lock (iv_phase s j) \<Longrightarrow> form_held (iv_phase s j) = Some f' \<Longrightarrow> attempt_key (A j) f' \<noteq> attempt_key (A i) f) \<Longrightarrow>
    tx_step A s (enter i (Locked f g) s)"
| load: "iv_phase s i = Locked f g \<Longrightarrow>
    tx_step A s (enter i (Loaded f g (rows_canonical (attempt_key (A i) f) (iv_rows s))) s)"
| fresh: "iv_phase s i = Opened f g \<Longrightarrow> \<not> is_single f \<Longrightarrow> tx_step A s (enter i (Stored f g (insert_fresh (A i) f g)) s)"
| store: "iv_phase s i = Loaded f g ex \<Longrightarrow> attempt_effect (A i) f g ex = Some h \<Longrightarrow> tx_step A s (enter i (Stored f g h) s)"
| commit: "iv_phase s i = Stored f g h \<Longrightarrow>
    tx_step A s ((enter i Ended s)\<lparr>iv_rows := h (iv_rows s), iv_log := iv_log s @ [Committed i]\<rparr>)"
| abort: "iv_phase s i \<noteq> Ended \<Longrightarrow> tx_step A s (enter i Ended s)"
| save: "iv_forms s slug = Some f \<Longrightarrow> fm_id f' = fm_id f \<Longrightarrow>
    (\<And>j f0. form_held (iv_phase s j) = Some f0 \<Longrightarrow> fm_id f0 \<noteq> fm_id f) \<Longrightarrow>
    tx_step A s (s\<lparr>iv_forms := (iv_forms s)(slug \<mapsto> f'), iv_log := iv_log s @ [Saved slug f']\<rparr>)"

definition tx_start :: "(str \<Rightarrow> form_row option) \<Rightarrow> response_row list \<Rightarrow> isolation" where
  "tx_start fs rs = \<lparr>iv_forms = fs, iv_rows = rs, iv_phase = (\<lambda>_. Waiting), iv_log = []\<rparr>"

inductive tx_reachable ::
  "(nat \<Rightarrow> attempt) \<Rightarrow> (str \<Rightarrow> form_row option) \<Rightarrow> response_row list \<Rightarrow> isolation \<Rightarrow> bool" for A fs rs where
  start: "tx_reachable A fs rs (tx_start fs rs)"
| step: "tx_reachable A fs rs s \<Longrightarrow> tx_step A s s' \<Longrightarrow> tx_reachable A fs rs s'"

text \<open>The same events alone, one after the other: \<open>None\<close> when a submission would be refused.\<close>

definition attempt_alone ::
  "attempt \<Rightarrow> (str \<Rightarrow> form_row option) \<Rightarrow> response_row list \<Rightarrow> (form_row \<times> grading \<times> response_row list) option" where
  "attempt_alone a fs rs = Option.bind (fs (at_slug a)) (\<lambda>f. Option.bind (at_accepts a f) (\<lambda>g.
     map_option (\<lambda>h. (f, g, h rs)) (attempt_effect a f g (rows_canonical (attempt_key a f) rs))))"

fun serial :: "(nat \<Rightarrow> attempt) \<Rightarrow> (str \<Rightarrow> form_row option) \<Rightarrow> response_row list \<Rightarrow> history_event list
    \<Rightarrow> ((str \<Rightarrow> form_row option) \<times> response_row list) option" where
  "serial A fs rs [] = Some (fs, rs)"
| "serial A fs rs (Committed i # es) = (case attempt_alone (A i) fs rs of
       None \<Rightarrow> None | Some (_, _, rs') \<Rightarrow> serial A fs rs' es)"
| "serial A fs rs (Saved slug f # es) = serial A (fs(slug \<mapsto> f)) rs es"

lemma serial_append: "serial A fs rs (es @ es') = Option.bind (serial A fs rs es) (\<lambda>(fs', rs'). serial A fs' rs' es')"
  by (induction A fs rs es rule: serial.induct) (simp_all del: fun_upd_apply split: option.split)

lemma attempt_alone_Some: "attempt_alone a fs rs = Some (f, g, rs') \<longleftrightarrow> fs (at_slug a) = Some f \<and> at_accepts a f = Some g
    \<and> (\<exists>h. attempt_effect a f g (rows_canonical (attempt_key a f) rs) = Some h \<and> rs' = h rs)"
  by (auto simp: attempt_alone_def bind_eq_Some_conv)

text \<open>A whole submission on its own is the attempt of its request.\<close>

lemma post_submit_alone:
  assumes "post_submit E S rq cookie slug answers version w = (Inr reply, w')"
  shows "\<exists>c u name rid f g. cookie = Some c \<and> session_of S (w_now w) c = Some (u, name)
    \<and> attempt_alone (request_attempt E S slug u answers version (w_now w) (w_now w) rid) (\<lambda>s. find_form_by_slug s (w_db w))
        (db_responses (w_db w)) = Some (f, g, db_responses (w_db w'))"
proof -
  obtain c u name f g st wa wb where sub: "submitted E S rq cookie slug answers version w reply w' c u name f g st wa wb"
    using post_submit_Inr [OF assms] by blast
  have store: "store_response E S f u g (w_now w) wa = (Inr st, wb)" and same: "w_db wa = w_db w"
    "db_responses (w_db w') = db_responses (w_db wb)" using sub by (simp_all add: submitted_def)
  obtain rid where rid: "\<And>a. at_user a = u \<Longrightarrow> at_now a = w_now w \<Longrightarrow> at_stamp a = w_now w \<Longrightarrow> at_rid a = rid \<Longrightarrow>
      \<exists>h. attempt_effect a f g (rows_canonical (attempt_key a f) (db_responses (w_db wa))) = Some h
        \<and> db_responses (w_db wb) = h (db_responses (w_db wa))"
    using store_response_effect [OF store] by blast
  let ?a = "request_attempt E S slug u answers version (w_now w) (w_now w) rid"
  have "find_form_by_slug (at_slug ?a) (w_db w) = Some f" "at_accepts ?a f = Some g"
    using sub by (simp_all add: submitted_def request_attempt_def)
  moreover have "\<exists>h. attempt_effect ?a f g (rows_canonical (attempt_key ?a f) (db_responses (w_db w))) = Some h
      \<and> db_responses (w_db w') = h (db_responses (w_db w))"
    using rid [of ?a] same by (simp add: request_attempt_def)
  ultimately have "attempt_alone ?a (\<lambda>s. find_form_by_slug s (w_db w)) (db_responses (w_db w)) = Some (f, g, db_responses (w_db w'))"
    by (simp add: attempt_alone_Some)
  then show ?thesis using sub by (auto simp: submitted_def)
qed

subsection \<open>Other members' rows\<close>

lemma attempt_effect_cases:
  assumes "attempt_effect a f g (rows_canonical (attempt_key a f) rs) = Some h"
  obtains (inserted) row where "h rs = rs @ [row]" "fr_id row = at_rid a" "(fr_form_id row, fr_discord_id row) = attempt_key a f"
      "is_single f \<Longrightarrow> rows_of (attempt_key a f) rs = []"
  | (changed) r k where "h rs = replaced (fr_id r) k rs" "same_keys k" "r \<in> set (rows_of (attempt_key a f) rs)"
proof (cases "is_single f")
  case False
  then show thesis using assms inserted by (auto simp: attempt_effect_def insert_fresh_def attempt_key_def)
next
  case single: True
  show thesis
  proof (cases "rows_canonical (attempt_key a f) rs")
    case None
    moreover have "rows_of (attempt_key a f) rs = []" using None by (simp add: rows_canonical_def newest_None)
    ultimately show thesis using assms single inserted
      by (auto simp: attempt_effect_def edit_write_def insert_fresh_def gate_write_def attempt_key_def split: if_splits sum.splits)
  next
    case (Some r)
    then have "r \<in> set (rows_of (attempt_key a f) rs)" by (simp add: rows_canonical_def newest_in)
    then show thesis using assms Some single changed
      by (auto simp: attempt_effect_def edit_write_def gate_write_def split: if_splits sum.splits)
  qed
qed

lemma rows_of_replaced_other:
  assumes "distinct (map fr_id rs)" and "r \<in> set (rows_of k rs)" and "k \<noteq> k'" and "same_keys h"
  shows "rows_of k' (replaced (fr_id r) h rs) = rows_of k' rs"
proof -
  have r: "r \<in> set rs" "(fr_form_id r, fr_discord_id r) = k" using assms(2) by (auto simp: rows_of_def)
  have "x = r" if "x \<in> set rs" "fr_id x = fr_id r" for x
    using assms(1) that r(1) by (auto simp: distinct_map inj_on_def)
  then have "fr_id x \<noteq> fr_id r" if "x \<in> set rs" "(fr_form_id x, fr_discord_id x) = k'" for x
    using that r(2) assms(3) by blast
  then show ?thesis
    using same_keysD [OF assms(4)] unfolding rows_of_def replaced_def
    by (induction rs) auto
qed

lemma other_key_untouched:
  assumes "attempt_effect a f g (rows_canonical (attempt_key a f) rs) = Some h" and "distinct (map fr_id rs)" and "k \<noteq> attempt_key a f"
  shows "rows_of k (h rs) = rows_of k rs"
  using assms(1)
proof (cases rule: attempt_effect_cases)
  case (inserted row)
  then show ?thesis using assms(3) by (auto simp: rows_of_def)
next
  case (changed r g)
  then show ?thesis
    using rows_of_replaced_other [OF assms(2) changed(3) _ changed(2)] assms(3) by simp
qed

lemma effect_ids:
  assumes "attempt_effect a f g (rows_canonical (attempt_key a f) rs) = Some h"
  shows "map fr_id (h rs) = map fr_id rs \<or> map fr_id (h rs) = map fr_id rs @ [at_rid a]"
  using assms by (cases rule: attempt_effect_cases) auto

lemma effect_fresh_ids:
  assumes "attempt_effect a f g (rows_canonical (attempt_key a f) rs) = Some h"
    and "distinct (map fr_id rs)" and "at_rid a \<notin> set (map fr_id rs)"
  shows "distinct (map fr_id (h rs))" and "fr_id ` set (h rs) \<subseteq> insert (at_rid a) (fr_id ` set rs)"
proof -
  have "distinct (map fr_id (h rs)) \<and> set (map fr_id (h rs)) \<subseteq> set (map fr_id rs) \<union> {at_rid a}"
    using effect_ids [OF assms(1)] by (rule disjE) (use assms(2,3) in \<open>simp_all only: distinct_append set_append, auto\<close>)
  then show "distinct (map fr_id (h rs))" and "fr_id ` set (h rs) \<subseteq> insert (at_rid a) (fr_id ` set rs)" by simp_all
qed

subsection \<open>The locks isolate\<close>

text \<open>UUIDs: no two rows get the same id, and no two forms have one.\<close>

definition fresh_ids :: "(nat \<Rightarrow> attempt) \<Rightarrow> response_row list \<Rightarrow> bool" where
  "fresh_ids A rs \<longleftrightarrow> inj (at_rid \<circ> A) \<and> range (at_rid \<circ> A) \<inter> fr_id ` set rs = {} \<and> distinct (map fr_id rs)"

definition forms_distinct :: "(str \<Rightarrow> form_row option) \<Rightarrow> bool" where
  "forms_distinct fs \<longleftrightarrow> (\<forall>s s' f f'. fs s = Some f \<longrightarrow> fs s' = Some f' \<longrightarrow> fm_id f = fm_id f' \<longrightarrow> s = s')"

fun committed :: "history_event list \<Rightarrow> nat list" where
  "committed [] = []"
| "committed (Committed i # es) = i # committed es"
| "committed (Saved _ _ # es) = committed es"

lemma committed_append [simp]: "committed (es @ es') = committed es @ committed es'"
  by (induction es rule: committed.induct) auto

text \<open>A save keeps the id of its form.\<close>

fun same_ids :: "(str \<Rightarrow> form_row option) \<Rightarrow> history_event list \<Rightarrow> bool" where
  "same_ids fs [] = True"
| "same_ids fs (Committed i # es) = same_ids fs es"
| "same_ids fs (Saved slug f # es) = (map_option fm_id (fs slug) = Some (fm_id f) \<and> same_ids (fs(slug \<mapsto> f)) es)"

lemma same_ids_append: "serial A fs rs es = Some (fs', rs') \<Longrightarrow> same_ids fs es \<Longrightarrow> same_ids fs' es' \<Longrightarrow> same_ids fs (es @ es')"
  by (induction A fs rs es rule: serial.induct) (simp_all del: fun_upd_apply split: option.splits prod.splits)

text \<open>What a transaction in a phase may rely on.\<close>

fun phase_ok :: "attempt \<Rightarrow> (str \<Rightarrow> form_row option) \<Rightarrow> response_row list \<Rightarrow> phase \<Rightarrow> bool" where
  "phase_ok a fs rs (Opened f g) = (fs (at_slug a) = Some f \<and> at_accepts a f = Some g)"
| "phase_ok a fs rs (Locked f g) = (fs (at_slug a) = Some f \<and> at_accepts a f = Some g \<and> is_single f)"
| "phase_ok a fs rs (Loaded f g ex) = (fs (at_slug a) = Some f \<and> at_accepts a f = Some g \<and> is_single f
     \<and> ex = rows_canonical (attempt_key a f) rs)"
| "phase_ok a fs rs (Stored f g h) = (fs (at_slug a) = Some f \<and> at_accepts a f = Some g
     \<and> attempt_effect a f g (rows_canonical (attempt_key a f) rs) = Some h)"
| "phase_ok a fs rs _ = True"

definition mutex :: "(nat \<Rightarrow> attempt) \<Rightarrow> (nat \<Rightarrow> phase) \<Rightarrow> bool" where
  "mutex A ph \<longleftrightarrow> (\<forall>i j f f'. holds_lock (ph i) \<longrightarrow> holds_lock (ph j) \<longrightarrow> form_held (ph i) = Some f \<longrightarrow>
     form_held (ph j) = Some f' \<longrightarrow> attempt_key (A i) f = attempt_key (A j) f' \<longrightarrow> i = j)"

lemma mutexD:
  "mutex A ph \<Longrightarrow> holds_lock (ph i) \<Longrightarrow> holds_lock (ph j) \<Longrightarrow> form_held (ph i) = Some f \<Longrightarrow> form_held (ph j) = Some f' \<Longrightarrow>
   attempt_key (A i) f = attempt_key (A j) f' \<Longrightarrow> i = j"
  unfolding mutex_def by blast

definition isolated :: "(nat \<Rightarrow> attempt) \<Rightarrow> (str \<Rightarrow> form_row option) \<Rightarrow> response_row list \<Rightarrow> isolation \<Rightarrow> bool" where
  "isolated A fs rs s \<longleftrightarrow>
     serial A fs rs (iv_log s) = Some (iv_forms s, iv_rows s)
     \<and> distinct (committed (iv_log s)) \<and> (\<forall>i \<in> set (committed (iv_log s)). iv_phase s i = Ended)
     \<and> distinct (map fr_id (iv_rows s)) \<and> fr_id ` set (iv_rows s) \<subseteq> fr_id ` set rs \<union> (at_rid \<circ> A) ` set (committed (iv_log s))
     \<and> forms_distinct (iv_forms s) \<and> (\<forall>i. phase_ok (A i) (iv_forms s) (iv_rows s) (iv_phase s i)) \<and> mutex A (iv_phase s)
     \<and> same_ids fs (iv_log s)"

lemma isolatedD:
  assumes "isolated A fs rs s"
  shows "serial A fs rs (iv_log s) = Some (iv_forms s, iv_rows s)" and "distinct (committed (iv_log s))"
    and "\<And>i. i \<in> set (committed (iv_log s)) \<Longrightarrow> iv_phase s i = Ended" and "distinct (map fr_id (iv_rows s))"
    and "fr_id ` set (iv_rows s) \<subseteq> fr_id ` set rs \<union> (at_rid \<circ> A) ` set (committed (iv_log s))"
    and "forms_distinct (iv_forms s)" and "\<And>i. phase_ok (A i) (iv_forms s) (iv_rows s) (iv_phase s i)" and "mutex A (iv_phase s)"
    and "same_ids fs (iv_log s)"
  using assms unfolding isolated_def by blast+

lemma isolated_start: "fresh_ids A rs \<Longrightarrow> forms_distinct fs \<Longrightarrow> isolated A fs rs (tx_start fs rs)"
  by (simp add: isolated_def fresh_ids_def tx_start_def mutex_def)

lemma phase_ok_held: "phase_ok a fs rs p \<Longrightarrow> form_held p = Some f \<Longrightarrow> fs (at_slug a) = Some f"
  by (cases p) auto

text \<open>A lock is for a key; it is new only to an unlocked transaction, against all others.\<close>

lemma mutex_enter:
  assumes "mutex A ph"
    and "\<And>f. holds_lock p \<Longrightarrow> form_held p = Some f \<Longrightarrow> (holds_lock (ph i) \<and> form_held (ph i) = Some f)
       \<or> (\<forall>j f'. holds_lock (ph j) \<longrightarrow> form_held (ph j) = Some f' \<longrightarrow> attempt_key (A j) f' \<noteq> attempt_key (A i) f)"
  shows "mutex A (ph(i := p))"
  unfolding mutex_def
proof (intro allI impI)
  fix a b f f'
  assume h: "holds_lock ((ph(i := p)) a)" "holds_lock ((ph(i := p)) b)" "form_held ((ph(i := p)) a) = Some f"
    "form_held ((ph(i := p)) b) = Some f'" "attempt_key (A a) f = attempt_key (A b) f'"
  consider "a = i" "b = i" | "a = i" "b \<noteq> i" | "a \<noteq> i" "b = i" | "a \<noteq> i" "b \<noteq> i" by blast
  then show "a = b"
  proof cases
    case 2
    then show ?thesis using h assms(2) [of f] mutexD [OF assms(1), of i b f f'] by auto
  next
    case 3
    then show ?thesis using h assms(2) [of f'] mutexD [OF assms(1), of a i f f'] by auto
  next
    case 4
    then show ?thesis using h mutexD [OF assms(1), of a b f f'] by simp
  qed simp
qed

lemma isolated_enter:
  assumes "isolated A fs rs s" and "iv_phase s i \<noteq> Ended" and "phase_ok (A i) (iv_forms s) (iv_rows s) p"
    and "mutex A ((iv_phase s)(i := p))"
  shows "isolated A fs rs (enter i p s)"
proof -
  note inv = isolatedD [OF assms(1)]
  have same: "iv_rows (enter i p s) = iv_rows s" "iv_log (enter i p s) = iv_log s" "iv_forms (enter i p s) = iv_forms s"
    "iv_phase (enter i p s) = (iv_phase s)(i := p)" by (simp_all add: enter_def)
  have "i \<notin> set (committed (iv_log s))" using inv(3) assms(2) by blast
  then have "\<forall>j \<in> set (committed (iv_log s)). ((iv_phase s)(i := p)) j = Ended" using inv(3) by auto
  moreover have "\<forall>j. phase_ok (A j) (iv_forms s) (iv_rows s) (((iv_phase s)(i := p)) j)" using inv(7) assms(3) by simp
  ultimately show ?thesis unfolding isolated_def same using inv assms(4) by (intro conjI)
qed

lemma same_form_same_slug:
  assumes "forms_distinct fs" and "fs (at_slug a) = Some f" and "fs (at_slug b) = Some f'" and "attempt_key a f = attempt_key b f'"
  shows "f = f'"
proof -
  have "at_slug a = at_slug b" using assms unfolding forms_distinct_def attempt_key_def by blast
  then show ?thesis using assms(2,3) by simp
qed

text \<open>The commit of one transaction keeps what the others rely on.\<close>

lemma phase_ok_commit:
  assumes inv: "isolated A fs rs s" and p: "iv_phase s i = Stored f g h" and "j \<noteq> i"
  shows "phase_ok (A j) (iv_forms s) (h (iv_rows s)) (iv_phase s j)"
proof -
  note inv = isolatedD [OF inv]
  have i: "iv_forms s (at_slug (A i)) = Some f" "attempt_effect (A i) f g (rows_canonical (attempt_key (A i) f) (iv_rows s)) = Some h"
    using inv(7) [of i] p by simp_all
  have other: "rows_canonical (attempt_key (A j) f') (h (iv_rows s)) = rows_canonical (attempt_key (A j) f') (iv_rows s)"
    if "holds_lock (iv_phase s j)" "form_held (iv_phase s j) = Some f'" "is_single f'" for f'
  proof -
    have f': "iv_forms s (at_slug (A j)) = Some f'" using phase_ok_held [OF inv(7) that(2)] .
    have "attempt_key (A j) f' \<noteq> attempt_key (A i) f"
    proof
      assume k: "attempt_key (A j) f' = attempt_key (A i) f"
      then have "f' = f" using same_form_same_slug [OF inv(6) f' i(1)] by blast
      then have "j = i" using mutexD [OF inv(8), of j i f' f] that k p by simp
      then show False using assms(3) by simp
    qed
    then show ?thesis using other_key_untouched [OF i(2) inv(4)] by (simp add: rows_canonical_def)
  qed
  show ?thesis
  proof (cases "iv_phase s j")
    case (Loaded f' g' ex)
    then show ?thesis using inv(7) [of j] other [of f'] by simp
  next
    case (Stored f' g' h')
    then show ?thesis using inv(7) [of j] other [of f'] by (cases "is_single f'") (simp_all add: attempt_effect_def)
  qed (use inv(7) [of j] in simp_all)
qed

lemma subset_insert_union: "X \<subseteq> insert a Y \<Longrightarrow> Y \<subseteq> R \<union> L \<Longrightarrow> X \<subseteq> R \<union> insert a L"
  by blast

lemma disjoint_from_insert: "X \<inter> Y = {} \<Longrightarrow> a \<notin> X \<Longrightarrow> Z \<subseteq> insert a Y \<Longrightarrow> X \<inter> Z = {}"
  by blast

lemma isolated_commit:
  assumes "isolated A fs rs s" and "fresh_ids A rs" and p: "iv_phase s i = Stored f g h"
  shows "isolated A fs rs ((enter i Ended s)\<lparr>iv_rows := h (iv_rows s), iv_log := iv_log s @ [Committed i]\<rparr>)"
proof -
  let ?s = "(enter i Ended s)\<lparr>iv_rows := h (iv_rows s), iv_log := iv_log s @ [Committed i]\<rparr>"
  note inv = isolatedD [OF assms(1)]
  have same: "iv_rows ?s = h (iv_rows s)" "iv_log ?s = iv_log s @ [Committed i]" "iv_forms ?s = iv_forms s"
    "iv_phase ?s = (iv_phase s)(i := Ended)" by (simp_all add: enter_def)
  have ok: "iv_forms s (at_slug (A i)) = Some f" "at_accepts (A i) f = Some g"
    and e: "attempt_effect (A i) f g (rows_canonical (attempt_key (A i) f) (iv_rows s)) = Some h"
    using inv(7) [of i] p by simp_all
  have i: "i \<notin> set (committed (iv_log s))" using inv(3) [of i] p by auto
  have "at_rid (A i) \<notin> (at_rid \<circ> A) ` set (committed (iv_log s))"
    using i assms(2) by (auto simp: fresh_ids_def inj_def)
  moreover have "at_rid (A i) \<notin> fr_id ` set rs" using assms(2) by (auto simp: fresh_ids_def)
  ultimately have "at_rid (A i) \<notin> set (map fr_id (iv_rows s))" using inv(5) by auto
  note ids = effect_fresh_ids [OF e inv(4) this]
  have "serial A fs rs (iv_log s @ [Committed i]) = Some (iv_forms s, h (iv_rows s))"
    using inv(1) ok e by (simp add: serial_append attempt_alone_def)
  moreover have "fr_id ` set (h (iv_rows s)) \<subseteq> fr_id ` set rs \<union> (at_rid \<circ> A) ` set (committed (iv_log s @ [Committed i]))"
    using subset_insert_union [OF ids(2) inv(5)] by simp
  moreover have "\<forall>j. phase_ok (A j) (iv_forms s) (h (iv_rows s)) (((iv_phase s)(i := Ended)) j)"
    using phase_ok_commit [OF assms(1) p] by simp
  moreover have "\<forall>j \<in> set (committed (iv_log s @ [Committed i])). ((iv_phase s)(i := Ended)) j = Ended" using inv(3) by auto
  moreover have "mutex A ((iv_phase s)(i := Ended))" by (rule mutex_enter [OF inv(8)]) simp
  moreover have "distinct (committed (iv_log s @ [Committed i]))" using inv(2) i by simp
  moreover have "same_ids fs (iv_log s @ [Committed i])" using same_ids_append [OF inv(1,9)] by simp
  ultimately show ?thesis using ids(1) inv(6) unfolding isolated_def same by (intro conjI)
qed

lemma isolated_save:
  assumes "isolated A fs rs s" and "iv_forms s slug = Some f" and "fm_id f' = fm_id f"
    and free: "\<And>j f0. form_held (iv_phase s j) = Some f0 \<Longrightarrow> fm_id f0 \<noteq> fm_id f"
  shows "isolated A fs rs (s\<lparr>iv_forms := (iv_forms s)(slug \<mapsto> f'), iv_log := iv_log s @ [Saved slug f']\<rparr>)"
proof -
  let ?s = "s\<lparr>iv_forms := (iv_forms s)(slug \<mapsto> f'), iv_log := iv_log s @ [Saved slug f']\<rparr>"
  note inv = isolatedD [OF assms(1)]
  have same: "iv_rows ?s = iv_rows s" "iv_log ?s = iv_log s @ [Saved slug f']" "iv_forms ?s = (iv_forms s)(slug \<mapsto> f')"
    "iv_phase ?s = iv_phase s" by simp_all
  have "phase_ok (A j) ((iv_forms s)(slug \<mapsto> f')) (iv_rows s) (iv_phase s j)" for j
  proof (cases "form_held (iv_phase s j)")
    case None
    then show ?thesis by (cases "iv_phase s j") auto
  next
    case (Some f0)
    then have "at_slug (A j) \<noteq> slug" using phase_ok_held [OF inv(7) Some] free [OF Some] assms(2) by auto
    then show ?thesis using inv(7) [of j] by (cases "iv_phase s j") auto
  qed
  moreover have "forms_distinct ((iv_forms s)(slug \<mapsto> f'))"
    using inv(6) assms(2,3) unfolding forms_distinct_def by (auto split: if_splits)
  moreover have "serial A fs rs (iv_log s @ [Saved slug f']) = Some ((iv_forms s)(slug \<mapsto> f'), iv_rows s)"
    using inv(1) by (simp add: serial_append)
  moreover have "committed (iv_log s @ [Saved slug f']) = committed (iv_log s)" by simp
  moreover have "same_ids fs (iv_log s @ [Saved slug f'])" using same_ids_append [OF inv(1,9)] assms(2,3) by simp
  ultimately show ?thesis using inv unfolding isolated_def same by (auto simp del: fun_upd_apply)
qed

lemma tx_step_isolated:
  assumes "tx_step A s s'" and "fresh_ids A rs" and "isolated A fs rs s"
  shows "isolated A fs rs s'"
  using assms(1)
proof cases
  case (opens i f g)
  then show ?thesis using isolatedD(8) [OF assms(3)] by (auto intro!: isolated_enter [OF assms(3)] mutex_enter)
next
  case (lock i f g)
  then show ?thesis using isolatedD(7) [OF assms(3), of i] isolatedD(8) [OF assms(3)]
    by (auto intro!: isolated_enter [OF assms(3)] mutex_enter)
next
  case (load i f g)
  then show ?thesis using isolatedD(7) [OF assms(3), of i] isolatedD(8) [OF assms(3)]
    by (auto intro!: isolated_enter [OF assms(3)] mutex_enter)
next
  case (fresh i f g)
  then show ?thesis using isolatedD(7) [OF assms(3), of i] isolatedD(8) [OF assms(3)]
    by (auto intro!: isolated_enter [OF assms(3)] mutex_enter simp: attempt_effect_def)
next
  case (store i f g ex h)
  then show ?thesis using isolatedD(7) [OF assms(3), of i] isolatedD(8) [OF assms(3)]
    by (auto intro!: isolated_enter [OF assms(3)] mutex_enter)
next
  case (commit i f g h)
  then show ?thesis using isolated_commit [OF assms(3,2)] by simp
next
  case (abort i)
  then show ?thesis using isolatedD(8) [OF assms(3)] by (auto intro!: isolated_enter [OF assms(3)] mutex_enter)
next
  case (save slug f f')
  then show ?thesis using isolated_save [OF assms(3)] by simp
qed

lemma reachable_isolated: "tx_reachable A fs rs s \<Longrightarrow> fresh_ids A rs \<Longrightarrow> forms_distinct fs \<Longrightarrow> isolated A fs rs s"
  by (induction rule: tx_reachable.induct) (auto intro: isolated_start tx_step_isolated)

subsection \<open>One row, and the gate over commits\<close>

text \<open>The commits for a form and a member; a save keeps the form's id.\<close>

definition clocks :: "attempt \<Rightarrow> int \<times> int" where
  "clocks a = (at_now a, at_stamp a)"

definition targets :: "(str \<Rightarrow> form_row option) \<Rightarrow> str \<times> str \<Rightarrow> attempt \<Rightarrow> bool" where
  "targets fs k a \<longleftrightarrow> map_option (\<lambda>f. attempt_key a f) (fs (at_slug a)) = Some k"

text \<open>What holds of the form with an id in all its versions, stored at first or saved later.\<close>

fun versions :: "(form_row \<Rightarrow> bool) \<Rightarrow> (str \<Rightarrow> form_row option) \<Rightarrow> history_event list \<Rightarrow> bool" where
  "versions P fs [] = (\<forall>s f. fs s = Some f \<longrightarrow> P f)"
| "versions P fs (Committed i # es) = versions P fs es"
| "versions P fs (Saved slug f # es) = ((\<forall>s f. fs s = Some f \<longrightarrow> P f) \<and> versions P (fs(slug \<mapsto> f)) es)"

lemma versions_now: "versions P fs es \<Longrightarrow> fs s = Some f \<Longrightarrow> P f"
  by (induction P fs es rule: versions.induct) auto

lemma targets_save: "map_option fm_id (fs slug) = Some (fm_id f) \<Longrightarrow> targets (fs(slug \<mapsto> f)) k a \<longleftrightarrow> targets fs k a"
  by (auto simp: targets_def attempt_key_def)

lemma gate_row:
  assumes "attempt_effect a f g (rows_canonical (attempt_key a f) rs) = Some h" and "governed f"
    and "length (rows_of (attempt_key a f) rs) \<le> 1"
  shows "\<exists>x. gate_decision a f g (rows_canonical (attempt_key a f) rs) = Inr x
    \<and> map existing_of (rows_of (attempt_key a f) (h rs)) = [row_after (at_stamp a) x]"
proof -
  let ?k = "attempt_key a f"
  obtain x where x: "gate_decision a f g (rows_canonical ?k rs) = Inr x" and h: "h = gate_write a f g (rows_canonical ?k rs) x"
    using assms(1,2) by (auto simp: attempt_effect_def governed_iff split: sum.splits)
  have "map existing_of (rows_of ?k (h rs)) = [row_after (at_stamp a) x]"
  proof (cases "rows_of ?k rs")
    case Nil
    then have "h rs = rs @ [new_response (at_rid a) (at_stamp a) f (at_user a) g (aa_total_score x) (aa_passed x) (aa_attempt_count x)]"
      using h by (simp add: rows_canonical_def gate_write_def)
    then have "rows_of ?k (h rs) = [new_response (at_rid a) (at_stamp a) f (at_user a) g (aa_total_score x) (aa_passed x) (aa_attempt_count x)]"
      using Nil by (simp add: rows_of_def attempt_key_def)
    then show ?thesis by simp
  next
    case (Cons r tl)
    then have one: "rows_of ?k rs = [r]" using assms(3) by simp
    let ?g = "apply_accepted (at_stamp a) f g x"
    have "h rs = replaced (fr_id r) ?g rs" using h one by (simp add: rows_canonical_def gate_write_def)
    moreover have "rows_of k (replaced i ?g xs) = replaced i ?g (rows_of k xs)" for k i xs
      by (induction xs) (simp_all add: rows_of_def replaced_def apply_accepted_def)
    ultimately have "rows_of ?k (h rs) = replaced (fr_id r) ?g [r]" using one by (simp only:)
    then show ?thesis by (simp add: replaced_def)
  qed
  with x show ?thesis by (intro exI conjI)
qed

text \<open>
  On a form that in all its versions is retry-governed under one policy, the gate accepts a
  member's commits one after the other, and the member keeps one row.
\<close>

lemma serial_gate:
  assumes "serial A fs rs es = Some (fs', rs')" and "same_ids fs es" and "length (rows_of k rs) \<le> 1" and "distinct (map fr_id rs)"
    and "distinct (map (at_rid \<circ> A) (committed es))" and "set (map (at_rid \<circ> A) (committed es)) \<inter> fr_id ` set rs = {}"
    and "versions (\<lambda>f. fm_id f = fst k \<longrightarrow> governed f \<and> retry_config_from_form f = c) fs es"
  shows "length (rows_of k rs') \<le> 1 \<and> (\<exists>evs. stamped_times decide c (map_option existing_of (rows_canonical k rs)) evs
    = map (clocks \<circ> A) (filter (targets fs k \<circ> A) (committed es)))"
  using assms
proof (induction A fs rs es rule: serial.induct)
  case (1 A fs rs)
  then show ?case by (auto intro: exI [of _ "[]"])
next
  case (3 A fs rs slug f es)
  have "targets (fs(slug \<mapsto> f)) k = targets fs k"
    using 3(3) targets_save by (auto simp: fun_eq_iff)
  then show ?case using 3 by (simp del: fun_upd_apply)
next
  case (2 A fs rs i es)
  from 2(2) obtain f g rs1 where alone: "attempt_alone (A i) fs rs = Some (f, g, rs1)" and rest: "serial A fs rs1 es = Some (fs', rs')"
    by (auto split: option.splits)
  obtain h where f: "fs (at_slug (A i)) = Some f" and e: "attempt_effect (A i) f g (rows_canonical (attempt_key (A i) f) rs) = Some h"
    and rs1: "rs1 = h rs" using alone by (auto simp: attempt_alone_Some)
  have rid: "at_rid (A i) \<notin> set (map fr_id rs)" "at_rid (A i) \<notin> set (map (at_rid \<circ> A) (committed es))"
    "set (map (at_rid \<circ> A) (committed es)) \<inter> fr_id ` set rs = {}" using 2(6,7) by auto
  have ids: "distinct (map fr_id rs1)" "set (map (at_rid \<circ> A) (committed es)) \<inter> fr_id ` set rs1 = {}"
    using effect_fresh_ids(1) [OF e 2(5) rid(1)] disjoint_from_insert [OF rid(3,2) effect_fresh_ids(2) [OF e 2(5) rid(1)]]
    unfolding rs1 by simp_all
  have prem: "same_ids fs es" "distinct (map (at_rid \<circ> A) (committed es))"
    "versions (\<lambda>f. fm_id f = fst k \<longrightarrow> governed f \<and> retry_config_from_form f = c) fs es" using 2(3,6,8) by (simp_all add: comp_def)
  note IH = 2(1) [OF alone refl refl rest prem(1) _ ids(1) prem(2) ids(2) prem(3)]
  show ?case
  proof (cases "attempt_key (A i) f = k")
    case True
    have "governed f \<and> retry_config_from_form f = c" using versions_now [OF prem(3) f] True by (auto simp: attempt_key_def)
    then obtain x where x: "gate_decision (A i) f g (rows_canonical k rs) = Inr x" and c: "retry_config_from_form f = c"
      and r: "map existing_of (rows_of k rs1) = [row_after (at_stamp (A i)) x]"
      using gate_row [OF e] 2(4) True rs1 by auto
    have now: "map_option existing_of (rows_canonical k rs1) = Some (row_after (at_stamp (A i)) x)"
      using r by (auto simp: rows_canonical_def)
    have "length (rows_of k rs1) \<le> 1" using r by (metis length_map length_Cons list.size(3) One_nat_def order_refl)
    from IH [OF this] obtain evs where one: "length (rows_of k rs') \<le> 1"
      and evs: "stamped_times decide c (Some (row_after (at_stamp (A i)) x)) evs = map (clocks \<circ> A) (filter (targets fs k \<circ> A) (committed es))"
      unfolding now by blast
    have "stamped_times decide c (map_option existing_of (rows_canonical k rs)) ((clocks (A i), attempt_of g) # evs)
        = map (clocks \<circ> A) (filter (targets fs k \<circ> A) (committed (Committed i # es)))"
      using x c evs True f by (simp add: gate_decision_def targets_def clocks_def)
    then show ?thesis using one by blast
  next
    case False
    then have "rows_of k rs1 = rows_of k rs" using other_key_untouched [OF e 2(5)] rs1 by simp
    then show ?thesis using IH 2(4) False f by (simp add: rows_canonical_def targets_def)
  qed
qed

lemma reachable_gated:
  assumes "tx_reachable A fs rs s" and "fresh_ids A rs" and "forms_distinct fs" and "rows_of k rs = []"
    and "versions (\<lambda>f. fm_id f = fst k \<longrightarrow> governed f \<and> retry_config_from_form f = c) fs (iv_log s)"
  shows "length (rows_of k (iv_rows s)) \<le> 1 \<and>
    (\<exists>evs. stamped_times decide c None evs = map (clocks \<circ> A) (filter (targets fs k \<circ> A) (committed (iv_log s))))"
proof -
  note iso = isolatedD [OF reachable_isolated [OF assms(1-3)]]
  have "inj_on (at_rid \<circ> A) (set (committed (iv_log s)))" using assms(2) inj_on_subset by (fastforce simp: fresh_ids_def)
  then have "distinct (map (at_rid \<circ> A) (committed (iv_log s)))" using iso(2) by (simp add: distinct_map)
  moreover have "set (map (at_rid \<circ> A) (committed (iv_log s))) \<inter> fr_id ` set rs = {}" "distinct (map fr_id rs)"
    using assms(2) by (auto simp: fresh_ids_def)
  ultimately show ?thesis
    using serial_gate [OF iso(1,9) _ _ _ _ assms(5)] assms(4) by (simp add: rows_canonical_def)
qed

subsection \<open>A deletion and a submission in flight\<close>

text \<open>
  \<open>delete_form\<close> in \<open>routes/admin.rs\<close> deletes the committed responses first and the form's row last, where
  it waits for the share locks. Its responses are the ones it saw at its first statement.
\<close>

definition delete_sees :: "str \<Rightarrow> isolation \<Rightarrow> str set" where
  "delete_sees form_id s = fr_id ` {r \<in> set (iv_rows s). fr_form_id r = form_id}"

definition delete_unblocked :: "str \<Rightarrow> isolation \<Rightarrow> bool" where
  "delete_unblocked form_id s \<longleftrightarrow> (\<forall>j f. form_held (iv_phase s j) = Some f \<longrightarrow> fm_id f \<noteq> form_id)"

definition delete_commits :: "str \<Rightarrow> str set \<Rightarrow> isolation \<Rightarrow> isolation" where
  "delete_commits form_id seen s = s\<lparr>iv_rows := filter (\<lambda>r. fr_id r \<notin> seen) (iv_rows s),
     iv_forms := (\<lambda>slug. case iv_forms s slug of Some f \<Rightarrow> if fm_id f = form_id then None else Some f | None \<Rightarrow> None)\<rparr>"

text \<open>A submission that inserts its row in between leaves the row without a form.\<close>

lemma delete_leaves_late_response:
  assumes "tx_reachable A fs rs s" and "fresh_ids A rs" and "forms_distinct fs" and p: "iv_phase s i = Stored f g h"
    and new: "is_single f \<Longrightarrow> rows_of (attempt_key (A i) f) (iv_rows s) = []"
  defines "s1 \<equiv> (enter i Ended s)\<lparr>iv_rows := h (iv_rows s), iv_log := iv_log s @ [Committed i]\<rparr>"
  defines "s2 \<equiv> delete_commits (fm_id f) (delete_sees (fm_id f) s) s1"
  shows "tx_step A s s1" and "\<exists>r \<in> set (iv_rows s2). fr_form_id r = fm_id f"
    and "\<forall>slug f'. iv_forms s2 slug = Some f' \<longrightarrow> fm_id f' \<noteq> fm_id f"
proof -
  note iso = reachable_isolated [OF assms(1-3)]
  show "tx_step A s s1" unfolding s1_def by (rule commit [OF p])
  have e: "attempt_effect (A i) f g (rows_canonical (attempt_key (A i) f) (iv_rows s)) = Some h"
    using isolatedD(7) [OF iso, of i] p by simp
  have "at_rid (A i) \<notin> (at_rid \<circ> A) ` set (committed (iv_log s))"
    using isolatedD(3) [OF iso, of i] p assms(2) by (auto simp: fresh_ids_def inj_def)
  moreover have "at_rid (A i) \<notin> fr_id ` set rs" using assms(2) by (auto simp: fresh_ids_def)
  ultimately have fresh: "at_rid (A i) \<notin> fr_id ` set (iv_rows s)" using isolatedD(5) [OF iso] by auto
  have "\<exists>row. h (iv_rows s) = iv_rows s @ [row] \<and> fr_id row = at_rid (A i) \<and> fr_form_id row = fm_id f"
    using e
  proof (cases rule: attempt_effect_cases)
    case (inserted row)
    then show ?thesis by (auto simp: attempt_key_def)
  next
    case (changed r k)
    then have "is_single f \<and> rows_of (attempt_key (A i) f) (iv_rows s) \<noteq> []"
      using e fresh by (cases "is_single f") (auto simp: attempt_effect_def insert_fresh_def replaced_def dest: arg_cong [of _ _ length])
    then show ?thesis using new by blast
  qed
  then obtain row where row: "h (iv_rows s) = iv_rows s @ [row]" "fr_id row = at_rid (A i)" "fr_form_id row = fm_id f" by blast
  then have "row \<in> set (iv_rows s2)" using fresh by (auto simp: s2_def s1_def delete_commits_def delete_sees_def)
  then show "\<exists>r \<in> set (iv_rows s2). fr_form_id r = fm_id f" using row(3) by blast
  show "\<forall>slug f'. iv_forms s2 slug = Some f' \<longrightarrow> fm_id f' \<noteq> fm_id f"
    by (auto simp: s2_def delete_commits_def split: option.splits if_splits)
qed

subsection \<open>A run\<close>

definition sample_attempts :: "nat \<Rightarrow> attempt" where
  "sample_attempts i = \<lparr>at_slug = ''join'', at_user = ''ann'', at_accepts = (\<lambda>_. Some sample_graded), at_now = 0, at_stamp = 0,
     at_rid = replicate i CHR ''r''\<rparr>"

definition sample_forms :: "str \<Rightarrow> form_row option" where
  "sample_forms = [''join'' \<mapsto> sample_form_row]"

text \<open>One attempt commits while a second waits for the lock.\<close>

lemma sample_run: "\<exists>s :: isolation. tx_reachable sample_attempts sample_forms [] s \<and> iv_log s = [Committed 0]
    \<and> iv_phase s 1 = Opened sample_form_row sample_graded"
proof -
  have key: "attempt_key (sample_attempts i) sample_form_row = (''f'', ''ann'')" for i
    by (simp add: attempt_key_def sample_attempts_def sample_row)
  obtain h where h: "attempt_effect (sample_attempts 0) sample_form_row sample_graded None = Some h"
    using sample_row(1,2) by (auto simp: attempt_effect_def gate_decision_def decide_def)
  let ?f = sample_form_row and ?g = sample_graded
  let ?s0 = "tx_start sample_forms []"
  let ?s1 = "enter 0 (Opened ?f ?g) ?s0"
  let ?s2 = "enter 1 (Opened ?f ?g) ?s1"
  let ?s3 = "enter 0 (Locked ?f ?g) ?s2"
  let ?s4 = "enter 0 (Loaded ?f ?g None) ?s3"
  let ?s5 = "enter 0 (Stored ?f ?g h) ?s4"
  let ?s6 = "(enter 0 Ended ?s5)\<lparr>iv_rows := h (iv_rows ?s5), iv_log := iv_log ?s5 @ [Committed 0]\<rparr>"
  have "tx_step sample_attempts ?s0 ?s1" "tx_step sample_attempts ?s1 ?s2"
    by (rule opens; simp add: tx_start_def enter_def sample_forms_def sample_attempts_def)+
  moreover have "tx_step sample_attempts ?s2 ?s3"
    by (rule lock) (auto simp: tx_start_def enter_def sample_row split: if_splits)
  moreover have "tx_step sample_attempts ?s3 ?s4"
    using load [of ?s3 0 ?f ?g sample_attempts] by (simp add: tx_start_def enter_def rows_canonical_def rows_of_def)
  moreover have "tx_step sample_attempts ?s4 ?s5"
    using store [of ?s4 0 ?f ?g None sample_attempts h] h by (simp add: tx_start_def enter_def)
  moreover have "tx_step sample_attempts ?s5 ?s6" by (rule commit) (simp add: tx_start_def enter_def)
  ultimately have "tx_reachable sample_attempts sample_forms [] ?s6"
    by (meson tx_reachable.start tx_reachable.step)
  moreover have "iv_log ?s6 = [Committed 0]" "iv_phase ?s6 1 = Opened ?f ?g" by (simp_all add: tx_start_def enter_def)
  ultimately show ?thesis by blast
qed

lemma sample_fresh: "fresh_ids sample_attempts []" "forms_distinct sample_forms"
  by (auto simp: fresh_ids_def forms_distinct_def sample_forms_def sample_attempts_def inj_def replicate_eq_replicate split: if_splits)

subsection \<open>Properties\<close>

text \<open>C6: however the transactions of concurrent submissions and the saves of forms interleave, the
  tables are those the committed ones give one at a time in the order of their commits, each
  submission accepted by the form and on the row of that moment; a member is past the
  lock of a form once only, and no request is stored twice.\<close>

theorem concurrent_submissions_serialise:
  assumes "tx_reachable A fs rs s" and "fresh_ids A rs" and "forms_distinct fs"
  shows "serial A fs rs (iv_log s) = Some (iv_forms s, iv_rows s) \<and> distinct (committed (iv_log s))
    \<and> (\<forall>i j f f'. holds_lock (iv_phase s i) \<and> holds_lock (iv_phase s j) \<and> form_held (iv_phase s i) = Some f
         \<and> form_held (iv_phase s j) = Some f' \<and> attempt_key (A i) f = attempt_key (A j) f' \<longrightarrow> i = j)"
  using isolatedD(1,2,8) [OF reachable_isolated [OF assms]] unfolding mutex_def by simp

text \<open>C7: a member that starts with no response to a form, retry-governed under one policy in all its
  versions, has at most one row; and however the member's submissions overlap, at most \<open>max_attempts\<close>
  commit, unless that is zero (unlimited), and with a cooldown each is decided, by the application's
  clock, at least the cooldown after the instant, by the database's, at which the one committed before
  it began. Neither bound needs the other.\<close>

theorem concurrent_attempts_within_limit:
  assumes "tx_reachable A fs rs s" and "fresh_ids A rs" and "forms_distinct fs" and "rows_of k rs = []"
    and "versions (\<lambda>f. fm_id f = fst k \<longrightarrow> governed f \<and> retry_config_from_form f = c) fs (iv_log s)"
    and "in_i32 (rc_max_attempts c)"
  shows "length (rows_of k (iv_rows s)) \<le> 1
    \<and> (0 < rc_max_attempts c \<longrightarrow>
         int (length (filter (targets fs k \<circ> A) (committed (iv_log s)))) \<le> rc_max_attempts c)
    \<and> (0 < rc_cooldown_seconds c \<longrightarrow>
         successively (\<lambda>i j. at_stamp (A i) + rc_cooldown_seconds c * nanos_per_sec \<le> at_now (A j))
           (filter (targets fs k \<circ> A) (committed (iv_log s))))"
proof -
  obtain evs where one: "length (rows_of k (iv_rows s)) \<le> 1"
    and evs: "stamped_times decide c None evs = map (clocks \<circ> A) (filter (targets fs k \<circ> A) (committed (iv_log s)))"
    using reachable_gated [OF assms(1-5)] by blast
  show ?thesis
    using one gate.at_most_max_attempts [of c evs] gate.stamped_spaced [of c evs] assms(6)
    by (simp add: evs successively_map clocks_def)
qed

theorem concurrent_submissions_serialise_witness:
  "\<exists>s :: isolation. iv_log s = [Committed 0] \<and> iv_phase s 1 = Opened sample_form_row sample_graded
    \<and> serial sample_attempts sample_forms [] [Committed 0] = Some (iv_forms s, iv_rows s)"
proof -
  obtain s :: isolation where s: "tx_reachable sample_attempts sample_forms [] s" "iv_log s = [Committed 0]"
    "iv_phase s 1 = Opened sample_form_row sample_graded" using sample_run by blast
  then show ?thesis using concurrent_submissions_serialise [OF s(1) sample_fresh] by auto
qed

theorem concurrent_attempts_within_limit_witness:
  "\<exists>s :: isolation. tx_reachable sample_attempts sample_forms [] s \<and> committed (iv_log s) = [0]
    \<and> int (length (filter (targets sample_forms (''f'', ''ann'') \<circ> sample_attempts) (committed (iv_log s)))) \<le> 2"
proof -
  obtain s :: isolation where s: "tx_reachable sample_attempts sample_forms [] s" "iv_log s = [Committed 0]"
    using sample_run by blast
  let ?c = "retry_config_from_form sample_form_row"
  have v: "versions (\<lambda>f. fm_id f = fst (''f'', ''ann'') \<longrightarrow> governed f \<and> retry_config_from_form f = ?c) sample_forms (iv_log s)"
    using s(2) sample_row by (simp add: sample_forms_def governed_iff)
  have c: "rc_max_attempts ?c = 2" "rc_cooldown_seconds ?c = 60"
    using sample_limits by (simp_all add: retry_config_from_form_def)
  have "int (length (filter (targets sample_forms (''f'', ''ann'') \<circ> sample_attempts) (committed (iv_log s)))) \<le> 2"
    using concurrent_attempts_within_limit [OF s(1) sample_fresh _ v] sample_limits(3) c by (simp add: rows_of_def in_i32_def)
  moreover have "committed (iv_log s) = [0]" using s(2) by simp
  ultimately show ?thesis using s(1) by blast
qed

end
