(* ===== verification/Spec2Isabelle.thy ===== *)
theory Spec2Isabelle
  imports Stack Lifecycle Interleave
begin

text \<open>
  Form-Respondent-Role grants Discord roles to the members of a guild whose answers to a form meet
  the conditions of a role link. This development models its server, \<open>src/src\<close>: managers build forms
  and conditions in a browser, members submit responses, workers turn queued jobs into calls of
  RoleLogic, which owns the roles, and an Auth Gateway says who is in which guild, who manages it
  and who opted out. Everything is kept in the tables of one database.

  \<^bold>\<open>How the parts interact.\<close> \<open>main.rs\<close> routes a request, behind the read-only layer, to a handler. A
  handler is an action on the world (\<open>Store.world\<close>: the tables, the clock, the requests sent) with an
  application error or a result; what it changes, it changes in one statement or one transaction,
  and it leaves work for the background as rows of the \<open>jobs\<close> table. A worker claims jobs and runs
  the per-player sync, the bulk sync of a role link, or a webhook delivery; the two syncs decide
  with the same evaluator and record what they granted in \<open>role_assignments\<close>.

  \<^bold>\<open>Conventions.\<close> A Rust string is the list of its UTF-8 bytes, an instant the nanoseconds since the
  epoch, \<open>Result<T, E>\<close> the sum \<open>'e + 'a\<close> with \<open>?\<close> as \<open>try_bind\<close> (\<open>act_bind\<close> in an action). Integers
  are \<open>int\<close> with the saturation of the source written out; the JWT's times, IP addresses and hash
  inputs are words of their width and wrap. A \<open>f64\<close> is an exact rational, an infinity, a NaN or the
  negative zero. An environment \<open>env\<close> answers the outside: which statements fail, what an HTTP
  request returns, the retry jitter.

  \<^bold>\<open>Theories and sources.\<close>

  \<^item> \<open>Prelude\<close>, \<open>RustStr\<close>, \<open>RustF64\<close>, \<open>Json\<close>: the standard library's strings and numbers and
    \<open>serde_json::Value\<close>, with the facts the components share.
  \<^item> \<open>Serde\<close>: how serde's derives read a struct, as an object or as the array of its fields, and an
    enum. \<open>Models\<close>, \<open>FormJson\<close> (\<open>models/\<close>): forms, questions, conditions and their JSON. The program
    writes conditions but never a typed form: \<open>form_schema_to_json\<close> only makes the examples.
    \<open>AppErr\<close> (\<open>error.rs\<close>): errors, their texts and responses.
  \<^item> \<open>ConditionEval\<close> (\<open>services/condition_eval.rs\<close>): whether a response qualifies. \<open>RoleConfig\<close>
    (\<open>schema.rs\<close>): the validator of a link's configuration, with the well-formedness it ensures.
  \<^item> \<open>FormValidator\<close>, \<open>QuizGrader\<close>, \<open>FormSanity\<close> (\<open>services/form_validator.rs\<close>): the validation of
    a submission, its score, and the save-time checks with the specification they are equal to and
    the part of a form (\<open>checked_form\<close>) that is all they read.
  \<^item> \<open>Retry\<close> (\<open>services/retry.rs\<close>): the gate on repeated attempts; the locale \<open>retry_gate\<close> bounds and
    spaces the accepted attempts of any sequence.
  \<^item> \<open>Tokens\<close> (\<open>services/rl_token.rs\<close>, \<open>session.rs\<close>, \<open>dweeb_session.rs\<close>) and \<open>Guard\<close> (\<open>csrf.rs\<close>,
    \<open>read_only_guard.rs\<close>, \<open>security_headers.rs\<close>): signed credentials, one locale \<open>signed_session\<close>
    for the three of them, and the checks around a request.
  \<^item> \<open>Store\<close>: tables, statements, transactions, requests. \<open>Jobs\<close>, \<open>Queue\<close> (\<open>services/jobs.rs\<close>): the
    queue's operations (locale \<open>leased_queue\<close>) and any number of workers on it, with the life cycle
    it refines. \<open>Worker\<close>, \<open>Listener\<close> (\<open>tasks/job_worker.rs\<close>, \<open>shutdown.rs\<close>, \<open>job_listener.rs\<close>).
  \<^item> \<open>RoleLogic\<close>, \<open>Gateway\<close>, \<open>Sync\<close> (\<open>services/rolelogic.rs\<close>, \<open>auth_gateway.rs\<close>, \<open>sync.rs\<close>): the two
    HTTP clients and the syncs; the locale \<open>sync_invariant\<close> says what every statement of a sync
    must keep. \<open>Webhook\<close> (\<open>services/webhook.rs\<close>): the address checks and one delivery. What the HTTP
    client puts on the wire for it, by its own resolution of the name and its redirects, is \<open>n_wire\<close>;
    the law \<open>client_law\<close> says what a client that does neither puts there.
  \<^item> \<open>Site\<close>, \<open>Submit\<close>, \<open>Pages\<close>, \<open>Interleave\<close> (\<open>routes/form_render.rs\<close>): the submission, as one step and
    as a refinement of the gate; the form pages, with redaction and shuffling; and the transactions
    of concurrent submissions, statement by statement, against each other and against saves of
    forms, with the proof that their locks make them serial. A submission has two instants there:
    the application's, which the gate compares, and the transaction's, which stamps the row.
  \<^item> \<open>Access\<close>, \<open>FormAdmin\<close>, \<open>FormSave\<close>, \<open>RoleApi\<close> (\<open>routes/admin.rs\<close>, \<open>plugin.rs\<close>): who may do what, the
    forms, their responses, the role configuration and the RoleLogic contract. \<open>Bodies\<close>: the
    request bodies. \<open>Export\<close>: the CSV text against a reader. \<open>Picker\<close>, \<open>Respondents\<close>
    (\<open>routes/dweeb.rs\<close>, \<open>respondents.rs\<close>).
  \<^item> \<open>Config\<close>, \<open>Backfill\<close> (\<open>config.rs\<close>, \<open>tasks/startup_backfill.rs\<close>): the start.
  \<^item> \<open>Server\<close>, \<open>Tenancy\<close>, \<open>RuleBuilder\<close>, \<open>Router\<close> (\<open>main.rs\<close>, \<open>routes/health.rs\<close>): the properties that
    span components. \<open>Server\<close> runs every request, submission, worker turn and start as a step and
    interprets \<open>server_invariant\<close> on the soundness of the tables; \<open>Tenancy\<close> separates guilds and
    follows a save (\<open>saved_as\<close> says what must have been stored) and a deletion; \<open>RuleBuilder\<close> a saved configuration and a registration;
    \<open>Router\<close> serves a whole request and says who can change a table. \<open>Stack\<close> puts the layers of \<open>main\<close>
    around it and says who may frame a page. \<open>Lifecycle\<close> (\<open>main.rs\<close>, \<open>db.rs\<close>): the start with its migrations,
    and the tasks of a replica up to their end at a shutdown. The HTTP server is there told of the
    shutdown only when it has subscribed before the signal is sent.

  \<^bold>\<open>Bounds.\<close> No operation is fuelled: loops are structural over the list they consume (jobs of a
  batch, chunks of an upload, links, questions), or over the turns and events they are given. The
  five attempts for a free slug, the batch of 8, the limits on forms, texts and conditions and the
  100,000 members of one upload are the code's.

  \<^bold>\<open>Parameters.\<close> Third-party code is an argument: regular expressions, dates and number texts
  (\<open>crates\<close>), HMAC, hex, base64 and JSON parsing (\<open>crypto\<close>), the URL parser, the resolver and the client's wire (\<open>net\<close>),
  random draws, UUIDs and percent encoding (\<open>site\<close>), axum's decoding (\<open>framework\<close>), the layers of the
  \<open>tower\<close> crates (\<open>layers\<close>), the effect of a migration's SQL. What a property
  needs of them is a hypothesis of it, and its witness gives an instance.

  \<^bold>\<open>Not modelled.\<close> Submissions and saves interleave statement by statement (\<open>Interleave\<close>); otherwise a
  handler or a worker's turn is one step in which time stands still and a locked row is busy. The
  concurrent calls of a player's actions are made in list order. A page keeps its status, its
  headers and what is substituted into its markup, not the markup. Members repeated in a JSON
  object, the database's normal form of JSON, ties of \<open>ORDER BY\<close>, collations, redirects of
  the calls of RoleLogic and the gateway, and timeouts other than as failures are left out. So are logging and tracing, which
  change nothing, the options of the pool (\<open>db.rs\<close>) and of the HTTP clients, which go to their crates,
  the removal of idle buckets of the rate limiter, and the module lists, which only declare.
\<close>

end
